(* ===== verification/Prelude.thy ===== *)
theory Prelude
  imports Main "HOL-Library.Multiset"
begin

text \<open>
  Shared vocabulary of the development: Unicode text as the list of its code
  points, decimal rendering and SQLite's \<open>CAST(... AS INTEGER)\<close>, SQL tables as
  lists of rows with the \<open>UPDATE ... WHERE\<close>, \<open>SELECT\<close> and aggregate forms the
  services use, operations over a database that may fail, and the generic list
  lemmas the components share.
\<close>

named_theorems table_simps \<open>how the row operations act on queries\<close>
named_theorems frame_simps \<open>what an operation leaves unchanged\<close>

section \<open>Text\<close>

text \<open>
  A Rust \<open>String\<close> is the list of its Unicode scalar values, so \<open>chars().count()\<close>
  is \<open>length\<close> and \<open>chars().take(n)\<close> is \<open>take n\<close>. A string literal of the
  source is \<open>lit ''...''\<close>.
\<close>

type_synonym ustr = "nat list"
type_synonym time = nat

definition lit :: "string \<Rightarrow> ustr" where
  "lit s = map of_char s"

lemma lit_inject [simp]: "lit s = lit t \<longleftrightarrow> s = t"
  by (simp add: lit_def inj_map_eq_map inj_def)

lemma lit_Nil [simp]: "lit [] = []"
  by (simp add: lit_def)

lemma lit_eq_Nil [simp]: "lit s = [] \<longleftrightarrow> s = []" "[] = lit s \<longleftrightarrow> s = []"
  by (auto simp: lit_def)

lemma length_lit [simp]: "length (lit s) = length s"
  by (simp add: lit_def)

text \<open>The code points with the property \<open>White_Space\<close>, which \<open>str::trim\<close> removes.\<close>

definition is_white :: "nat \<Rightarrow> bool" where
  "is_white c \<longleftrightarrow> (9 \<le> c \<and> c \<le> 13) \<or> c = 32 \<or> c = 0x85 \<or> c = 0xA0 \<or> c = 0x1680 \<or>
     (0x2000 \<le> c \<and> c \<le> 0x200A) \<or> c = 0x2028 \<or> c = 0x2029 \<or> c = 0x202F \<or>
     c = 0x205F \<or> c = 0x3000"

definition trim_start :: "ustr \<Rightarrow> ustr" where
  "trim_start s = dropWhile is_white s"

definition trim :: "ustr \<Rightarrow> ustr" where
  "trim s = rev (trim_start (rev (trim_start s)))"

lemma trim_Nil [simp]: "trim [] = []"
  by (simp add: trim_def trim_start_def)

lemma length_trim_le: "length (trim s) \<le> length s"
  by (metis dual_order.trans length_dropWhile_le length_rev trim_def trim_start_def)

lemma trim_start_idem: "trim_start (trim_start s) = trim_start s"
  by (simp add: trim_start_def dropWhile_idem)

text \<open>Whether a text is left as it is by \<open>trim\<close>: no white space at either end.\<close>

definition trimmed :: "ustr \<Rightarrow> bool" where
  "trimmed s \<longleftrightarrow> s = [] \<or> (\<not> is_white (hd s) \<and> \<not> is_white (last s))"

lemma trimmed_trim: "trimmed (trim s)"
proof (cases "trim s = []")
  case False
  define u where "u = trim_start s"
  define v where "v = dropWhile is_white (rev u)"
  have ts: "trim s = rev v" by (simp add: trim_def u_def v_def trim_start_def)
  have vne: "v \<noteq> []" using False ts by simp
  have l: "\<not> is_white (last (trim s))"
    using vne by (simp add: ts last_rev v_def hd_dropWhile)
  obtain w where w: "rev u = w @ v" unfolding v_def by (metis takeWhile_dropWhile_id)
  then have u: "u = rev v @ rev w" by (metis rev_append rev_rev_ident)
  have "u \<noteq> []" using u vne by simp
  then have "\<not> is_white (hd u)" by (simp add: u_def trim_start_def hd_dropWhile)
  then have "\<not> is_white (hd (trim s))" using u vne by (simp add: ts)
  with l show ?thesis by (simp add: trimmed_def)
qed (simp add: trimmed_def)

lemma dropWhile_hd: "\<not> p (hd s) \<Longrightarrow> dropWhile p s = s"
  by (cases s) auto

lemma trim_trimmed: "trimmed s \<Longrightarrow> trim s = s"
  by (cases "s = []") (auto simp: trimmed_def trim_def trim_start_def hd_rev dropWhile_hd)

lemma trim_trim [simp]: "trim (trim s) = trim s"
  by (simp add: trim_trimmed trimmed_trim)

section \<open>Filters\<close>

definition is_alphanumeric :: "nat \<Rightarrow> bool" where
  "is_alphanumeric c \<longleftrightarrow> (48 \<le> c \<and> c \<le> 57) \<or> (65 \<le> c \<and> c \<le> 90) \<or> (97 \<le> c \<and> c \<le> 122)"

definition ascii_lower :: "nat \<Rightarrow> nat" where
  "ascii_lower c = (if 65 \<le> c \<and> c \<le> 90 then c + 32 else c)"

text \<open>
  \<open>LIKE\<close>: \<open>%\<close> (37) is any text, \<open>_\<close> (95) any character, the rest compares without regard
  to ASCII case. The query of a filter goes into the pattern as it is.
\<close>

fun like :: "ustr \<Rightarrow> ustr \<Rightarrow> bool" where
  "like [] [] = True"
| "like [] (c # s) = False"
| "like (p # ps) [] = (p = 37 \<and> like ps [])"
| "like (p # ps) (c # s) =
    (if p = 37 then like ps (c # s) \<or> like (p # ps) s
     else (p = 95 \<or> ascii_lower p = ascii_lower c) \<and> like ps s)"

definition normalize_optional_filter :: "ustr option \<Rightarrow> ustr option" where
  "normalize_optional_filter value =
    (case map_option trim value of Some [] \<Rightarrow> None | v \<Rightarrow> v)"

definition opt_eq :: "'a option \<Rightarrow> 'a \<Rightarrow> bool" where
  "opt_eq wanted x \<longleftrightarrow> (case wanted of None \<Rightarrow> True | Some w \<Rightarrow> x = w)"

section \<open>Decimal numbers\<close>

text \<open>\<open>format!("{n}")\<close> on an integer.\<close>

fun dec_nat :: "nat \<Rightarrow> ustr" where
  "dec_nat n = (if n < 10 then [48 + n] else dec_nat (n div 10) @ [48 + n mod 10])"

declare dec_nat.simps [simp del]

definition dec :: "int \<Rightarrow> ustr" where
  "dec i = (if i < 0 then 45 # dec_nat (nat (- i)) else dec_nat (nat i))"

definition is_digit :: "nat \<Rightarrow> bool" where
  "is_digit c \<longleftrightarrow> 48 \<le> c \<and> c \<le> 57"

definition digits_value :: "ustr \<Rightarrow> nat" where
  "digits_value ds = foldl (\<lambda>v c. 10 * v + (c - 48)) 0 ds"

text \<open>
  SQLite's \<open>CAST(x AS INTEGER)\<close> of a text: the longest prefix that is an optional
  sign and decimal digits, after leading white space; \<open>0\<close> when there is none.
\<close>

definition is_sql_space :: "nat \<Rightarrow> bool" where
  "is_sql_space c \<longleftrightarrow> c = 32 \<or> (9 \<le> c \<and> c \<le> 13)"

definition cast_integer :: "ustr \<Rightarrow> int" where
  "cast_integer s = (let t = dropWhile is_sql_space s in
     case t of [] \<Rightarrow> 0
     | c # cs \<Rightarrow>
         if c = 45 then - int (digits_value (takeWhile is_digit cs))
         else if c = 43 then int (digits_value (takeWhile is_digit cs))
         else int (digits_value (takeWhile is_digit t)))"

lemma digits_value_snoc: "digits_value (ds @ [c]) = 10 * digits_value ds + (c - 48)"
  by (simp add: digits_value_def)

lemma dec_nat_digits: "\<forall>c \<in> set (dec_nat n). is_digit c"
proof (induction n rule: dec_nat.induct)
  case (1 n)
  then show ?case by (subst dec_nat.simps) (auto simp: is_digit_def)
qed

lemma dec_nat_nonempty: "dec_nat n \<noteq> []"
  by (subst dec_nat.simps) simp

lemma digits_value_dec_nat: "digits_value (dec_nat n) = n"
proof (induction n rule: dec_nat.induct)
  case (1 n)
  show ?case
  proof (cases "n < 10")
    case True
    then show ?thesis by (subst dec_nat.simps) (simp add: digits_value_def)
  next
    case False
    then have "digits_value (dec_nat n) = 10 * digits_value (dec_nat (n div 10)) + n mod 10"
      by (subst dec_nat.simps) (simp add: digits_value_snoc)
    with 1 False show ?thesis by simp
  qed
qed

lemma takeWhile_dec_nat: "takeWhile is_digit (dec_nat n) = dec_nat n"
  using dec_nat_digits by (simp add: takeWhile_eq_all_conv)

lemma cast_integer_dec: "cast_integer (dec i) = i"
proof (cases "i < 0")
  case True
  then show ?thesis
    by (simp add: dec_def cast_integer_def is_sql_space_def takeWhile_dec_nat
        digits_value_dec_nat)
next
  case False
  obtain c cs where c: "dec_nat (nat i) = c # cs"
    using dec_nat_nonempty by (cases "dec_nat (nat i)") auto
  then have d: "is_digit c" using dec_nat_digits [of "nat i"] by simp
  then have ns: "\<not> is_sql_space c" "c \<noteq> 45" "c \<noteq> 43"
    by (auto simp: is_digit_def is_sql_space_def)
  have tw: "takeWhile is_digit (c # cs) = c # cs" and dv: "digits_value (c # cs) = nat i"
    using takeWhile_dec_nat [of "nat i"] digits_value_dec_nat [of "nat i"] by (simp_all add: c)
  have "cast_integer (dec i) = int (digits_value (takeWhile is_digit (c # cs)))"
    using False ns by (simp add: dec_def cast_integer_def c del: takeWhile.simps)
  also have "\<dots> = int (nat i)" by (simp only: tw dv)
  finally show ?thesis using False by simp
qed

lemma dec_inject: "dec i = dec j \<longleftrightarrow> i = j"
  by (metis cast_integer_dec)

section \<open>Filtering maps\<close>

lemma set_map_filter: "set (List.map_filter f xs) = {y. \<exists>x \<in> set xs. f x = Some y}"
  by (induction xs) (auto simp: List.map_filter_def)

lemma length_map_filter_le: "length (List.map_filter f xs) \<le> length xs"
  by (simp add: List.map_filter_def)

lemma length_map_filter_full:
  "length (List.map_filter f xs) = length xs \<longleftrightarrow> (\<forall>x \<in> set xs. f x \<noteq> None)"
proof -
  have "length (filter p xs) = length xs \<longleftrightarrow> (\<forall>x \<in> set xs. p x)" for p
    by (metis filter_True length_filter_less nat_neq_iff)
  from this [of "\<lambda>x. f x \<noteq> None"] show ?thesis by (simp add: List.map_filter_def o_def)
qed

lemma defined_and_holds:
  "(\<forall>n \<in> N. g n \<noteq> None) \<and> (\<forall>s \<in> {s. \<exists>n \<in> N. g n = Some s}. P s) \<longleftrightarrow>
     (\<forall>n \<in> N. \<exists>s. g n = Some s \<and> P s)"
  by fastforce

section \<open>Tables\<close>

text \<open>
  A SQL table is the list of its rows in rowid order. \<open>modify p f\<close> is
  \<open>UPDATE ... SET f WHERE p\<close>; \<open>affected p\<close> is \<open>rows_affected()\<close> of that
  statement (and \<open>SELECT COUNT(*) ... WHERE p\<close>); \<open>find p\<close> from the library is
  \<open>fetch_optional\<close> of a query ordered by rowid.
\<close>

definition modify :: "('r \<Rightarrow> bool) \<Rightarrow> ('r \<Rightarrow> 'r) \<Rightarrow> 'r list \<Rightarrow> 'r list" where
  "modify p f rows = map (\<lambda>r. if p r then f r else r) rows"

definition affected :: "('r \<Rightarrow> bool) \<Rightarrow> 'r list \<Rightarrow> nat" where
  "affected p rows = length (filter p rows)"

text \<open>\<open>SELECT COALESCE(MAX(f), 0) + 1\<close>.\<close>

definition next_no :: "('r \<Rightarrow> int) \<Rightarrow> 'r list \<Rightarrow> int" where
  "next_no f rows = foldr max (map f rows) 0 + 1"

lemma modify_Nil [simp]: "modify p f [] = []"
  and modify_Cons [simp]: "modify p f (r # rs) = (if p r then f r else r) # modify p f rs"
  and modify_append [simp]: "modify p f (xs @ ys) = modify p f xs @ modify p f ys"
  and length_modify [simp]: "length (modify p f xs) = length xs"
  by (simp_all add: modify_def)

lemma set_modify: "set (modify p f xs) = (\<lambda>r. if p r then f r else r) ` set xs"
  by (simp add: modify_def)

lemma in_set_modifyE:
  assumes "r \<in> set (modify p f xs)"
  obtains r0 where "r0 \<in> set xs" "r = (if p r0 then f r0 else r0)"
  using assms by (auto simp: set_modify)

lemma map_modify: "(\<And>r. p r \<Longrightarrow> g (f r) = g r) \<Longrightarrow> map g (modify p f xs) = map g xs"
  by (induction xs) auto

lemma filter_modify_inv:
  "(\<And>r. p r \<Longrightarrow> q (f r) = q r) \<Longrightarrow> filter q (modify p f xs) = modify p f (filter q xs)"
  by (induction xs) auto

lemma filter_modify_disjoint:
  "(\<And>r. p r \<Longrightarrow> \<not> q r \<and> \<not> q (f r)) \<Longrightarrow> filter q (modify p f xs) = filter q xs"
  by (induction xs) auto

lemma modify_id_when: "(\<And>r. r \<in> set xs \<Longrightarrow> \<not> p r) \<Longrightarrow> modify p f xs = xs"
  by (induction xs) auto

lemma affected_Nil [simp]: "affected p [] = 0"
  and affected_Cons [simp]: "affected p (r # rs) = (if p r then Suc (affected p rs) else affected p rs)"
  and affected_append [simp]: "affected p (xs @ ys) = affected p xs + affected p ys"
  by (simp_all add: affected_def)

lemma affected_0: "affected p xs = 0 \<longleftrightarrow> (\<forall>r \<in> set xs. \<not> p r)"
  by (induction xs) auto

lemma affected_pos: "0 < affected p xs \<longleftrightarrow> (\<exists>r \<in> set xs. p r)"
  by (induction xs) auto

lemma affected_le: "affected p xs \<le> length xs"
  by (simp add: affected_def)

lemma affected_cong: "(\<And>r. r \<in> set xs \<Longrightarrow> p r = q r) \<Longrightarrow> affected p xs = affected q xs"
  by (induction xs) auto

lemma affected_modify: "affected q (modify p f xs) = affected (\<lambda>r. q (if p r then f r else r)) xs"
  by (induction xs) auto

lemma affected_disj:
  "(\<And>r. \<not> (p r \<and> q r)) \<Longrightarrow> affected (\<lambda>r. p r \<or> q r) xs = affected p xs + affected q xs"
  by (induction xs) auto

lemma affected_1_unique:
  "affected p xs = 1 \<Longrightarrow> r \<in> set xs \<Longrightarrow> p r \<Longrightarrow> r' \<in> set xs \<Longrightarrow> p r' \<Longrightarrow> r = r'"
  by (induction xs) (auto split: if_splits simp: affected_0)

lemma foldr_max_ge: "x \<in> set xs \<Longrightarrow> x \<le> foldr max xs (0::int)"
  by (induction xs) auto

lemma next_no_gt: "r \<in> set rows \<Longrightarrow> f r < next_no f rows"
  using foldr_max_ge [of "f r" "map f rows"] by (simp add: next_no_def)

lemma next_no_pos: "0 < next_no f rows"
proof -
  have "0 \<le> foldr max xs (0::int)" for xs by (induction xs) auto
  then show ?thesis by (simp add: next_no_def add_pos_pos add_nonneg_pos)
qed

lemma find_SomeD: "find p xs = Some r \<Longrightarrow> r \<in> set xs \<and> p r"
  by (metis find_Some_iff nth_mem)

lemma find_NoneD: "find p xs = None \<Longrightarrow> r \<in> set xs \<Longrightarrow> \<not> p r"
  by (auto simp: find_None_iff)

lemma find_modify:
  "(\<And>r. q (f r) = q r) \<Longrightarrow>
     find q (modify p f rs) = map_option (\<lambda>r. if p r then f r else r) (find q rs)"
  by (induction rs) auto

lemma find_unique:
  "r \<in> set xs \<Longrightarrow> p r \<Longrightarrow> (\<And>r'. r' \<in> set xs \<Longrightarrow> p r' \<Longrightarrow> r' = r) \<Longrightarrow> find p xs = Some r"
  by (cases "find p xs") (blast dest: find_NoneD find_SomeD)+

text \<open>Rows with distinct keys are determined by their key.\<close>

lemma distinct_map_inj: "distinct (map f xs) \<Longrightarrow> x \<in> set xs \<Longrightarrow> y \<in> set xs \<Longrightarrow> f x = f y \<Longrightarrow> x = y"
  by (auto simp: distinct_map inj_on_def)

lemma find_key:
  "distinct (map k xs) \<Longrightarrow> r \<in> set xs \<Longrightarrow> k r = v \<Longrightarrow> find (\<lambda>r. k r = v) xs = Some r"
  by (rule find_unique) (auto dest: distinct_map_inj)

lemma fold_keeps: "(\<And>x s. g (f x s) = g s) \<Longrightarrow> g (fold f xs s) = g s"
  by (induction xs arbitrary: s) auto

section \<open>Operations that may fail\<close>

text \<open>
  An operation on a state \<open>'s\<close> returns an error or a value, together with the state
  it leaves. A \<open>BEGIN ... COMMIT\<close> block keeps the old state when it fails: dropping
  the sqlx transaction without a commit rolls it back.
\<close>

type_synonym ('s, 'e, 'a) operation = "'s \<Rightarrow> ('e + 'a) \<times> 's"

definition transaction :: "('s, 'e, 'a) operation \<Rightarrow> ('s, 'e, 'a) operation" where
  "transaction m s = (case m s of (Inl e, _) \<Rightarrow> (Inl e, s) | (Inr x, s') \<Rightarrow> (Inr x, s'))"

lemma transaction_Inr: "transaction m s = (Inr x, s') \<longleftrightarrow> m s = (Inr x, s')"
  by (auto simp: transaction_def split: prod.splits sum.splits)

lemma transaction_Inl: "transaction m s = (Inl e, s') \<longleftrightarrow> s' = s \<and> (\<exists>t. m s = (Inl e, t))"
  by (auto simp: transaction_def split: prod.splits sum.splits)

lemma transaction_snd: "snd (transaction m s) = s \<or> snd (transaction m s) = snd (m s)"
  by (auto simp: transaction_def split: prod.splits sum.splits)

section \<open>Sorting\<close>

lemma distinct_remdups_adj_sorted: "sorted xs \<Longrightarrow> distinct (remdups_adj (xs :: 'a::linorder list))"
  by (induction xs rule: remdups_adj.induct) auto

lemma sort_key_perm:
  fixes k :: "'a \<Rightarrow> 'b::linorder"
  assumes "mset xs = mset ys" and "inj_on k (set xs)"
  shows "sort_key k xs = sort_key k ys"
proof (rule properties_for_sort_key)
  show "mset (sort_key k ys) = mset xs" using assms by simp
  show "sorted (map k (sort_key k ys))" by simp
  fix x assume x: "x \<in> set (sort_key k ys)"
  have st: "set ys = set xs" using mset_eq_setD [OF assms(1)] by simp
  have eq: "filter (\<lambda>y. k x = k y) zs = replicate (count (mset zs) x) x"
    if "set zs \<subseteq> set xs" for zs
    using that
  proof (induction zs)
    case (Cons z zs)
    then have "k x = k z \<longleftrightarrow> x = z" using assms(2) x st by (auto dest: inj_onD)
    with Cons show ?case by auto
  qed simp
  have "filter (\<lambda>y. k x = k y) (sort_key k ys) = replicate (count (mset (sort_key k ys)) x) x"
    by (rule eq) (simp add: st)
  moreover have "filter (\<lambda>y. k x = k y) xs = replicate (count (mset xs) x) x"
    by (rule eq) simp
  moreover have "mset (sort_key k ys) = mset xs" using assms(1) by simp
  ultimately show "filter (\<lambda>y. k x = k y) (sort_key k ys) = filter (\<lambda>y. k x = k y) xs"
    by (simp only:)
qed

end
