(* ===== verification/Planner.thy ===== *)
theory Planner
  imports Prelude "HOL-Library.Product_Lexorder"
begin

text \<open>
  The deployment planner of \<open>api/src/deployment_orchestrator.rs\<close>: the plan data, the
  classification of one unit's action, \<open>build_deployment_plan\<close> with its validation,
  ordering and hash, and \<open>execution_waves\<close>, which cuts the plan into the groups that
  are executed one after the other. SHA-256 and the JSON serializer are parameters
  (\<open>plan_env\<close>).
\<close>

section \<open>Data\<close>

datatype deployment_mode = Normal | Force

datatype deployment_action =
  Deploy | Skip | Start | Stop | Upgrade | Downgrade | Restore | ApplicationCheck

record target_unit =
  tgt_unit_id :: int
  tgt_unit_key :: ustr
  tgt_release_id :: "int option"
  tgt_version :: "ustr option"
  tgt_version_code :: "int option"
  tgt_desired_status :: ustr
  tgt_stage_no :: int
  tgt_unit_order :: int
  tgt_removal_order :: int
  tgt_fingerprint :: ustr

record unit_state =
  cur_unit_id :: int
  cur_node_id :: int
  cur_runtime_status :: ustr
  cur_release_id :: "int option"
  cur_version_code :: "int option"
  cur_fingerprint :: ustr
  cur_version_label :: ustr

text \<open>The reasons \<open>classify_action\<close> gives, one constructor per message.\<close>

datatype plan_reason =
    AlreadyStopped | DisabledByTarget | ForcedRedeploy | NeverDeployed
  | StateMissingOnSomeNodes | EverythingMatches | RuntimeNotTrusted | RestoreStopped
  | HigherVersion | LowerVersion | FingerprintDiffers

record plan_item =
  item_unit_id :: int
  item_unit_key :: ustr
  item_release_id :: "int option"
  item_version :: "ustr option"
  item_stage_no :: int
  item_unit_order :: int
  item_removal_order :: int
  item_action :: deployment_action
  item_reason :: plan_reason
  item_target_fingerprint :: ustr
  item_previous_fingerprint :: ustr

record plan_input =
  in_app_id :: int
  in_environment_id :: int
  in_release_id :: int
  in_config_id :: int
  in_mode :: deployment_mode
  in_nodes :: "int list"
  in_units :: "target_unit list"
  in_states :: "unit_state list"

text \<open>\<open>PlanHashDocument\<close>: the part of a plan that is hashed.\<close>

record plan_document =
  doc_app_id :: int
  doc_environment_id :: int
  doc_release_id :: int
  doc_config_id :: int
  doc_mode :: deployment_mode
  doc_nodes :: "int list"
  doc_items :: "plan_item list"

record deployment_plan =
  plan_app_id :: int
  plan_environment_id :: int
  plan_release_id :: int
  plan_config_id :: int
  plan_mode :: deployment_mode
  plan_nodes :: "int list"
  plan_items :: "plan_item list"
  plan_hash :: ustr

datatype plan_error =
    NoTargetNodes | NoUnits | DuplicateState | DuplicateUnit
  | BadDesiredStatus | MissingRelease | SerializeFailed

text \<open>
  Code outside the repository: the hexadecimal SHA-256 digest of a byte string, and
  \<open>serde_json\<close> on the plan documents (\<open>None\<close> is a serialization or parse error).
\<close>

record plan_env =
  sha256_hex :: "nat list \<Rightarrow> ustr"
  document_json :: "plan_document \<Rightarrow> nat list option"
  plan_to_json :: "deployment_plan \<Rightarrow> ustr option"
  plan_of_json :: "ustr \<Rightarrow> deployment_plan option"

section \<open>Classification\<close>

fun common_previous_fingerprint :: "unit_state list \<Rightarrow> ustr" where
  "common_previous_fingerprint [] = []"
| "common_previous_fingerprint (first # states) =
     (if \<forall>s \<in> set (first # states). cur_fingerprint s = cur_fingerprint first
      then cur_fingerprint first else [])"

definition fully_matching :: "target_unit \<Rightarrow> unit_state list \<Rightarrow> bool" where
  "fully_matching target states \<longleftrightarrow> (\<forall>s \<in> set states.
     cur_runtime_status s = lit ''healthy'' \<and>
     cur_release_id s = tgt_release_id target \<and>
     cur_fingerprint s = tgt_fingerprint target \<and>
     Some (cur_version_label s) = tgt_version target)"

definition current_codes :: "unit_state list \<Rightarrow> int list" where
  "current_codes states = List.map_filter cur_version_code states"

definition classify_action ::
  "deployment_mode \<Rightarrow> target_unit \<Rightarrow> int list \<Rightarrow> unit_state list \<Rightarrow> deployment_action \<times> plan_reason"
where
  "classify_action mode target nodes states =
    (if tgt_desired_status target = lit ''disabled'' then
       (let already_stopped = length states = length nodes \<and>
              (\<forall>s \<in> set states. cur_runtime_status s = lit ''stopped'')
        in if already_stopped \<or> states = [] then (Skip, AlreadyStopped)
           else (Stop, DisabledByTarget))
     else if mode = Force then (Deploy, ForcedRedeploy)
     else if length states \<noteq> length nodes then
       (if states = [] then (Start, NeverDeployed) else (Deploy, StateMissingOnSomeNodes))
     else if fully_matching target states then (Skip, EverythingMatches)
     else if \<exists>s \<in> set states. cur_runtime_status s \<notin> {lit ''healthy'', lit ''stopped''}
       then (Deploy, RuntimeNotTrusted)
     else if \<forall>s \<in> set states. cur_runtime_status s = lit ''stopped'' then (Restore, RestoreStopped)
     else (case tgt_version_code target of
         None \<Rightarrow> (Deploy, FingerprintDiffers)
       | Some code \<Rightarrow>
           if \<forall>c \<in> set (current_codes states). c < code then (Upgrade, HigherVersion)
           else if \<forall>c \<in> set (current_codes states). c > code then (Downgrade, LowerVersion)
           else (Deploy, FingerprintDiffers)))"

section \<open>Building a plan\<close>

type_synonym state_index = "int \<times> int \<rightharpoonup> unit_state"

text \<open>The loop that fills \<open>current_by_unit_node\<close> and refuses a repeated key.\<close>

fun index_states :: "unit_state list \<Rightarrow> state_index \<Rightarrow> plan_error + state_index" where
  "index_states [] m = Inr m"
| "index_states (s # ss) m =
     (if m (cur_unit_id s, cur_node_id s) \<noteq> None then Inl DuplicateState
      else index_states ss (m((cur_unit_id s, cur_node_id s) \<mapsto> s)))"

definition unit_states :: "state_index \<Rightarrow> int list \<Rightarrow> int \<Rightarrow> unit_state list" where
  "unit_states m nodes unit = List.map_filter (\<lambda>node. m (unit, node)) nodes"

definition make_item ::
  "deployment_mode \<Rightarrow> int list \<Rightarrow> state_index \<Rightarrow> target_unit \<Rightarrow> plan_item"
where
  "make_item mode nodes m target =
    (let states = unit_states m nodes (tgt_unit_id target);
         (action, reason) = classify_action mode target nodes states
     in \<lparr> item_unit_id = tgt_unit_id target, item_unit_key = tgt_unit_key target,
          item_release_id = tgt_release_id target, item_version = tgt_version target,
          item_stage_no = tgt_stage_no target, item_unit_order = tgt_unit_order target,
          item_removal_order = tgt_removal_order target, item_action = action,
          item_reason = reason, item_target_fingerprint = tgt_fingerprint target,
          item_previous_fingerprint = common_previous_fingerprint states \<rparr>)"

text \<open>The loop over \<open>input.target_units\<close>; \<open>seen\<close> holds the keys of \<open>target_ids\<close>.\<close>

fun make_items ::
  "deployment_mode \<Rightarrow> int list \<Rightarrow> state_index \<Rightarrow> int list \<Rightarrow> target_unit list \<Rightarrow>
    plan_error + plan_item list"
where
  "make_items mode nodes m seen [] = Inr []"
| "make_items mode nodes m seen (t # ts) =
    (if tgt_unit_id t \<in> set seen then Inl DuplicateUnit
     else if tgt_desired_status t \<notin> {lit ''active'', lit ''disabled''} then Inl BadDesiredStatus
     else if tgt_desired_status t = lit ''active'' \<and> tgt_release_id t = None then Inl MissingRelease
     else (case make_items mode nodes m (tgt_unit_id t # seen) ts of
         Inl e \<Rightarrow> Inl e
       | Inr items \<Rightarrow> Inr (make_item mode nodes m t # items)))"

text \<open>
  Negation of an \<open>i64\<close> (wrapping at the least value), and the sort key of a plan item:
  \<open>Reverse(x)\<close> orders like \<open>- x\<close>.
\<close>

definition neg64 :: "int \<Rightarrow> int" where
  "neg64 i = (if i = - (2 ^ 63) then i else - i)"

definition item_key :: "plan_item \<Rightarrow> int \<times> int \<times> int \<times> int" where
  "item_key item = (case item_action item of
      Stop \<Rightarrow> (0, - item_stage_no item, - item_removal_order item, item_unit_id item)
    | _ \<Rightarrow> (1, - neg64 (item_stage_no item), - neg64 (item_unit_order item), item_unit_id item))"

definition sort_dedup :: "int list \<Rightarrow> int list" where
  "sort_dedup ids = remdups_adj (sort ids)"

definition build_deployment_plan ::
  "plan_env \<Rightarrow> plan_input \<Rightarrow> plan_error + deployment_plan"
where
  "build_deployment_plan env inp =
    (if in_nodes inp = [] then Inl NoTargetNodes
     else let nodes = sort_dedup (in_nodes inp) in
     if in_units inp = [] then Inl NoUnits
     else case index_states (in_states inp) Map.empty of Inl e \<Rightarrow> Inl e | Inr m \<Rightarrow>
     (case make_items (in_mode inp) nodes m [] (in_units inp) of Inl e \<Rightarrow> Inl e | Inr items \<Rightarrow>
       let items = sort_key item_key items;
           document = \<lparr> doc_app_id = in_app_id inp, doc_environment_id = in_environment_id inp,
             doc_release_id = in_release_id inp, doc_config_id = in_config_id inp,
             doc_mode = in_mode inp, doc_nodes = nodes, doc_items = items \<rparr>
       in case document_json env document of
            None \<Rightarrow> Inl SerializeFailed
          | Some bytes \<Rightarrow> Inr
              \<lparr> plan_app_id = in_app_id inp, plan_environment_id = in_environment_id inp,
                plan_release_id = in_release_id inp, plan_config_id = in_config_id inp,
                plan_mode = in_mode inp, plan_nodes = nodes, plan_items = items,
                plan_hash = sha256_hex env bytes \<rparr>))"

section \<open>Execution waves\<close>

text \<open>
  The back of the queue is the end of the list. An item joins the last wave when that
  wave's first item is of the same kind (stop or not) and of the same stage.
\<close>

definition same_wave :: "plan_item \<Rightarrow> plan_item \<Rightarrow> bool" where
  "same_wave first item \<longleftrightarrow>
     ((item_action first = Stop) = (item_action item = Stop)) \<and>
     item_stage_no first = item_stage_no item"

definition push_wave :: "plan_item list list \<Rightarrow> plan_item \<Rightarrow> plan_item list list" where
  "push_wave waves item =
    (if waves = [] then [[item]]
     else case last waves of
         first # rest \<Rightarrow>
           if same_wave first item then butlast waves @ [last waves @ [item]]
           else waves @ [[item]]
       | [] \<Rightarrow> waves @ [[item]])"

definition execution_waves :: "plan_item list \<Rightarrow> plan_item list list" where
  "execution_waves items =
     foldl push_wave [] (filter (\<lambda>item. item_action item \<noteq> Skip) items)"

section \<open>Facts about the pieces\<close>

lemma set_sort_dedup [simp]: "set (sort_dedup xs) = set xs"
  and distinct_sort_dedup [simp]: "distinct (sort_dedup xs)"
  and sorted_sort_dedup [simp]: "sorted (sort_dedup xs)"
  by (simp_all add: sort_dedup_def distinct_remdups_adj_sorted)

lemma sort_dedup_cong: "set xs = set ys \<Longrightarrow> sort_dedup xs = sort_dedup ys"
  by (rule sorted_distinct_set_unique) simp_all

lemma sort_dedup_eq_Nil [simp]: "sort_dedup xs = [] \<longleftrightarrow> xs = []"
  by (metis set_empty set_sort_dedup)

definition state_key :: "unit_state \<Rightarrow> int \<times> int" where
  "state_key s = (cur_unit_id s, cur_node_id s)"

definition state_map :: "unit_state list \<Rightarrow> state_index" where
  "state_map ss = map_of (map (\<lambda>s. (state_key s, s)) ss)"

lemma index_states_eq:
  "index_states ss m =
    (if distinct (map state_key ss) \<and> (\<forall>s \<in> set ss. m (state_key s) = None)
     then Inr (m ++ state_map ss) else Inl DuplicateState)"
proof (induction ss arbitrary: m)
  case (Cons s ss)
  have "m(state_key s \<mapsto> s) ++ state_map ss = m ++ state_map (s # ss)"
    if "state_key s \<notin> state_key ` set ss"
    using that by (simp add: state_map_def map_add_upd_left dom_map_of_conv_image_fst image_image)
  moreover have "index_states (s # ss) m = (if m (state_key s) \<noteq> None then Inl DuplicateState
      else index_states ss (m(state_key s \<mapsto> s)))" for m
    by (simp add: state_key_def)
  ultimately show ?case using Cons by (auto simp del: index_states.simps) (metis image_eqI)
qed (simp add: state_map_def)

lemma state_map_Some:
  assumes "distinct (map state_key ss)"
  shows "state_map ss k = Some s \<longleftrightarrow> s \<in> set ss \<and> state_key s = k"
  using assms by (auto simp: state_map_def map_of_eq_Some_iff distinct_map o_def)

lemma state_map_perm:
  assumes "mset ss = mset ss'"
  shows "index_states ss Map.empty = index_states ss' Map.empty"
proof -
  have d: "distinct (map state_key ss) = distinct (map state_key ss')"
    by (metis assms mset_eq_imp_distinct_iff mset_map)
  have "state_map ss = state_map ss'" if "distinct (map state_key ss)"
    unfolding fun_eq_iff
    by (metis (no_types) that d state_map_Some mset_eq_setD [OF assms] not_None_eq)
  then show ?thesis using d by (auto simp: index_states_eq)
qed

definition valid_target :: "target_unit \<Rightarrow> bool" where
  "valid_target t \<longleftrightarrow> tgt_desired_status t \<in> {lit ''active'', lit ''disabled''} \<and>
     (tgt_desired_status t = lit ''active'' \<longrightarrow> tgt_release_id t \<noteq> None)"

lemma make_items_Cons_Inr:
  "make_items mode nodes m seen (t # ts) = Inr items \<longleftrightarrow>
     tgt_unit_id t \<notin> set seen \<and> valid_target t \<and>
     (\<exists>rest. make_items mode nodes m (tgt_unit_id t # seen) ts = Inr rest \<and>
        items = make_item mode nodes m t # rest)"
  by (auto simp: valid_target_def split: sum.splits)

lemma make_items_Inr:
  "make_items mode nodes m seen ts = Inr items \<longleftrightarrow>
     distinct (map tgt_unit_id ts) \<and> set seen \<inter> tgt_unit_id ` set ts = {} \<and>
     (\<forall>t \<in> set ts. valid_target t) \<and> items = map (make_item mode nodes m) ts"
proof (induction ts arbitrary: seen items)
  case (Cons t ts)
  show ?case unfolding make_items_Cons_Inr Cons.IH by auto
qed auto

lemma make_item_simps [simp]:
  "item_unit_id (make_item mode nodes m t) = tgt_unit_id t"
  "item_unit_key (make_item mode nodes m t) = tgt_unit_key t"
  "item_release_id (make_item mode nodes m t) = tgt_release_id t"
  "item_version (make_item mode nodes m t) = tgt_version t"
  "item_stage_no (make_item mode nodes m t) = tgt_stage_no t"
  "item_unit_order (make_item mode nodes m t) = tgt_unit_order t"
  "item_removal_order (make_item mode nodes m t) = tgt_removal_order t"
  "item_target_fingerprint (make_item mode nodes m t) = tgt_fingerprint t"
  "item_action (make_item mode nodes m t) =
     fst (classify_action mode t nodes (unit_states m nodes (tgt_unit_id t)))"
  by (simp_all add: make_item_def Let_def split: prod.split)

lemma item_key_unit: "snd (snd (snd (item_key item))) = item_unit_id item"
  by (cases "item_action item") (simp_all add: item_key_def)

lemma item_key_inj: "distinct (map item_unit_id items) \<Longrightarrow> inj_on item_key (set items)"
  by (metis distinct_map inj_on_def item_key_unit)

text \<open>What an accepted input looks like, and the plan it gives.\<close>

definition plan_document_of :: "plan_input \<Rightarrow> plan_item list \<Rightarrow> plan_document" where
  "plan_document_of inp items =
     \<lparr> doc_app_id = in_app_id inp, doc_environment_id = in_environment_id inp,
       doc_release_id = in_release_id inp, doc_config_id = in_config_id inp,
       doc_mode = in_mode inp, doc_nodes = sort_dedup (in_nodes inp), doc_items = items \<rparr>"

definition planned_items :: "plan_input \<Rightarrow> plan_item list" where
  "planned_items inp = sort_key item_key
     (map (make_item (in_mode inp) (sort_dedup (in_nodes inp)) (state_map (in_states inp)))
       (in_units inp))"

definition plan_of :: "plan_env \<Rightarrow> plan_input \<Rightarrow> plan_item list \<Rightarrow> nat list \<Rightarrow> deployment_plan" where
  "plan_of env inp items bytes =
     \<lparr> plan_app_id = in_app_id inp, plan_environment_id = in_environment_id inp,
       plan_release_id = in_release_id inp, plan_config_id = in_config_id inp,
       plan_mode = in_mode inp, plan_nodes = sort_dedup (in_nodes inp), plan_items = items,
       plan_hash = sha256_hex env bytes \<rparr>"

definition valid_input :: "plan_input \<Rightarrow> bool" where
  "valid_input inp \<longleftrightarrow> in_nodes inp \<noteq> [] \<and> in_units inp \<noteq> [] \<and>
     distinct (map state_key (in_states inp)) \<and> distinct (map tgt_unit_id (in_units inp)) \<and>
     (\<forall>t \<in> set (in_units inp). valid_target t)"

lemma build_deployment_plan_Inr:
  "build_deployment_plan env inp = Inr plan \<longleftrightarrow>
     valid_input inp \<and> (\<exists>bytes. document_json env (plan_document_of inp (planned_items inp)) = Some bytes
       \<and> plan = plan_of env inp (planned_items inp) bytes)"
proof (cases "distinct (map state_key (in_states inp))")
  case True
  then have i: "index_states (in_states inp) Map.empty = Inr (state_map (in_states inp))"
    by (simp add: index_states_eq)
  show ?thesis
  proof (cases "make_items (in_mode inp) (sort_dedup (in_nodes inp)) (state_map (in_states inp)) []
      (in_units inp)")
    case (Inl e)
    then have "\<not> (distinct (map tgt_unit_id (in_units inp)) \<and> (\<forall>t \<in> set (in_units inp). valid_target t))"
      using make_items_Inr [of "in_mode inp" "sort_dedup (in_nodes inp)" "state_map (in_states inp)"
          "[]" "in_units inp"] by force
    with i Inl show ?thesis by (simp add: build_deployment_plan_def valid_input_def Let_def)
  next
    case (Inr items)
    then have "distinct (map tgt_unit_id (in_units inp))" "\<forall>t \<in> set (in_units inp). valid_target t"
      "sort_key item_key items = planned_items inp"
      by (simp_all add: make_items_Inr planned_items_def)
    with i Inr True show ?thesis
      by (auto simp: build_deployment_plan_def valid_input_def plan_document_of_def plan_of_def
          Let_def split: option.splits)
  qed
qed (simp add: build_deployment_plan_def index_states_eq valid_input_def Let_def)

lemma set_planned_items:
  "set (planned_items inp) =
     make_item (in_mode inp) (sort_dedup (in_nodes inp)) (state_map (in_states inp)) ` set (in_units inp)"
  by (simp add: planned_items_def)

lemma mset_planned_ids:
  "mset (map item_unit_id (planned_items inp)) = mset (map tgt_unit_id (in_units inp))"
  by (simp add: planned_items_def image_mset.compositionality o_def)

lemma distinct_planned_items:
  "distinct (map tgt_unit_id (in_units inp)) \<Longrightarrow> distinct (map item_unit_id (planned_items inp))"
  using mset_eq_imp_distinct_iff [OF mset_planned_ids [of inp]] by simp

section \<open>Order of a plan\<close>

text \<open>
  What the order of a plan promises: every stop comes before everything else, in
  descending stage and removal order; the rest follows in ascending stage and unit
  order; the unit id breaks ties.
\<close>

definition is_stop :: "plan_item \<Rightarrow> bool" where
  "is_stop item \<longleftrightarrow> item_action item = Stop"

definition runs_before :: "plan_item \<Rightarrow> plan_item \<Rightarrow> bool" where
  "runs_before a b \<longleftrightarrow>
     (is_stop a \<and> \<not> is_stop b) \<or>
     (is_stop a \<and> is_stop b \<and>
        (item_stage_no b < item_stage_no a \<or> item_stage_no a = item_stage_no b \<and>
          (item_removal_order b < item_removal_order a \<or>
           item_removal_order a = item_removal_order b \<and> item_unit_id a < item_unit_id b))) \<or>
     (\<not> is_stop a \<and> \<not> is_stop b \<and>
        (item_stage_no a < item_stage_no b \<or> item_stage_no a = item_stage_no b \<and>
          (item_unit_order a < item_unit_order b \<or>
           item_unit_order a = item_unit_order b \<and> item_unit_id a < item_unit_id b)))"

definition in_i64_order :: "plan_item \<Rightarrow> bool" where
  "in_i64_order item \<longleftrightarrow> - (2 ^ 63) < item_stage_no item \<and> - (2 ^ 63) < item_unit_order item"

lemma item_key_stop: "is_stop a \<Longrightarrow>
    item_key a = (0, - item_stage_no a, - item_removal_order a, item_unit_id a)"
  by (simp add: item_key_def is_stop_def)

lemma item_key_run: "\<not> is_stop a \<Longrightarrow> in_i64_order a \<Longrightarrow>
    item_key a = (1, item_stage_no a, item_unit_order a, item_unit_id a)"
  by (cases "item_action a") (auto simp: item_key_def is_stop_def neg64_def in_i64_order_def)

lemma item_key_runs_before:
  "in_i64_order a \<Longrightarrow> in_i64_order b \<Longrightarrow> item_key a < item_key b \<longleftrightarrow> runs_before a b"
  by (cases "is_stop a"; cases "is_stop b")
    (auto simp: item_key_stop item_key_run runs_before_def less_prod_def)

lemma sorted_wrt_strict_key:
  fixes k :: "'a \<Rightarrow> 'b::linorder"
  assumes "sorted (map k xs)" and "distinct (map k xs)"
  shows "sorted_wrt (\<lambda>a b. k a < k b) xs"
  using assms by (induction xs) (auto simp: order_le_less rev_image_eqI)

lemma planned_items_sorted:
  assumes "distinct (map tgt_unit_id (in_units inp))" "\<forall>i \<in> set (planned_items inp). in_i64_order i"
  shows "sorted_wrt runs_before (planned_items inp)"
proof -
  have "sorted (map item_key (planned_items inp))" by (simp add: planned_items_def)
  moreover have "distinct (map item_key (planned_items inp))"
    using distinct_planned_items [OF assms(1)] item_key_inj [of "planned_items inp"]
    by (metis distinct_map)
  ultimately have "sorted_wrt (\<lambda>a b. item_key a < item_key b) (planned_items inp)"
    by (rule sorted_wrt_strict_key)
  then show ?thesis
    by (rule sorted_wrt_mono_rel [rotated]) (use assms(2) item_key_runs_before in blast)
qed

section \<open>Waves\<close>

definition wave_key :: "plan_item \<Rightarrow> bool \<times> int" where
  "wave_key item = (is_stop item, item_stage_no item)"

lemma same_wave_key: "same_wave a b \<longleftrightarrow> wave_key a = wave_key b"
  by (auto simp: same_wave_def wave_key_def is_stop_def)

definition wave_ok :: "plan_item list \<Rightarrow> bool" where
  "wave_ok wave \<longleftrightarrow> wave \<noteq> [] \<and> (\<forall>a \<in> set wave. \<forall>b \<in> set wave. wave_key a = wave_key b)"

lemma push_wave_snoc:
  "wave_ok w \<Longrightarrow> push_wave (ws @ [w]) item =
     (if wave_key (hd w) = wave_key item then ws @ [w @ [item]] else ws @ [w, [item]])"
  by (cases w) (simp_all add: push_wave_def same_wave_key wave_ok_def)

lemma push_waves_spec:
  "(\<forall>w \<in> set (foldl push_wave [] items). wave_ok w) \<and> concat (foldl push_wave [] items) = items \<and>
     successively (\<lambda>v w. wave_key (hd v) \<noteq> wave_key (hd w)) (foldl push_wave [] items)"
proof (induction items rule: rev_induct)
  case (snoc item items)
  let ?ws = "foldl push_wave [] items"
  show ?case
  proof (cases ?ws rule: rev_cases)
    case Nil
    then have "items = []" using snoc.IH by (metis concat.simps(1))
    then show ?thesis by (simp add: push_wave_def wave_ok_def)
  next
    case (snoc vs w)
    with snoc.IH have ok: "wave_ok w" "\<forall>v \<in> set vs. wave_ok v" "concat vs @ w = items"
      and succ: "successively (\<lambda>v w. wave_key (hd v) \<noteq> wave_key (hd w)) (vs @ [w])" by auto
    have wk: "a \<in> set w \<Longrightarrow> wave_key a = wave_key (hd w)" for a
      using ok(1) by (metis hd_in_set wave_ok_def)
    have hd: "hd (w @ [item]) = hd w" using ok(1) by (simp add: wave_ok_def)
    show ?thesis
    proof (cases "wave_key (hd w) = wave_key item")
      case True
      then have eq: "foldl push_wave [] (items @ [item]) = vs @ [w @ [item]]"
        by (simp add: \<open>?ws = vs @ [w]\<close> push_wave_snoc ok(1))
      have "wave_ok (w @ [item])" using True wk by (auto simp: wave_ok_def)
      then show ?thesis unfolding eq using ok succ hd by (auto simp: successively_append_iff)
    next
      case False
      then have eq: "foldl push_wave [] (items @ [item]) = vs @ [w, [item]]"
        by (simp add: \<open>?ws = vs @ [w]\<close> push_wave_snoc ok(1))
      have "wave_ok [item]" by (simp add: wave_ok_def)
      then show ?thesis unfolding eq using False ok succ by (auto simp: successively_append_iff)
    qed
  qed
qed simp

lemma execution_waves_ok: "w \<in> set (execution_waves items) \<Longrightarrow> wave_ok w"
  using push_waves_spec by (auto simp: execution_waves_def)

lemma concat_execution_waves:
  "concat (execution_waves items) = filter (\<lambda>i. item_action i \<noteq> Skip) items"
  using push_waves_spec by (simp add: execution_waves_def)

lemma execution_waves_successively:
  "successively (\<lambda>v w. wave_key (hd v) \<noteq> wave_key (hd w)) (execution_waves items)"
  using push_waves_spec by (simp add: execution_waves_def)

text \<open>The order between waves: stops first, then stages descending or ascending.\<close>

definition wave_before :: "plan_item \<Rightarrow> plan_item \<Rightarrow> bool" where
  "wave_before a b \<longleftrightarrow> (is_stop a \<and> \<not> is_stop b) \<or>
     (is_stop a \<and> is_stop b \<and> item_stage_no b < item_stage_no a) \<or>
     (\<not> is_stop a \<and> \<not> is_stop b \<and> item_stage_no a < item_stage_no b)"

lemma runs_before_wave: "runs_before a b \<Longrightarrow> wave_key a \<noteq> wave_key b \<Longrightarrow> wave_before a b"
  by (auto simp: runs_before_def wave_before_def wave_key_def)

lemma wave_before_trans: "wave_before a b \<Longrightarrow> wave_before b c \<Longrightarrow> wave_before a c"
  by (auto simp: wave_before_def)

lemma wave_before_cong:
  "wave_key a = wave_key a' \<Longrightarrow> wave_key b = wave_key b' \<Longrightarrow> wave_before a b = wave_before a' b'"
  by (simp add: wave_before_def wave_key_def)

lemma ordered_waves:
  assumes "\<forall>w \<in> set ws. wave_ok w" and "sorted_wrt runs_before (concat ws)"
    and "successively (\<lambda>v w. wave_key (hd v) \<noteq> wave_key (hd w)) ws"
  shows "sorted_wrt (\<lambda>v w. \<forall>a \<in> set v. \<forall>b \<in> set w. wave_before a b) ws"
proof -
  let ?R = "\<lambda>v w. v \<noteq> [] \<and> w \<noteq> [] \<and> (\<forall>a \<in> set v. \<forall>b \<in> set w. wave_before a b)"
  have key: "w \<in> set ws \<Longrightarrow> a \<in> set w \<Longrightarrow> wave_key a = wave_key (hd w)" for w a
    using assms(1) by (metis hd_in_set wave_ok_def)
  have "successively ?R ws" using assms key
  proof (induction ws rule: induct_list012)
    case (3 v w ws)
    have ne: "v \<noteq> []" "w \<noteq> []" using 3(3) by (auto simp: wave_ok_def)
    then have "runs_before (hd v) (hd w)" using 3(4) by (simp add: sorted_wrt_append)
    then have "wave_before (hd v) (hd w)" using 3(5) by (simp add: runs_before_wave)
    then have "?R v w" using ne 3(6) [of v] 3(6) [of w]
      by (metis list.set_intros(1,2) wave_before_cong)
    moreover have "successively ?R (w # ws)"
      using 3 by (intro "3.IH"(2)) (auto simp: sorted_wrt_append)
    ultimately show ?case by simp
  qed auto
  moreover have "transp ?R"
    by (rule transpI) (metis ex_in_conv set_empty wave_before_trans)
  ultimately have "sorted_wrt ?R ws" by (simp add: successively_conv_sorted_wrt)
  then show ?thesis by (rule sorted_wrt_mono_rel [rotated]) simp
qed

section \<open>A concrete environment and input\<close>

definition sample_env :: plan_env where
  "sample_env = \<lparr> sha256_hex = (\<lambda>bytes. bytes),
     document_json = (\<lambda>d. Some (map nat (doc_nodes d))),
     plan_to_json = (\<lambda>p. Some (plan_hash p)), plan_of_json = (\<lambda>_. None) \<rparr>"

definition sample_target :: "int \<Rightarrow> int \<Rightarrow> ustr \<Rightarrow> target_unit" where
  "sample_target unit stage status = \<lparr> tgt_unit_id = unit, tgt_unit_key = lit ''unit'',
     tgt_release_id = Some 7, tgt_version = Some (lit ''1.2.0''), tgt_version_code = Some 102,
     tgt_desired_status = status, tgt_stage_no = stage, tgt_unit_order = 1,
     tgt_removal_order = 1, tgt_fingerprint = lit ''f1'' \<rparr>"

definition sample_state :: "int \<Rightarrow> int \<Rightarrow> int \<Rightarrow> unit_state" where
  "sample_state unit node code = \<lparr> cur_unit_id = unit, cur_node_id = node,
     cur_runtime_status = lit ''healthy'', cur_release_id = Some 7,
     cur_version_code = Some code, cur_fingerprint = lit ''f1'',
     cur_version_label = (if code = 102 then lit ''1.2.0'' else lit ''1.1.0'') \<rparr>"

text \<open>Unit 1 is up to date, unit 2 is old, unit 3 is new and unit 4 is to be removed.\<close>

definition sample_input :: plan_input where
  "sample_input = \<lparr> in_app_id = 1, in_environment_id = 2, in_release_id = 3, in_config_id = 4,
     in_mode = Normal, in_nodes = [6, 5],
     in_units = [sample_target 3 2 (lit ''active''), sample_target 2 1 (lit ''active''),
       sample_target 1 1 (lit ''active''), sample_target 4 1 (lit ''disabled'')],
     in_states = [sample_state 1 5 102, sample_state 1 6 102, sample_state 2 5 101,
       sample_state 2 6 101, sample_state 4 5 102] \<rparr>"

lemma sample_plan:
  "build_deployment_plan sample_env sample_input =
     Inr (plan_of sample_env sample_input (planned_items sample_input) [5, 6])"
  "map (\<lambda>i. (item_unit_id i, item_action i)) (planned_items sample_input) =
     [(4, Stop), (1, Skip), (2, Upgrade), (3, Start)]"
  by code_simp+

section \<open>Properties\<close>

text \<open>
  C1. A plan lists the units in execution order: all stops first, by descending stage and
  removal order, then all other units by ascending stage and unit order, the unit id
  deciding ties (stage and order numbers being anything but the least \<open>i64\<close>).
\<close>

theorem plan_in_execution_order:
  assumes "build_deployment_plan env inp = Inr plan"
    and "\<forall>t \<in> set (in_units inp). - (2 ^ 63) < tgt_stage_no t \<and> - (2 ^ 63) < tgt_unit_order t"
  shows "sorted_wrt runs_before (plan_items plan)"
  using assms planned_items_sorted [of inp]
  by (auto simp: build_deployment_plan_Inr plan_of_def valid_input_def set_planned_items in_i64_order_def)

theorem plan_in_execution_order_witness:
  "sorted_wrt runs_before (planned_items sample_input)"
  using plan_in_execution_order [OF sample_plan(1)]
  by (simp add: plan_of_def sample_input_def sample_target_def)

text \<open>
  A plan neither loses nor invents units: its items carry, as a multiset, exactly the unit
  ids, releases, stages, orders and fingerprints of the target units, and no unit occurs
  twice.
\<close>

theorem plan_covers_targets:
  assumes "build_deployment_plan env inp = Inr plan"
  shows "mset (map (\<lambda>i. (item_unit_id i, item_release_id i, item_version i, item_stage_no i,
            item_unit_order i, item_removal_order i, item_target_fingerprint i)) (plan_items plan))
       = mset (map (\<lambda>t. (tgt_unit_id t, tgt_release_id t, tgt_version t, tgt_stage_no t,
            tgt_unit_order t, tgt_removal_order t, tgt_fingerprint t)) (in_units inp))
     \<and> distinct (map item_unit_id (plan_items plan))"
proof -
  from assms have "plan_items plan = planned_items inp" "distinct (map tgt_unit_id (in_units inp))"
    by (auto simp: build_deployment_plan_Inr plan_of_def valid_input_def)
  then show ?thesis
    by (simp add: distinct_planned_items)
      (simp add: planned_items_def image_mset.compositionality o_def)
qed

theorem plan_covers_targets_witness:
  "distinct (map item_unit_id (planned_items sample_input))"
  using plan_covers_targets [OF sample_plan(1)] by (simp add: plan_of_def)

text \<open>
  C15. An enabled unit is skipped exactly when the deployment is not forced and every target node
  is known to run it healthy with the target release, fingerprint and version label.
\<close>

theorem plan_skips_exactly_up_to_date_units:
  assumes "build_deployment_plan env inp = Inr plan"
    and "t \<in> set (in_units inp)" and "tgt_desired_status t = lit ''active''"
    and "i \<in> set (plan_items plan)" and "item_unit_id i = tgt_unit_id t"
  shows "item_action i = Skip \<longleftrightarrow> in_mode inp = Normal \<and>
    (\<forall>node \<in> set (in_nodes inp). \<exists>s \<in> set (in_states inp).
       cur_unit_id s = tgt_unit_id t \<and> cur_node_id s = node \<and>
       cur_runtime_status s = lit ''healthy'' \<and> cur_release_id s = tgt_release_id t \<and>
       cur_fingerprint s = tgt_fingerprint t \<and> Some (cur_version_label s) = tgt_version t)"
proof -
  let ?nodes = "sort_dedup (in_nodes inp)"
  let ?st = "unit_states (state_map (in_states inp)) ?nodes (tgt_unit_id t)"
  from assms(1) have v: "valid_input inp" "plan_items plan = planned_items inp"
    by (auto simp: build_deployment_plan_Inr plan_of_def)
  obtain t' where t': "t' \<in> set (in_units inp)"
    "i = make_item (in_mode inp) ?nodes (state_map (in_states inp)) t'"
    using assms(4) v(2) by (auto simp: set_planned_items)
  with assms(2,5) v(1) have [simp]: "t' = t"
    by (auto simp: valid_input_def dest: distinct_map_inj)
  have act: "item_action i = fst (classify_action (in_mode inp) t ?nodes ?st)" using t'(2) by simp
  have skip: "item_action i = Skip \<longleftrightarrow>
      in_mode inp = Normal \<and> length ?st = length ?nodes \<and> fully_matching t ?st"
    unfolding act using assms(3)
    by (cases "in_mode inp") (auto simp: classify_action_def split: option.split)
  have lk: "state_map (in_states inp) (u, n) = Some s \<longleftrightarrow>
      s \<in> set (in_states inp) \<and> cur_unit_id s = u \<and> cur_node_id s = n" for u n s
    using v(1) state_map_Some by (auto simp: valid_input_def state_key_def)
  have len: "length ?st = length ?nodes \<longleftrightarrow>
      (\<forall>n \<in> set (in_nodes inp). state_map (in_states inp) (tgt_unit_id t, n) \<noteq> None)"
    using length_map_filter_full [of "\<lambda>n. state_map (in_states inp) (tgt_unit_id t, n)" ?nodes]
    by (simp add: unit_states_def)
  have set: "set ?st = {s. \<exists>n \<in> set (in_nodes inp). state_map (in_states inp) (tgt_unit_id t, n) = Some s}"
    by (auto simp: unit_states_def set_map_filter)
  let ?g = "\<lambda>n. state_map (in_states inp) (tgt_unit_id t, n)"
  let ?ok = "\<lambda>s. cur_runtime_status s = lit ''healthy'' \<and> cur_release_id s = tgt_release_id t \<and>
      cur_fingerprint s = tgt_fingerprint t \<and> Some (cur_version_label s) = tgt_version t"
  have "length ?st = length ?nodes \<and> fully_matching t ?st \<longleftrightarrow>
      (\<forall>n \<in> set (in_nodes inp). \<exists>s. ?g n = Some s \<and> ?ok s)"
    unfolding len fully_matching_def set by (rule defined_and_holds)
  then show ?thesis unfolding skip lk by blast
qed

theorem plan_skips_exactly_up_to_date_units_witness:
  "\<exists>i \<in> set (planned_items sample_input). item_unit_id i = 1 \<and> item_action i = Skip"
proof -
  let ?t = "sample_target 1 1 (lit ''active'')"
  have m: "?t \<in> set (in_units sample_input)" by (simp add: sample_input_def)
  have "1 \<in> item_unit_id ` set (planned_items sample_input)"
    by (simp add: set_planned_items sample_input_def sample_target_def)
  then obtain i where i: "i \<in> set (planned_items sample_input)" "item_unit_id i = 1" by force
  have "item_action i = Skip \<longleftrightarrow> in_mode sample_input = Normal \<and>
    (\<forall>node \<in> set (in_nodes sample_input). \<exists>s \<in> set (in_states sample_input).
       cur_unit_id s = 1 \<and> cur_node_id s = node \<and>
       cur_runtime_status s = lit ''healthy'' \<and> cur_release_id s = Some 7 \<and>
       cur_fingerprint s = lit ''f1'' \<and> Some (cur_version_label s) = Some (lit ''1.2.0''))"
    using plan_skips_exactly_up_to_date_units [OF sample_plan(1) m, of i] i
    by (simp add: plan_of_def sample_target_def)
  then show ?thesis using i by (auto simp: sample_input_def sample_state_def)
qed

text \<open>
  C16. The plan and its hash depend on what is to be deployed and what runs, not on the order in
  which the database returned it: permuting the target units and the runtime states, or
  permuting and repeating target nodes, gives the same plan. A preview therefore keeps the
  hash that the confirmation compares until something really changes.
\<close>

theorem plan_independent_of_input_order:
  assumes "build_deployment_plan env inp = Inr plan"
    and "mset units = mset (in_units inp)" and "mset states = mset (in_states inp)"
    and "set nodes = set (in_nodes inp)"
  shows "build_deployment_plan env
    (inp\<lparr>in_nodes := nodes, in_units := units, in_states := states\<rparr>) = Inr plan"
proof -
  let ?inp = "inp\<lparr>in_nodes := nodes, in_units := units, in_states := states\<rparr>"
  from assms(1) have v: "valid_input inp" by (simp add: build_deployment_plan_Inr)
  then have d: "distinct (map tgt_unit_id (in_units inp))" "distinct (map state_key (in_states inp))"
    by (simp_all add: valid_input_def)
  have su: "set units = set (in_units inp)" using assms(2) by (rule mset_eq_setD)
  have d': "distinct (map tgt_unit_id units)" "distinct (map state_key states)"
    using assms(2,3) d by (metis mset_eq_imp_distinct_iff mset_map)+
  have n: "sort_dedup nodes = sort_dedup (in_nodes inp)" using assms(4) by (rule sort_dedup_cong)
  have m: "state_map states = state_map (in_states inp)"
    using state_map_perm [OF assms(3)] d d' by (simp add: index_states_eq)
  let ?mk = "make_item (in_mode inp) (sort_dedup (in_nodes inp)) (state_map (in_states inp))"
  have "inj_on item_key (set (map ?mk units))"
    by (rule item_key_inj) (simp add: d' o_def)
  moreover have "mset (map ?mk units) = mset (map ?mk (in_units inp))" using assms(2) by simp
  ultimately have "sort_key item_key (map ?mk units) = sort_key item_key (map ?mk (in_units inp))"
    by (rule sort_key_perm [rotated])
  then have p: "planned_items ?inp = planned_items inp" by (simp add: planned_items_def n m)
  have "valid_input ?inp"
    using v d' su assms(2,4) by (auto simp: valid_input_def)
  moreover have "plan_document_of ?inp items = plan_document_of inp items"
    and "plan_of env ?inp items b = plan_of env inp items b" for items b
    by (simp_all add: plan_document_of_def plan_of_def n)
  ultimately show ?thesis using assms(1) by (simp add: build_deployment_plan_Inr p)
qed

theorem plan_independent_of_input_order_witness:
  "build_deployment_plan sample_env (sample_input\<lparr>in_nodes := [5, 6, 5],
      in_units := rev (in_units sample_input), in_states := rev (in_states sample_input)\<rparr>)
    = build_deployment_plan sample_env sample_input"
  using plan_independent_of_input_order [OF sample_plan(1), of "rev (in_units sample_input)"
      "rev (in_states sample_input)" "[5, 6, 5]"] sample_plan(1)
  by (auto simp: sample_input_def)

text \<open>
  \<open>execution_waves\<close> schedules every non-skipped item once and in plan order; a wave holds
  items of one kind (stop or not) and one stage; and the waves of a plan respect the
  dependencies between stages: all stopping waves come first, in strictly descending stage
  order, then the others in strictly ascending stage order.
\<close>

theorem waves_respect_stages:
  assumes "build_deployment_plan env inp = Inr plan"
    and "\<forall>t \<in> set (in_units inp). - (2 ^ 63) < tgt_stage_no t \<and> - (2 ^ 63) < tgt_unit_order t"
  shows "concat (execution_waves (plan_items plan)) =
      filter (\<lambda>i. item_action i \<noteq> Skip) (plan_items plan)
    \<and> (\<forall>w \<in> set (execution_waves (plan_items plan)). w \<noteq> [] \<and>
        (\<forall>a \<in> set w. \<forall>b \<in> set w. (item_action a = Stop) = (item_action b = Stop) \<and>
          item_stage_no a = item_stage_no b))
    \<and> sorted_wrt (\<lambda>v w. \<forall>a \<in> set v. \<forall>b \<in> set w. wave_before a b)
        (execution_waves (plan_items plan))"
proof -
  from assms have "sorted_wrt runs_before (plan_items plan)"
    using planned_items_sorted [of inp]
    by (auto simp: build_deployment_plan_Inr plan_of_def valid_input_def set_planned_items
        in_i64_order_def)
  then have "sorted_wrt runs_before (concat (execution_waves (plan_items plan)))"
    by (simp add: concat_execution_waves sorted_wrt_filter)
  with execution_waves_ok execution_waves_successively
  have "sorted_wrt (\<lambda>v w. \<forall>a \<in> set v. \<forall>b \<in> set w. wave_before a b) (execution_waves (plan_items plan))"
    by (blast intro: ordered_waves)
  moreover have "w \<noteq> [] \<and> (\<forall>a \<in> set w. \<forall>b \<in> set w. (item_action a = Stop) = (item_action b = Stop) \<and>
      item_stage_no a = item_stage_no b)" if "w \<in> set (execution_waves (plan_items plan))" for w
    using execution_waves_ok [OF that] unfolding wave_ok_def wave_key_def is_stop_def by blast
  ultimately show ?thesis unfolding concat_execution_waves by blast
qed

theorem waves_respect_stages_witness:
  "map (map item_unit_id) (execution_waves (planned_items sample_input)) = [[4], [2], [3]]
   \<and> concat (execution_waves (planned_items sample_input)) =
      filter (\<lambda>i. item_action i \<noteq> Skip) (planned_items sample_input)"
proof
  show "map (map item_unit_id) (execution_waves (planned_items sample_input)) = [[4], [2], [3]]"
    by code_simp
  show "concat (execution_waves (planned_items sample_input)) =
      filter (\<lambda>i. item_action i \<noteq> Skip) (planned_items sample_input)"
    using waves_respect_stages [OF sample_plan(1)]
    by (simp add: plan_of_def sample_input_def sample_target_def)
qed

text \<open>
  The version codes of running units may be unknown (a deleted release clears them); the
  tests \<open>all(code < target)\<close> and \<open>all(code > target)\<close> are then both vacuously true, so
  the planner reports an upgrade with the reason "the target version is higher".
\<close>

lemma upgrade_without_known_version:
  assumes "tgt_desired_status t = lit ''active''" "tgt_version_code t = Some code"
    and "states \<noteq> []" "length states = length nodes"
    and "\<forall>s \<in> set states. cur_runtime_status s = lit ''healthy'' \<and> cur_version_code s = None \<and>
      cur_release_id s = None"
    and "tgt_release_id t \<noteq> None"
  shows "classify_action Normal t nodes states = (Upgrade, HigherVersion)"
proof -
  have c: "current_codes states = []" using assms(5)
    by (induction states) (auto simp: current_codes_def List.map_filter_def)
  obtain s ss where "states = s # ss" using assms(3) by (cases states) auto
  then show ?thesis using assms c by (auto simp: classify_action_def fully_matching_def)
qed

end
