(* ===== verification/Database.thy ===== *)
theory Database
  imports Planner
begin

text \<open>
  The tables the deployment orchestrator and the task service share, as the migrations
  under \<open>api/migrations\<close> declare them: a column with a \<open>CHECK (... IN ...)\<close> is a
  datatype, the others are texts, integers or options. Columns that only repeat the time
  of the last write (\<open>created_at\<close>, \<open>updated_at\<close>) are left out. The section on
  inserts holds the two constraints that can refuse a row at run time: the unique index on
  active deployments and the trigger that refuses a second active deployment task.
\<close>

section \<open>Status columns\<close>

datatype run_status =
  RunQueued | RunRunning | RunReconciling | RunSuccess | RunPartialFailed | RunAllFailed | RunCanceled

datatype unit_result_status =
  UnitPending | UnitRunning | UnitSuccess | UnitFailed | UnitSkipped | UnitNotStarted
| UnitCanceledUnknown

datatype task_status = TaskQueued | TaskRunning | TaskSuccess | TaskFailed | TaskCanceled

text \<open>Phases and steps of a task share their states.\<close>

datatype step_status = StepPending | StepRunning | StepSuccess | StepFailed | StepSkipped

datatype env_runtime_status = EnvUnknown | EnvRunning | EnvPartialUnhealthy | EnvStopped

datatype env_deploy_status =
  LastWaiting | LastRunning | LastSuccess | LastPartialFailed | LastAllFailed | LastCanceled

datatype snapshot_status = SnapshotActive | SnapshotDeleted

datatype artifact_status = ArtifactActive | ArtifactDeleting | ArtifactDeleteFailed | ArtifactDeleted

text \<open>
  The texts the services write for people (titles, summaries, log lines), one constructor
  per message of the source with the values it shows; \<open>Told\<close> is text that comes from
  outside (an executor, an operator, a command).
\<close>

datatype memo =
    Told ustr
  | DeployTitle int int                  \<comment> \<open>release, environment\<close>
  | StageTitle int
  | UnitStepTitle deployment_action ustr
  | BlockedByPreviousFailure | CanceledNotStarted
  | CancelPending | CanceledBeforeClaim | UnitCanceledBeforeClaim
  | TaskCanceledBeforeStart ustr | LogCanceledBeforeClaim ustr
  | TaskCancelRequested ustr | LogCancelRequested ustr
  | RestartCanceledRun | RestartCanceledTask | RestartUnitNotRun
  | RestartUnitUnknown | RestartUnitSkipped | RestartReconciling | RestartTaskFailed
  | ConfirmedStopped int int int int ustr  \<comment> \<open>total, ok, failed, unknown, note\<close>
  | LogConfirmed ustr ustr
  | OrchestratorFailed ustr
  | RunCounts int int int int bool         \<comment> \<open>total, ok, failed, unknown, canceled suffix\<close>
  | StartedCommand ustr | StartedPhase ustr | StartedStep ustr
  | QueuedTaskCanceled ustr
  | NoOutput | PhaseTitle ustr

section \<open>Rows\<close>

record run_row =
  run_id :: int
  run_app :: int
  run_env :: int
  run_release :: int
  run_config :: int
  run_task :: "int option"
  run_mode :: deployment_mode
  run_plan_hash :: ustr
  run_plan_json :: ustr
  run_status :: run_status
  run_summary :: memo
  run_created_by :: ustr
  run_started :: "time option"
  run_finished :: "time option"
  run_cancel_requested :: "time option"
  run_cancel_by :: ustr
  run_reconciled :: "time option"
  run_reconciled_by :: ustr
  run_note :: ustr
  run_snapshot :: snapshot_status
  run_snapshot_deleted :: "time option"

record result_row =
  res_run :: int
  res_unit :: int
  res_release :: "int option"
  res_stage :: int
  res_action :: deployment_action
  res_status :: unit_result_status
  res_target_fp :: ustr
  res_previous_fp :: ustr
  res_failure_kind :: ustr
  res_failure_summary :: memo
  res_exit_code :: "int option"
  res_started :: "time option"
  res_finished :: "time option"

record task_row =
  task_id :: int
  task_kind :: ustr
  task_title :: memo
  task_app :: "int option"
  task_release :: "int option"
  task_env :: "int option"
  task_node :: "int option"
  task_status :: task_status
  task_phase :: ustr
  task_command :: ustr
  task_summary :: memo
  task_exit_code :: "int option"
  task_started :: "time option"
  task_finished :: "time option"
  task_created_by :: ustr

record phase_row =
  phase_id :: int
  phase_task :: int
  phase_no :: int
  phase_key :: ustr
  phase_title :: memo
  phase_status :: step_status
  phase_summary :: memo
  phase_started :: "time option"
  phase_finished :: "time option"

record step_row =
  step_id :: int
  step_task :: int
  step_phase :: "int option"
  step_node :: "int option"
  step_no :: int
  step_key :: ustr
  step_title :: memo
  step_command :: ustr
  step_status :: step_status
  step_exit_code :: "int option"
  step_started :: "time option"
  step_finished :: "time option"

record log_row =
  log_task :: int
  log_step :: "int option"
  log_stream :: ustr
  log_content :: memo

record env_row =
  env_id :: int
  env_app :: int
  env_status :: ustr
  env_max_parallel :: int
  env_current_release :: "int option"
  env_current_config :: "int option"
  env_runtime :: env_runtime_status
  env_last_deploy :: env_deploy_status

record runtime_row =
  rt_env :: int
  rt_unit :: int
  rt_node :: int
  rt_status :: ustr
  rt_release :: "int option"
  rt_fingerprint :: ustr
  rt_label :: ustr
  rt_message :: memo
  rt_last_run :: "int option"

text \<open>Rows the planner reads; the release and retention services write them.\<close>

record release_row =
  rel_id :: int
  rel_app :: int
  rel_version :: ustr
  rel_code :: int
  rel_status :: ustr
  rel_source :: ustr
  rel_checksum :: ustr
  rel_metadata :: ustr

record manifest_row =
  man_release :: int
  man_status :: ustr
  man_base :: "int option"
  man_hash :: ustr
  man_json :: "nat list"
  man_created_by :: ustr
  man_archived :: "time option"

record selection_row =
  sel_release :: int
  sel_env :: int
  sel_config :: int

record revision_row =
  rev_id :: int
  rev_app :: int
  rev_hash :: ustr

record target_row =
  target_env :: int
  target_node :: int

record release_unit_row =
  ru_release :: int
  ru_unit :: int
  ru_unit_release :: "int option"
  ru_desired :: ustr
  ru_stage :: int
  ru_order :: int
  ru_removal :: int
  ru_fingerprint :: ustr

record unit_row =
  unit_id :: int
  unit_app :: int
  unit_key :: ustr

record unit_release_row =
  ur_id :: int
  ur_unit :: int
  ur_version :: ustr
  ur_code :: int
  ur_package_name :: ustr
  ur_package_path :: ustr
  ur_extract_dir :: ustr
  ur_source :: ustr
  ur_checksum :: ustr
  ur_size :: int
  ur_published :: ustr
  ur_metadata :: ustr
  ur_provider :: ustr
  ur_bucket :: ustr
  ur_object_key :: ustr
  ur_endpoint :: ustr
  ur_object_version :: ustr
  ur_integrity :: ustr
  ur_artifact :: artifact_status
  ur_cleanup_error :: ustr

section \<open>The database\<close>

record db =
  runs :: "run_row list"
  results :: "result_row list"
  tasks :: "task_row list"
  phases :: "phase_row list"
  steps :: "step_row list"
  logs :: "log_row list"
  envs :: "env_row list"
  runtimes :: "runtime_row list"
  releases :: "release_row list"
  manifests :: "manifest_row list"
  selections :: "selection_row list"
  revisions :: "revision_row list"
  targets :: "target_row list"
  release_units :: "release_unit_row list"
  units :: "unit_row list"
  unit_releases :: "unit_release_row list"
  run_seq :: int
  task_seq :: int
  phase_seq :: int
  step_seq :: int

text \<open>The \<open>AUTOINCREMENT\<close> counters: the greatest id ever given out.\<close>

section \<open>Inserts\<close>

definition active_run :: "run_status \<Rightarrow> bool" where
  "active_run s \<longleftrightarrow> s \<in> {RunQueued, RunRunning, RunReconciling}"

definition active_task :: "task_status \<Rightarrow> bool" where
  "active_task s \<longleftrightarrow> s \<in> {TaskQueued, TaskRunning}"

text \<open>The task kinds of \<open>trg_operation_tasks_reject_active_deploy_environment\<close>.\<close>

definition guarded_kinds :: "ustr list" where
  "guarded_kinds = map lit [''compose.up'', ''compose.down'', ''compose.restart'',
     ''binary.restart'', ''binary.stop'', ''artifact.git_publish'', ''release.deploy'',
     ''release.rollback'', ''release.manual_apply'']"

definition task_insert_refused :: "db \<Rightarrow> task_row \<Rightarrow> bool" where
  "task_insert_refused d new \<longleftrightarrow>
     task_app new \<noteq> None \<and> active_task (task_status new) \<and> task_kind new \<in> set guarded_kinds \<and>
     (\<exists>t \<in> set (tasks d). active_task (task_status t) \<and> task_kind t \<in> set guarded_kinds \<and>
        ((task_env new \<noteq> None \<and> task_env t = task_env new) \<or>
         (task_env new = None \<and> task_env t = None \<and> task_app t = task_app new)))"

text \<open>Inserting a row whose id the database chooses; \<open>None\<close> when the constraint fires.\<close>

definition insert_task :: "db \<Rightarrow> task_row \<Rightarrow> (int \<times> db) option" where
  "insert_task d row =
    (if task_insert_refused d row then None
     else Some (task_seq d + 1, d\<lparr> tasks := tasks d @ [row\<lparr>task_id := task_seq d + 1\<rparr>],
                                   task_seq := task_seq d + 1 \<rparr>))"

definition insert_run :: "db \<Rightarrow> run_row \<Rightarrow> (int \<times> db) option" where
  "insert_run d row =
    (if active_run (run_status row) \<and>
        (\<exists>r \<in> set (runs d). run_env r = run_env row \<and> active_run (run_status r)) then None
     else Some (run_seq d + 1, d\<lparr> runs := runs d @ [row\<lparr>run_id := run_seq d + 1\<rparr>],
                                  run_seq := run_seq d + 1 \<rparr>))"

definition insert_phase :: "db \<Rightarrow> phase_row \<Rightarrow> int \<times> db" where
  "insert_phase d row =
     (phase_seq d + 1, d\<lparr> phases := phases d @ [row\<lparr>phase_id := phase_seq d + 1\<rparr>],
                           phase_seq := phase_seq d + 1 \<rparr>)"

definition insert_step :: "db \<Rightarrow> step_row \<Rightarrow> int \<times> db" where
  "insert_step d row =
     (step_seq d + 1, d\<lparr> steps := steps d @ [row\<lparr>step_id := step_seq d + 1\<rparr>],
                          step_seq := step_seq d + 1 \<rparr>)"

definition append_log :: "int \<Rightarrow> int option \<Rightarrow> ustr \<Rightarrow> memo \<Rightarrow> db \<Rightarrow> db" where
  "append_log task step stream content d = d\<lparr> logs := logs d @
     [\<lparr> log_task = task, log_step = step, log_stream = stream, log_content = content \<rparr>] \<rparr>"

section \<open>Updates\<close>

text \<open>\<open>UPDATE <table> SET ... WHERE ...\<close> on one table of the database.\<close>

definition update_runs :: "(run_row \<Rightarrow> bool) \<Rightarrow> (run_row \<Rightarrow> run_row) \<Rightarrow> db \<Rightarrow> db" where
  "update_runs p f d = d\<lparr>runs := modify p f (runs d)\<rparr>"

definition update_results :: "(result_row \<Rightarrow> bool) \<Rightarrow> (result_row \<Rightarrow> result_row) \<Rightarrow> db \<Rightarrow> db" where
  "update_results p f d = d\<lparr>results := modify p f (results d)\<rparr>"

definition update_tasks :: "(task_row \<Rightarrow> bool) \<Rightarrow> (task_row \<Rightarrow> task_row) \<Rightarrow> db \<Rightarrow> db" where
  "update_tasks p f d = d\<lparr>tasks := modify p f (tasks d)\<rparr>"

definition update_phases :: "(phase_row \<Rightarrow> bool) \<Rightarrow> (phase_row \<Rightarrow> phase_row) \<Rightarrow> db \<Rightarrow> db" where
  "update_phases p f d = d\<lparr>phases := modify p f (phases d)\<rparr>"

definition update_steps :: "(step_row \<Rightarrow> bool) \<Rightarrow> (step_row \<Rightarrow> step_row) \<Rightarrow> db \<Rightarrow> db" where
  "update_steps p f d = d\<lparr>steps := modify p f (steps d)\<rparr>"

definition update_envs :: "(env_row \<Rightarrow> bool) \<Rightarrow> (env_row \<Rightarrow> env_row) \<Rightarrow> db \<Rightarrow> db" where
  "update_envs p f d = d\<lparr>envs := modify p f (envs d)\<rparr>"

text \<open>\<open>INSERT ... ON CONFLICT(environment_id, unit_id, node_id) DO UPDATE\<close>.\<close>

definition same_runtime :: "runtime_row \<Rightarrow> runtime_row \<Rightarrow> bool" where
  "same_runtime a b \<longleftrightarrow> rt_env a = rt_env b \<and> rt_unit a = rt_unit b \<and> rt_node a = rt_node b"

definition upsert_runtime :: "runtime_row \<Rightarrow> db \<Rightarrow> db" where
  "upsert_runtime row d = d\<lparr>runtimes :=
     (if \<exists>r \<in> set (runtimes d). same_runtime r row
      then modify (\<lambda>r. same_runtime r row) (\<lambda>_. row) (runtimes d)
      else runtimes d @ [row])\<rparr>"

text \<open>The value of \<open>SELECT task_id/environment_id FROM environment_deployment_runs WHERE id\<close>.\<close>

definition find_run :: "db \<Rightarrow> int \<Rightarrow> run_row option" where
  "find_run d rid = find (\<lambda>r. run_id r = rid) (runs d)"

definition run_task_of :: "db \<Rightarrow> int \<Rightarrow> int option" where
  "run_task_of d rid = Option.bind (find_run d rid) run_task"

definition run_env_of :: "db \<Rightarrow> int \<Rightarrow> int option" where
  "run_env_of d rid = map_option run_env (find_run d rid)"

lemma update_sel [simp]:
  "runs (update_runs p f d) = modify p f (runs d)"
  "results (update_results p1 f1 d) = modify p1 f1 (results d)"
  "tasks (update_tasks p2 f2 d) = modify p2 f2 (tasks d)"
  "phases (update_phases p3 f3 d) = modify p3 f3 (phases d)"
  "steps (update_steps p4 f4 d) = modify p4 f4 (steps d)"
  "envs (update_envs p5 f5 d) = modify p5 f5 (envs d)"
  by (simp_all add: update_runs_def update_results_def update_tasks_def update_phases_def
      update_steps_def update_envs_def)

lemma update_other [simp]:
  "results (update_runs p f d) = results d" "tasks (update_runs p f d) = tasks d"
  "phases (update_runs p f d) = phases d" "steps (update_runs p f d) = steps d"
  "envs (update_runs p f d) = envs d" "runtimes (update_runs p f d) = runtimes d"
  "logs (update_runs p f d) = logs d"
  "run_seq (update_runs p f d) = run_seq d" "task_seq (update_runs p f d) = task_seq d"
  "runs (update_results p1 f1 d) = runs d" "tasks (update_results p1 f1 d) = tasks d"
  "phases (update_results p1 f1 d) = phases d" "steps (update_results p1 f1 d) = steps d"
  "envs (update_results p1 f1 d) = envs d" "runtimes (update_results p1 f1 d) = runtimes d"
  "logs (update_results p1 f1 d) = logs d"
  "run_seq (update_results p1 f1 d) = run_seq d" "task_seq (update_results p1 f1 d) = task_seq d"
  "runs (update_tasks p2 f2 d) = runs d" "results (update_tasks p2 f2 d) = results d"
  "phases (update_tasks p2 f2 d) = phases d" "steps (update_tasks p2 f2 d) = steps d"
  "envs (update_tasks p2 f2 d) = envs d" "runtimes (update_tasks p2 f2 d) = runtimes d"
  "logs (update_tasks p2 f2 d) = logs d"
  "run_seq (update_tasks p2 f2 d) = run_seq d" "task_seq (update_tasks p2 f2 d) = task_seq d"
  "runs (update_phases p3 f3 d) = runs d" "results (update_phases p3 f3 d) = results d"
  "tasks (update_phases p3 f3 d) = tasks d" "steps (update_phases p3 f3 d) = steps d"
  "envs (update_phases p3 f3 d) = envs d" "runtimes (update_phases p3 f3 d) = runtimes d"
  "logs (update_phases p3 f3 d) = logs d"
  "run_seq (update_phases p3 f3 d) = run_seq d" "task_seq (update_phases p3 f3 d) = task_seq d"
  "runs (update_steps p4 f4 d) = runs d" "results (update_steps p4 f4 d) = results d"
  "tasks (update_steps p4 f4 d) = tasks d" "phases (update_steps p4 f4 d) = phases d"
  "envs (update_steps p4 f4 d) = envs d" "runtimes (update_steps p4 f4 d) = runtimes d"
  "logs (update_steps p4 f4 d) = logs d"
  "run_seq (update_steps p4 f4 d) = run_seq d" "task_seq (update_steps p4 f4 d) = task_seq d"
  "runs (update_envs p5 f5 d) = runs d" "results (update_envs p5 f5 d) = results d"
  "tasks (update_envs p5 f5 d) = tasks d" "phases (update_envs p5 f5 d) = phases d"
  "steps (update_envs p5 f5 d) = steps d" "runtimes (update_envs p5 f5 d) = runtimes d"
  "logs (update_envs p5 f5 d) = logs d"
  "run_seq (update_envs p5 f5 d) = run_seq d" "task_seq (update_envs p5 f5 d) = task_seq d"
  by (simp_all add: update_runs_def update_results_def update_tasks_def update_phases_def
      update_steps_def update_envs_def)

lemma append_log_other [simp]:
  "runs (append_log t s st c d) = runs d" "results (append_log t s st c d) = results d"
  "tasks (append_log t s st c d) = tasks d" "phases (append_log t s st c d) = phases d"
  "steps (append_log t s st c d) = steps d" "envs (append_log t s st c d) = envs d"
  "runtimes (append_log t s st c d) = runtimes d"
  "run_seq (append_log t s st c d) = run_seq d" "task_seq (append_log t s st c d) = task_seq d"
  by (simp_all add: append_log_def)

lemma upsert_runtime_other [simp]:
  "runs (upsert_runtime r d) = runs d" "results (upsert_runtime r d) = results d"
  "tasks (upsert_runtime r d) = tasks d" "phases (upsert_runtime r d) = phases d"
  "steps (upsert_runtime r d) = steps d" "envs (upsert_runtime r d) = envs d"
  "logs (upsert_runtime r d) = logs d"
  "run_seq (upsert_runtime r d) = run_seq d" "task_seq (upsert_runtime r d) = task_seq d"
  by (simp_all add: upsert_runtime_def)

lemma insert_task_Some:
  "insert_task d row = Some (i, d') \<longleftrightarrow> \<not> task_insert_refused d row \<and> i = task_seq d + 1 \<and>
     d' = d\<lparr> tasks := tasks d @ [row\<lparr>task_id := task_seq d + 1\<rparr>], task_seq := task_seq d + 1 \<rparr>"
  by (auto simp: insert_task_def)

lemma insert_run_Some:
  "insert_run d row = Some (i, d') \<longleftrightarrow> \<not> (active_run (run_status row) \<and>
        (\<exists>r \<in> set (runs d). run_env r = run_env row \<and> active_run (run_status r))) \<and>
     i = run_seq d + 1 \<and>
     d' = d\<lparr> runs := runs d @ [row\<lparr>run_id := run_seq d + 1\<rparr>], run_seq := run_seq d + 1 \<rparr>"
  by (auto simp: insert_run_def)

end
