(* ===== verification/Orchestrator.thy ===== *)
theory Orchestrator
  imports Database
begin

text \<open>
  The database operations of \<open>DeploymentOrchestratorService\<close>
  (\<open>api/src/deployment_orchestrator.rs\<close>): loading a plan, creating, claiming, canceling,
  finalizing, failing and reconciling a deployment run. An operation that the code wraps
  in a transaction is a \<open>transaction\<close>; the time \<open>strftime(..., 'now')\<close> is a
  parameter.
\<close>

section \<open>Errors\<close>

datatype orch_message =
    HashRequired | ActiveDeployment int run_status | PlanChanged | PlanRejected plan_error
  | JsonFailed | ActiveConstraint | SnapshotCorrupt | SnapshotHashMismatch | TargetNotDeployable
  | RunNotClaimable | ClaimLost | RunMissing | ActorRequired | NoteInvalid
  | CannotCancel run_status | NotReconciling run_status | UnitNotStartable ustr | NullAggregate | UnitAborted

datatype orch_error =
    Validation orch_message | Conflict orch_message | NotFound orch_message
  | DatabaseError orch_message

type_synonym 'a orch_op = "(db, orch_error, 'a) operation"

section \<open>Names and fingerprints\<close>

fun deployment_action_name :: "deployment_action \<Rightarrow> ustr" where
  "deployment_action_name Deploy = lit ''deploy''"
| "deployment_action_name Skip = lit ''skip''"
| "deployment_action_name Start = lit ''start''"
| "deployment_action_name Stop = lit ''stop''"
| "deployment_action_name Upgrade = lit ''upgrade''"
| "deployment_action_name Downgrade = lit ''downgrade''"
| "deployment_action_name Restore = lit ''restore''"
| "deployment_action_name ApplicationCheck = lit ''application_check''"

text \<open>\<open>str::as_bytes\<close> (UTF-8) and \<open>(n as u64).to_be_bytes()\<close>.\<close>

definition utf8_char :: "nat \<Rightarrow> nat list" where
  "utf8_char c =
    (if c < 0x80 then [c]
     else if c < 0x800 then [0xC0 + c div 64, 0x80 + c mod 64]
     else if c < 0x10000 then [0xE0 + c div 4096, 0x80 + c div 64 mod 64, 0x80 + c mod 64]
     else [0xF0 + c div 262144, 0x80 + c div 4096 mod 64, 0x80 + c div 64 mod 64, 0x80 + c mod 64])"

definition utf8 :: "ustr \<Rightarrow> nat list" where
  "utf8 s = concat (map utf8_char s)"

fun be_bytes :: "nat \<Rightarrow> nat \<Rightarrow> nat list" where
  "be_bytes 0 n = []"
| "be_bytes (Suc k) n = be_bytes k (n div 256) @ [n mod 256]"

definition be64 :: "nat \<Rightarrow> nat list" where
  "be64 n = be_bytes 8 n"

definition fingerprint_bytes :: "ustr \<Rightarrow> ustr \<Rightarrow> nat list" where
  "fingerprint_bytes unit_fp config_hash =
     be64 (length (utf8 unit_fp)) @ utf8 unit_fp @
     be64 (length (utf8 config_hash)) @ utf8 config_hash"

definition deployment_target_fingerprint :: "plan_env \<Rightarrow> ustr \<Rightarrow> ustr \<Rightarrow> ustr" where
  "deployment_target_fingerprint env unit_fp config_hash =
     sha256_hex env (fingerprint_bytes unit_fp config_hash)"

definition stage_phase_key :: "int \<Rightarrow> ustr" where
  "stage_phase_key stage = lit ''deployment-stage-'' @ dec stage"

text \<open>\<open>CAST(substr(phase_key, 18) AS INTEGER)\<close>.\<close>

definition phase_key_stage :: "ustr \<Rightarrow> int" where
  "phase_key_stage key = cast_integer (drop 17 key)"

section \<open>Loading a plan\<close>

definition plan_identities :: "db \<Rightarrow> int \<Rightarrow> int \<Rightarrow> (int \<times> int \<times> ustr) list" where
  "plan_identities d environment release =
    [(env_app e, sel_config s, rev_hash v).
       e \<leftarrow> envs d, env_id e = environment \<and> env_status e \<noteq> lit ''disabled'',
       r \<leftarrow> releases d, rel_id r = release \<and> rel_app r = env_app e,
       m \<leftarrow> manifests d, man_release m = rel_id r \<and> man_status m = lit ''ready'',
       s \<leftarrow> selections d, sel_release s = rel_id r \<and> sel_env s = env_id e,
       v \<leftarrow> revisions d, rev_id v = sel_config s \<and> rev_app v = env_app e]"

definition environment_nodes :: "db \<Rightarrow> int \<Rightarrow> int list" where
  "environment_nodes d environment =
     sort (map target_node (filter (\<lambda>t. target_env t = environment) (targets d)))"

definition joined_release :: "db \<Rightarrow> int option \<Rightarrow> unit_release_row option" where
  "joined_release d rid = find (\<lambda>u. Some (ur_id u) = rid) (unit_releases d)"

definition load_target_units ::
  "plan_env \<Rightarrow> db \<Rightarrow> int \<Rightarrow> int \<Rightarrow> ustr \<Rightarrow> target_unit list"
where
  "load_target_units env d release app config_hash =
    sort_key (\<lambda>t. (tgt_stage_no t, tgt_unit_order t, tgt_unit_id t))
     [\<lparr> tgt_unit_id = unit_id u, tgt_unit_key = unit_key u,
        tgt_release_id = ru_unit_release ru,
        tgt_version = map_option ur_version (joined_release d (ru_unit_release ru)),
        tgt_version_code = map_option ur_code (joined_release d (ru_unit_release ru)),
        tgt_desired_status = ru_desired ru, tgt_stage_no = ru_stage ru,
        tgt_unit_order = ru_order ru, tgt_removal_order = ru_removal ru,
        tgt_fingerprint = deployment_target_fingerprint env (ru_fingerprint ru) config_hash \<rparr>.
      ru \<leftarrow> release_units d, ru_release ru = release,
      u \<leftarrow> units d, unit_id u = ru_unit ru \<and> unit_app u = app]"

definition load_unit_states :: "db \<Rightarrow> int \<Rightarrow> unit_state list" where
  "load_unit_states d environment =
    sort_key (\<lambda>s. (cur_unit_id s, cur_node_id s))
     [\<lparr> cur_unit_id = rt_unit r, cur_node_id = rt_node r, cur_runtime_status = rt_status r,
        cur_release_id = rt_release r,
        cur_version_code = map_option ur_code (joined_release d (rt_release r)),
        cur_fingerprint = rt_fingerprint r, cur_version_label = rt_label r \<rparr>.
      r \<leftarrow> runtimes d, rt_env r = environment \<and>
        rt_node r \<in> set (environment_nodes d environment)]"

definition load_deployment_plan ::
  "plan_env \<Rightarrow> db \<Rightarrow> int \<Rightarrow> int \<Rightarrow> deployment_mode \<Rightarrow> orch_error + deployment_plan"
where
  "load_deployment_plan env d environment release mode =
    (case plan_identities d environment release of
       [] \<Rightarrow> Inl (NotFound TargetNotDeployable)
     | (app, config, config_hash) # _ \<Rightarrow>
         (case build_deployment_plan env
             \<lparr> in_app_id = app, in_environment_id = environment, in_release_id = release,
               in_config_id = config, in_mode = mode,
               in_nodes = environment_nodes d environment,
               in_units = load_target_units env d release app config_hash,
               in_states = load_unit_states d environment \<rparr> of
            Inl e \<Rightarrow> Inl (Validation (PlanRejected e))
          | Inr plan \<Rightarrow> Inr plan))"

definition preview ::
  "plan_env \<Rightarrow> int \<Rightarrow> int \<Rightarrow> deployment_mode \<Rightarrow> deployment_plan orch_op"
where
  "preview env environment release mode d =
     (load_deployment_plan env d environment release mode, d)"

section \<open>Creating a run\<close>

record create_input =
  ci_environment :: int
  ci_release :: int
  ci_mode :: deployment_mode
  ci_expected_hash :: ustr
  ci_created_by :: ustr

fun insert_stage_phases :: "int \<Rightarrow> int \<Rightarrow> int list \<Rightarrow> db \<Rightarrow> db" where
  "insert_stage_phases task no [] d = d"
| "insert_stage_phases task no (stage # stages) d =
     insert_stage_phases task (no + 1) stages
      (snd (insert_phase d \<lparr> phase_id = 0, phase_task = task, phase_no = no,
         phase_key = stage_phase_key stage, phase_title = StageTitle stage,
         phase_status = StepPending, phase_summary = Told [], phase_started = None,
         phase_finished = None \<rparr>))"

definition new_result :: "int \<Rightarrow> plan_item \<Rightarrow> result_row" where
  "new_result rid item =
    \<lparr> res_run = rid, res_unit = item_unit_id item, res_release = item_release_id item,
      res_stage = item_stage_no item, res_action = item_action item,
      res_status = (if item_action item = Skip then UnitSkipped else UnitPending),
      res_target_fp = item_target_fingerprint item,
      res_previous_fp = item_previous_fingerprint item, res_failure_kind = [],
      res_failure_summary = Told [], res_exit_code = None, res_started = None,
      res_finished = None \<rparr>"

definition new_deploy_task :: "create_input \<Rightarrow> deployment_plan \<Rightarrow> task_row" where
  "new_deploy_task inp plan =
    \<lparr> task_id = 0, task_kind = lit ''release.deploy'',
      task_title = DeployTitle (ci_release inp) (ci_environment inp),
      task_app = Some (plan_app_id plan), task_release = Some (ci_release inp),
      task_env = Some (ci_environment inp), task_node = None, task_status = TaskQueued,
      task_phase = lit ''queued'', task_command = [], task_summary = Told [],
      task_exit_code = None, task_started = None, task_finished = None,
      task_created_by = trim (ci_created_by inp) \<rparr>"

definition new_run :: "create_input \<Rightarrow> deployment_plan \<Rightarrow> int \<Rightarrow> ustr \<Rightarrow> run_row" where
  "new_run inp plan task json =
    \<lparr> run_id = 0, run_app = plan_app_id plan, run_env = plan_environment_id plan,
      run_release = plan_release_id plan, run_config = plan_config_id plan,
      run_task = Some task, run_mode = plan_mode plan, run_plan_hash = plan_hash plan,
      run_plan_json = json, run_status = RunQueued, run_summary = Told [],
      run_created_by = trim (ci_created_by inp), run_started = None, run_finished = None,
      run_cancel_requested = None, run_cancel_by = [], run_reconciled = None,
      run_reconciled_by = [], run_note = [], run_snapshot = SnapshotActive,
      run_snapshot_deleted = None \<rparr>"

definition create_run_tx :: "plan_env \<Rightarrow> create_input \<Rightarrow> (int \<times> int \<times> deployment_plan) orch_op" where
  "create_run_tx env inp d =
    (case find (\<lambda>r. run_env r = ci_environment inp \<and> active_run (run_status r)) (rev (runs d)) of
       Some r \<Rightarrow> (Inl (Conflict (ActiveDeployment (run_id r) (run_status r))), d)
     | None \<Rightarrow>
    (case load_deployment_plan env d (ci_environment inp) (ci_release inp) (ci_mode inp) of
       Inl e \<Rightarrow> (Inl e, d)
     | Inr plan \<Rightarrow>
       if plan_hash plan \<noteq> ci_expected_hash inp then (Inl (Conflict PlanChanged), d)
       else (case insert_task d (new_deploy_task inp plan) of
           None \<Rightarrow> (Inl (Conflict ActiveConstraint), d)
         | Some (task, d1) \<Rightarrow>
           (case plan_to_json env plan of
              None \<Rightarrow> (Inl (Validation JsonFailed), d1)
            | Some json \<Rightarrow>
              (case insert_run d1 (new_run inp plan task json) of
                 None \<Rightarrow> (Inl (Conflict ActiveConstraint), d1)
               | Some (rid, d2) \<Rightarrow>
                 let d3 = insert_stage_phases task 1 (sort_dedup (map item_stage_no (plan_items plan))) d2;
                     d4 = d3\<lparr>results := results d3 @ map (new_result rid) (plan_items plan)\<rparr>
                 in (Inr (rid, task, plan), d4))))))"

definition create_run :: "plan_env \<Rightarrow> create_input \<Rightarrow> (int \<times> int \<times> deployment_plan) orch_op" where
  "create_run env inp d =
    (if trim (ci_expected_hash inp) = [] then (Inl (Validation HashRequired), d)
     else transaction (create_run_tx env inp) d)"

section \<open>Claiming a run\<close>

record execution_run =
  ex_task :: int
  ex_environment :: int
  ex_plan_hash :: ustr
  ex_plan_json :: ustr
  ex_max_parallel :: int
  ex_cancel_requested :: "time option"

definition claim_rows :: "db \<Rightarrow> int \<Rightarrow> (run_row \<times> int \<times> env_row) list" where
  "claim_rows d rid =
    [(r, task, e). r \<leftarrow> runs d, run_id r = rid \<and> run_status r = RunQueued,
       task \<leftarrow> (case run_task r of None \<Rightarrow> [] | Some t \<Rightarrow> [t]),
       e \<leftarrow> envs d, env_id e = run_env r]"

definition claim_tx :: "time \<Rightarrow> int \<Rightarrow> execution_run orch_op" where
  "claim_tx now rid d =
    (case claim_rows d rid of
       [] \<Rightarrow> (Inl (Conflict RunNotClaimable), d)
     | (r, task, e) # _ \<Rightarrow>
       let p = (\<lambda>r. run_id r = rid \<and> run_status r = RunQueued);
           q = (\<lambda>t. task_id t = task \<and> task_status t = TaskQueued);
           run_claim = affected p (runs d);
           d1 = update_runs p (\<lambda>r. r\<lparr>run_status := RunRunning, run_started := Some now\<rparr>) d;
           task_claim = affected q (tasks d1);
           d2 = update_tasks q (\<lambda>t. t\<lparr>task_status := TaskRunning, task_phase := lit ''executing'',
                  task_command := lit ''execute immutable deployment plan'',
                  task_started := Some now\<rparr>) d1
       in if run_claim \<noteq> 1 \<or> task_claim \<noteq> 1 then (Inl (Conflict ClaimLost), d2)
          else (Inr \<lparr> ex_task = task, ex_environment = run_env r,
                  ex_plan_hash = run_plan_hash r, ex_plan_json = run_plan_json r,
                  ex_max_parallel = env_max_parallel e,
                  ex_cancel_requested = run_cancel_requested r \<rparr>,
                update_envs (\<lambda>e. env_id e = run_env r) (\<lambda>e. e\<lparr>env_last_deploy := LastRunning\<rparr>) d2))"

definition claim_deployment_run :: "time \<Rightarrow> int \<Rightarrow> execution_run orch_op" where
  "claim_deployment_run now rid = transaction (claim_tx now rid)"

definition cancellation_requested :: "db \<Rightarrow> int \<Rightarrow> orch_error + bool" where
  "cancellation_requested d rid =
    (case find_run d rid of None \<Rightarrow> Inl (NotFound RunMissing)
     | Some r \<Rightarrow> Inr (run_cancel_requested r \<noteq> None))"

section \<open>Canceling a run\<close>

text \<open>Closing one unit result that did not run, and the other closing updates.\<close>

definition close_pending :: "time \<Rightarrow> int \<Rightarrow> ustr \<Rightarrow> memo \<Rightarrow> db \<Rightarrow> db" where
  "close_pending now rid kind summary =
     update_results (\<lambda>r. res_run r = rid \<and> res_status r = UnitPending)
       (\<lambda>r. r\<lparr>res_status := UnitNotStarted, res_failure_kind := kind,
              res_failure_summary := summary, res_finished := Some now\<rparr>)"

definition open_step :: "step_status \<Rightarrow> bool" where
  "open_step s \<longleftrightarrow> s \<in> {StepPending, StepRunning}"

definition skip_open_phases :: "time \<Rightarrow> int \<Rightarrow> db \<Rightarrow> db" where
  "skip_open_phases now task =
     update_phases (\<lambda>p. phase_task p = task \<and> open_step (phase_status p))
       (\<lambda>p. p\<lparr>phase_status := StepSkipped, phase_finished := Some now\<rparr>)"

definition cancel_queued_run :: "time \<Rightarrow> int \<Rightarrow> int \<Rightarrow> ustr \<Rightarrow> db \<Rightarrow> db" where
  "cancel_queued_run now rid task actor d =
    (let d1 = close_pending now rid (lit ''canceled_before_start'') UnitCanceledBeforeClaim d;
         d2 = update_runs (\<lambda>r. run_id r = rid \<and> run_status r = RunQueued)
           (\<lambda>r. r\<lparr>run_status := RunCanceled, run_summary := CanceledBeforeClaim,
                  run_finished := Some now\<rparr>) d1;
         d3 = update_tasks (\<lambda>t. task_id t = task \<and> task_status t = TaskQueued)
           (\<lambda>t. t\<lparr>task_status := TaskCanceled, task_phase := lit ''canceled'',
                  task_summary := TaskCanceledBeforeStart actor, task_exit_code := Some 1,
                  task_finished := Some now\<rparr>) d2;
         d4 = skip_open_phases now task d3;
         d5 = update_envs (\<lambda>e. run_env_of d4 rid = Some (env_id e))
           (\<lambda>e. e\<lparr>env_last_deploy := LastCanceled\<rparr>) d4
     in append_log task None (lit ''system'') (LogCanceledBeforeClaim actor) d5)"

definition request_cancellation_tx :: "time \<Rightarrow> int \<Rightarrow> ustr \<Rightarrow> bool orch_op" where
  "request_cancellation_tx now rid actor d =
    (case find (\<lambda>r. run_id r = rid \<and> run_task r \<noteq> None) (runs d) of
       None \<Rightarrow> (Inl (NotFound RunMissing), d)
     | Some r \<Rightarrow>
       if run_status r \<notin> {RunQueued, RunRunning} then (Inl (Conflict (CannotCancel (run_status r))), d)
       else if run_cancel_requested r \<noteq> None then (Inr False, d)
       else
        (let task = the (run_task r);
             d1 = update_runs (\<lambda>r. run_id r = rid \<and> run_status r \<in> {RunQueued, RunRunning} \<and>
                      run_cancel_requested r = None)
               (\<lambda>r. r\<lparr>run_cancel_requested := Some now, run_cancel_by := actor,
                      run_summary := CancelPending\<rparr>) d
         in if run_status r = RunQueued then (Inr True, cancel_queued_run now rid task actor d1)
            else let d2 = update_tasks (\<lambda>t. task_id t = task \<and> active_task (task_status t))
                       (\<lambda>t. t\<lparr>task_summary := TaskCancelRequested actor\<rparr>) d1
                 in (Inr True,
                     append_log task None (lit ''system'') (LogCancelRequested actor) d2)))"

definition request_cancellation :: "time \<Rightarrow> int \<Rightarrow> ustr \<Rightarrow> bool orch_op" where
  "request_cancellation now rid actor d =
    (let actor = trim actor in
     if actor = [] then (Inl (Validation ActorRequired), d)
     else transaction (request_cancellation_tx now rid actor) d)"

definition run_control_for_task :: "db \<Rightarrow> int \<Rightarrow> (int \<times> run_status \<times> time option \<times> ustr) option" where
  "run_control_for_task d task =
     map_option (\<lambda>r. (run_id r, run_status r, run_cancel_requested r, run_cancel_by r))
       (find (\<lambda>r. run_task r = Some task) (rev (runs d)))"

section \<open>Running units\<close>

datatype unit_outcome =
    UnitOk ustr
  | UnitFailure ustr ustr "int option"   \<comment> \<open>failure kind, summary, exit code\<close>
  | UnitUnknown ustr

definition start_unit_tx :: "time \<Rightarrow> int \<Rightarrow> int \<Rightarrow> plan_item \<Rightarrow> int orch_op" where
  "start_unit_tx now rid task item d =
    (let p = (\<lambda>r. res_run r = rid \<and> res_unit r = item_unit_id item \<and> res_status r = UnitPending);
         updated = affected p (results d);
         d1 = update_results p (\<lambda>r. r\<lparr>res_status := UnitRunning, res_started := Some now\<rparr>) d
     in if updated \<noteq> 1 then (Inl (Conflict (UnitNotStartable (item_unit_key item))), d1)
        else
         (let phase = map_option phase_id (find (\<lambda>p. phase_task p = task \<and>
                  phase_key p = stage_phase_key (item_stage_no item)) (phases d1));
              no = next_no step_no (filter (\<lambda>s. step_task s = task) (steps d1));
              (sid, d2) = insert_step d1
                \<lparr> step_id = 0, step_task = task, step_phase = phase, step_node = None,
                  step_no = no, step_key = lit ''unit-'' @ dec (item_unit_id item),
                  step_title = UnitStepTitle (item_action item) (item_unit_key item),
                  step_command = deployment_action_name (item_action item),
                  step_status = StepRunning, step_exit_code = None, step_started = Some now,
                  step_finished = None \<rparr>
          in (Inr sid, d2)))"

definition start_unit_result :: "time \<Rightarrow> int \<Rightarrow> int \<Rightarrow> plan_item \<Rightarrow> int orch_op" where
  "start_unit_result now rid task item = transaction (start_unit_tx now rid task item)"

text \<open>The five values the code derives from an outcome.\<close>

fun outcome_row :: "unit_outcome \<Rightarrow> unit_result_status \<times> ustr \<times> ustr \<times> int option \<times> step_status" where
  "outcome_row (UnitOk summary) = (UnitSuccess, [], summary, Some 0, StepSuccess)"
| "outcome_row (UnitFailure kind summary code) = (UnitFailed, kind, summary, code, StepFailed)"
| "outcome_row (UnitUnknown summary) =
     (UnitCanceledUnknown, lit ''canceled_unknown'', summary, None, StepFailed)"

definition runtime_after :: "int \<Rightarrow> int \<Rightarrow> plan_item \<Rightarrow> ustr \<Rightarrow> int \<Rightarrow> runtime_row" where
  "runtime_after rid environment item summary node =
    (let (status, release, fp, label) =
       (if item_action item = Stop then (lit ''stopped'', None, [], [])
        else (lit ''healthy'', item_release_id item, item_target_fingerprint item,
              case item_version item of None \<Rightarrow> [] | Some v \<Rightarrow> v))
     in \<lparr> rt_env = environment, rt_unit = item_unit_id item, rt_node = node, rt_status = status,
          rt_release = release, rt_fingerprint = fp, rt_label = label,
          rt_message = Told summary, rt_last_run = Some rid \<rparr>)"

fun upsert_runtimes :: "runtime_row list \<Rightarrow> db \<Rightarrow> db" where
  "upsert_runtimes [] d = d"
| "upsert_runtimes (r # rs) d = upsert_runtimes rs (upsert_runtime r d)"

definition persist_unit_outcome ::
  "time \<Rightarrow> int \<Rightarrow> int \<Rightarrow> int \<Rightarrow> int \<Rightarrow> int list \<Rightarrow> plan_item \<Rightarrow> unit_outcome \<Rightarrow> db \<Rightarrow> db"
where
  "persist_unit_outcome now rid task sid environment nodes item outcome d =
    (let (status, kind, summary, code, sstatus) = outcome_row outcome;
         d1 = update_results (\<lambda>r. res_run r = rid \<and> res_unit r = item_unit_id item \<and>
                  res_status r = UnitRunning)
           (\<lambda>r. r\<lparr>res_status := status, res_failure_kind := kind,
                  res_failure_summary := Told summary, res_exit_code := code,
                  res_finished := Some now\<rparr>) d;
         d2 = update_steps (\<lambda>s. step_id s = sid \<and> step_task s = task)
           (\<lambda>s. s\<lparr>step_status := sstatus, step_exit_code := code, step_finished := Some now\<rparr>) d1;
         d3 = append_log task (Some sid) (lit ''system'') (Told summary) d2
     in case outcome of
          UnitOk _ \<Rightarrow> upsert_runtimes (map (runtime_after rid environment item summary) nodes) d3
        | _ \<Rightarrow> d3)"

section \<open>Closing a run\<close>

text \<open>
  The aggregate over the results of a run: succeeded or skipped, failed or not started,
  unknown, and all. On no rows the \<open>SUM\<close>s are \<open>NULL\<close>, which does not decode as \<open>i64\<close>.
\<close>

definition run_results :: "db \<Rightarrow> int \<Rightarrow> result_row list" where
  "run_results d rid = filter (\<lambda>r. res_run r = rid) (results d)"

definition result_counts :: "db \<Rightarrow> int \<Rightarrow> (nat \<times> nat \<times> nat \<times> nat) option" where
  "result_counts d rid =
    (let rs = run_results d rid in
     if rs = [] then None
     else Some (affected (\<lambda>r. res_status r \<in> {UnitSuccess, UnitSkipped}) rs,
                affected (\<lambda>r. res_status r \<in> {UnitFailed, UnitNotStarted}) rs,
                affected (\<lambda>r. res_status r = UnitCanceledUnknown) rs, length rs))"

definition final_run_status :: "nat \<Rightarrow> nat \<Rightarrow> nat \<Rightarrow> bool \<Rightarrow> run_status" where
  "final_run_status ok failed unknown canceled =
    (if failed = 0 \<and> unknown = 0 then RunSuccess
     else if 0 < ok then RunPartialFailed
     else if canceled \<or> 0 < unknown then RunCanceled
     else RunAllFailed)"

definition final_task_status :: "run_status \<Rightarrow> bool \<Rightarrow> task_status" where
  "final_task_status status canceled =
    (if status = RunSuccess then TaskSuccess
     else if canceled \<or> status = RunCanceled then TaskCanceled
     else TaskFailed)"

definition final_env_runtime :: "run_status \<Rightarrow> deployment_plan \<Rightarrow> env_runtime_status" where
  "final_env_runtime status plan =
    (if status = RunSuccess then
       (if \<forall>i \<in> set (plan_items plan). item_release_id i = None then EnvStopped else EnvRunning)
     else if status = RunPartialFailed then EnvPartialUnhealthy
     else EnvUnknown)"

definition task_phase_of :: "task_status \<Rightarrow> ustr" where
  "task_phase_of s = (case s of TaskSuccess \<Rightarrow> lit ''completed'' | TaskCanceled \<Rightarrow> lit ''canceled''
     | _ \<Rightarrow> lit ''failed'')"

text \<open>The run statuses \<open>app_environments.last_deployment_status\<close> can record.\<close>

fun env_status_of_run :: "run_status \<Rightarrow> env_deploy_status" where
  "env_status_of_run RunSuccess = LastSuccess"
| "env_status_of_run RunPartialFailed = LastPartialFailed"
| "env_status_of_run RunAllFailed = LastAllFailed"
| "env_status_of_run RunCanceled = LastCanceled"
| "env_status_of_run _ = LastRunning"

text \<open>The correlated \<open>EXISTS\<close> of the phase update.\<close>

definition stage_has :: "db \<Rightarrow> phase_row \<Rightarrow> unit_result_status set \<Rightarrow> bool" where
  "stage_has d p statuses \<longleftrightarrow> (\<exists>res \<in> set (results d). \<exists>r \<in> set (runs d).
     run_id r = res_run res \<and> run_task r = Some (phase_task p) \<and>
     res_stage res = phase_key_stage (phase_key p) \<and> res_status res \<in> statuses)"

definition final_phase_status :: "db \<Rightarrow> phase_row \<Rightarrow> step_status" where
  "final_phase_status d p =
    (if stage_has d p {UnitFailed, UnitCanceledUnknown} then StepFailed
     else if stage_has d p {UnitNotStarted} then StepSkipped
     else StepSuccess)"

definition finalize_deployment_run ::
  "time \<Rightarrow> int \<Rightarrow> deployment_plan \<Rightarrow> bool \<Rightarrow> (int \<times> run_status \<times> memo) orch_op"
where
  "finalize_deployment_run now rid plan canceled d =
    (case result_counts d rid of
       None \<Rightarrow> (Inl (DatabaseError NullAggregate), d)
     | Some (ok, failed, unknown, all_n) \<Rightarrow>
       let status = final_run_status ok failed unknown canceled;
           summary = RunCounts (int all_n) (int ok) (int failed) (int unknown)
                       (canceled \<and> status \<noteq> RunSuccess);
           tstatus = final_task_status status canceled;
           d1 = update_runs (\<lambda>r. run_id r = rid \<and> run_status r = RunRunning)
             (\<lambda>r. r\<lparr>run_status := status, run_summary := summary, run_finished := Some now\<rparr>) d;
           d2 = update_tasks (\<lambda>t. run_task_of d1 rid = Some (task_id t))
             (\<lambda>t. t\<lparr>task_status := tstatus, task_phase := task_phase_of tstatus,
                    task_summary := summary,
                    task_exit_code := Some (if tstatus = TaskSuccess then 0 else 1),
                    task_finished := Some now\<rparr>) d1;
           d3 = update_phases (\<lambda>p. run_task_of d2 rid = Some (phase_task p))
             (\<lambda>p. p\<lparr>phase_status := final_phase_status d2 p, phase_finished := Some now\<rparr>) d2;
           d4 = (if status = RunSuccess then
               update_envs (\<lambda>e. env_id e = plan_environment_id plan)
                 (\<lambda>e. e\<lparr>env_current_release := Some (plan_release_id plan),
                        env_current_config := Some (plan_config_id plan),
                        env_runtime := final_env_runtime status plan,
                        env_last_deploy := env_status_of_run status\<rparr>) d3
             else
               update_envs (\<lambda>e. env_id e = plan_environment_id plan)
                 (\<lambda>e. e\<lparr>env_runtime := final_env_runtime status plan,
                        env_last_deploy := env_status_of_run status\<rparr>) d3)
       in (Inr (rid, status, summary), d4))"

section \<open>After a restart\<close>

definition fail_running_steps :: "time \<Rightarrow> (step_row \<Rightarrow> bool) \<Rightarrow> db \<Rightarrow> db" where
  "fail_running_steps now p =
     update_steps (\<lambda>s. p s \<and> step_status s = StepRunning)
       (\<lambda>s. s\<lparr>step_status := StepFailed, step_exit_code := Some 1, step_finished := Some now\<rparr>)"

definition close_open_phases :: "time \<Rightarrow> (phase_row \<Rightarrow> bool) \<Rightarrow> db \<Rightarrow> db" where
  "close_open_phases now p =
     update_phases (\<lambda>q. p q \<and> open_step (phase_status q))
       (\<lambda>q. q\<lparr>phase_status := (if phase_status q = StepRunning then StepFailed else StepSkipped),
              phase_finished := Some now\<rparr>)"

definition open_unit :: "unit_result_status \<Rightarrow> bool" where
  "open_unit s \<longleftrightarrow> s \<in> {UnitPending, UnitRunning}"

definition close_open_units :: "time \<Rightarrow> int \<Rightarrow> ustr \<Rightarrow> memo \<Rightarrow> memo \<Rightarrow> db \<Rightarrow> db" where
  "close_open_units now rid kind running_summary pending_summary =
     update_results (\<lambda>r. res_run r = rid \<and> open_unit (res_status r))
       (\<lambda>r. r\<lparr>res_status := (if res_status r = UnitRunning then UnitCanceledUnknown else UnitNotStarted),
              res_failure_kind := kind,
              res_failure_summary := (if res_status r = UnitRunning then running_summary else pending_summary),
              res_finished := Some now\<rparr>)"

definition cancel_run_after_restart :: "time \<Rightarrow> db \<Rightarrow> int \<Rightarrow> db" where
  "cancel_run_after_restart now d rid =
    (let d1 = close_pending now rid (lit ''process_restarted_before_start'') RestartUnitNotRun d;
         d2 = update_runs (\<lambda>r. run_id r = rid \<and> run_status r = RunQueued)
           (\<lambda>r. r\<lparr>run_status := RunCanceled, run_summary := RestartCanceledRun,
                  run_finished := Some now\<rparr>) d1;
         d3 = update_tasks (\<lambda>t. run_task_of d2 rid = Some (task_id t) \<and> active_task (task_status t))
           (\<lambda>t. t\<lparr>task_status := TaskCanceled, task_phase := lit ''canceled'',
                  task_summary := RestartCanceledTask, task_exit_code := Some 1,
                  task_finished := Some now\<rparr>) d2;
         d4 = update_phases (\<lambda>p. run_task_of d3 rid = Some (phase_task p) \<and> open_step (phase_status p))
           (\<lambda>p. p\<lparr>phase_status := StepSkipped, phase_finished := Some now\<rparr>) d3
     in update_envs (\<lambda>e. run_env_of d4 rid = Some (env_id e))
          (\<lambda>e. e\<lparr>env_last_deploy := LastCanceled\<rparr>) d4)"

definition interrupt_run_after_restart :: "time \<Rightarrow> db \<Rightarrow> int \<Rightarrow> db" where
  "interrupt_run_after_restart now d rid =
    (let d1 = close_open_units now rid (lit ''process_interrupted'') RestartUnitUnknown
           RestartUnitSkipped d;
         d2 = fail_running_steps now (\<lambda>s. run_task_of d1 rid = Some (step_task s)) d1;
         d3 = close_open_phases now (\<lambda>p. run_task_of d2 rid = Some (phase_task p)) d2;
         d4 = update_runs (\<lambda>r. run_id r = rid \<and> run_status r = RunRunning)
           (\<lambda>r. r\<lparr>run_status := RunReconciling, run_summary := RestartReconciling\<rparr>) d3;
         d5 = update_tasks (\<lambda>t. run_task_of d4 rid = Some (task_id t) \<and> task_status t = TaskRunning)
           (\<lambda>t. t\<lparr>task_status := TaskFailed, task_phase := lit ''failed'',
                  task_summary := RestartTaskFailed, task_exit_code := Some 1,
                  task_finished := Some now\<rparr>) d4
     in update_envs (\<lambda>e. run_env_of d5 rid = Some (env_id e))
          (\<lambda>e. e\<lparr>env_runtime := EnvUnknown, env_last_deploy := LastRunning\<rparr>) d5)"

definition runs_in :: "run_status \<Rightarrow> db \<Rightarrow> int list" where
  "runs_in status d = map run_id (filter (\<lambda>r. run_status r = status) (runs d))"

definition reconcile_interrupted_runs :: "time \<Rightarrow> (nat \<times> nat) orch_op" where
  "reconcile_interrupted_runs now d =
    (let queued = runs_in RunQueued d;
         d1 = foldl (cancel_run_after_restart now) d queued;
         running = runs_in RunRunning d1;
         d2 = foldl (interrupt_run_after_restart now) d1 running
     in (Inr (length running, length queued), d2))"

section \<open>Confirming that an interrupted run has stopped\<close>

definition confirmed_status :: "nat \<Rightarrow> nat \<Rightarrow> run_status" where
  "confirmed_status ok unknown =
    (if 0 < ok then RunPartialFailed else if 0 < unknown then RunCanceled else RunAllFailed)"

definition confirm_tx :: "time \<Rightarrow> int \<Rightarrow> ustr \<Rightarrow> ustr \<Rightarrow> (int \<times> run_status \<times> memo) orch_op" where
  "confirm_tx now rid actor why d =
    (case find_run d rid of
       None \<Rightarrow> (Inl (NotFound RunMissing), d)
     | Some r \<Rightarrow>
       if run_status r \<noteq> RunReconciling then (Inl (Conflict (NotReconciling (run_status r))), d)
       else (case result_counts d rid of
           None \<Rightarrow> (Inl (DatabaseError NullAggregate), d)
         | Some (ok, failed, unknown, all_n) \<Rightarrow>
           let status = confirmed_status ok unknown;
               summary = ConfirmedStopped (int all_n) (int ok) (int failed) (int unknown) why;
               d1 = update_runs (\<lambda>r. run_id r = rid \<and> run_status r = RunReconciling)
                 (\<lambda>r. r\<lparr>run_status := status, run_summary := summary, run_reconciled := Some now,
                        run_reconciled_by := actor, run_note := why, run_finished := Some now\<rparr>) d;
               tstatus = (if status = RunCanceled then TaskCanceled else TaskFailed);
               d2 = (case run_task r of None \<Rightarrow> d1 | Some task \<Rightarrow>
                   append_log task None (lit ''system'') (LogConfirmed actor why)
                     (update_tasks (\<lambda>t. task_id t = task)
                       (\<lambda>t. t\<lparr>task_status := tstatus, task_phase := task_phase_of tstatus,
                              task_summary := summary, task_exit_code := Some 1,
                              task_finished := (case task_finished t of None \<Rightarrow> Some now | f \<Rightarrow> f)\<rparr>)
                       d1));
               d3 = update_envs (\<lambda>e. env_id e = run_env r)
                 (\<lambda>e. e\<lparr>env_runtime := EnvUnknown, env_last_deploy := env_status_of_run status\<rparr>) d2
           in (Inr (rid, status, summary), d3)))"

definition confirm_interrupted_run_stopped ::
  "time \<Rightarrow> int \<Rightarrow> ustr \<Rightarrow> ustr \<Rightarrow> (int \<times> run_status \<times> memo) orch_op"
where
  "confirm_interrupted_run_stopped now rid actor why d =
    (let actor = trim actor; why = trim why in
     if actor = [] then (Inl (Validation ActorRequired), d)
     else if why = [] \<or> 1000 < length why then (Inl (Validation NoteInvalid), d)
     else transaction (confirm_tx now rid actor why) d)"

section \<open>Failing a run on an internal error\<close>

definition fail_run_tx :: "time \<Rightarrow> int \<Rightarrow> memo \<Rightarrow> bool orch_op" where
  "fail_run_tx now rid summary d =
    (case find (\<lambda>r. run_id r = rid \<and> run_status r \<in> {RunQueued, RunRunning}) (runs d) of
       None \<Rightarrow> (Inr False, d)
     | Some r \<Rightarrow>
       (case run_task r of None \<Rightarrow> (Inl (DatabaseError NullAggregate), d) | Some task \<Rightarrow>
       let d1 = close_open_units now rid (lit ''orchestrator_internal_error'') summary summary d
       in case result_counts d1 rid of
            None \<Rightarrow> (Inl (DatabaseError NullAggregate), d1)
          | Some (ok, failed, unknown, all_n) \<Rightarrow>
            let status = confirmed_status ok unknown;
                d2 = update_runs (\<lambda>r. run_id r = rid \<and> run_status r \<in> {RunQueued, RunRunning})
                  (\<lambda>r. r\<lparr>run_status := status, run_summary := summary, run_finished := Some now\<rparr>) d1;
                d3 = fail_running_steps now (\<lambda>s. step_task s = task) d2;
                d4 = close_open_phases now (\<lambda>p. phase_task p = task) d3;
                tstatus = (if status = RunCanceled then TaskCanceled else TaskFailed);
                d5 = update_tasks (\<lambda>t. task_id t = task \<and> active_task (task_status t))
                  (\<lambda>t. t\<lparr>task_status := tstatus, task_phase := task_phase_of tstatus,
                         task_summary := summary, task_exit_code := Some 1,
                         task_finished := Some now\<rparr>) d4;
                d6 = update_envs (\<lambda>e. env_id e = run_env r)
                  (\<lambda>e. e\<lparr>env_runtime := (if 0 < ok then EnvPartialUnhealthy else EnvUnknown),
                         env_last_deploy := env_status_of_run status\<rparr>) d5
            in (Inr True, d6)))"

definition fail_run_on_internal_error :: "time \<Rightarrow> int \<Rightarrow> ustr \<Rightarrow> bool orch_op" where
  "fail_run_on_internal_error now rid message =
     transaction (fail_run_tx now rid (OrchestratorFailed (take 1000 (trim message))))"

end
