(* ===== verification/Samples.thy ===== *)
theory Samples
  imports Orchestrator
begin

text \<open>
  A small installation, on which the properties are applied: environment 2 of application 1
  with the nodes 5 and 6, release 3 with unit 1 in stage 1, unit 2 in stage 2 and the
  disabled unit 3, of which nothing runs yet except unit 3.
\<close>

definition sample_release_unit :: "int \<Rightarrow> int \<Rightarrow> ustr \<Rightarrow> release_unit_row" where
  "sample_release_unit u stage desired = \<lparr> ru_release = 3, ru_unit = u,
     ru_unit_release = (if desired = lit ''active'' then Some (10 + u) else None),
     ru_desired = desired, ru_stage = stage, ru_order = 1, ru_removal = 1,
     ru_fingerprint = lit ''f'' \<rparr>"

definition sample_unit_release :: "int \<Rightarrow> unit_release_row" where
  "sample_unit_release u = \<lparr> ur_id = 10 + u, ur_unit = u, ur_version = lit ''1.0.0'', ur_code = 100,
     ur_package_name = lit ''unit.tar'', ur_package_path = [], ur_extract_dir = [],
     ur_source = lit ''openapi'', ur_checksum = lit ''c'', ur_size = 1, ur_published = [],
     ur_metadata = [], ur_provider = lit ''local'', ur_bucket = [], ur_object_key = [],
     ur_endpoint = [], ur_object_version = [], ur_integrity = lit ''local'',
     ur_artifact = ArtifactActive, ur_cleanup_error = [] \<rparr>"

definition sample_db :: db where
  "sample_db = \<lparr> runs = [], results = [], tasks = [], phases = [], steps = [], logs = [],
     envs = [\<lparr> env_id = 2, env_app = 1, env_status = lit ''ready'', env_max_parallel = 2,
       env_current_release = None, env_current_config = None, env_runtime = EnvUnknown,
       env_last_deploy = LastWaiting \<rparr>],
     runtimes = [\<lparr> rt_env = 2, rt_unit = 3, rt_node = 5, rt_status = lit ''healthy'',
       rt_release = Some 13, rt_fingerprint = lit ''g'', rt_label = lit ''1.0.0'',
       rt_message = Told [], rt_last_run = None \<rparr>],
     releases = [\<lparr> rel_id = 3, rel_app = 1, rel_version = lit ''1.0.0'', rel_code = 100,
       rel_status = lit ''received'', rel_source = lit ''openapi'', rel_checksum = lit ''m'', rel_metadata = [] \<rparr>],
     manifests = [\<lparr> man_release = 3, man_status = lit ''ready'', man_base = None, man_hash = lit ''m'',
       man_json = [], man_created_by = lit ''op'', man_archived = None \<rparr>],
     selections = [\<lparr> sel_release = 3, sel_env = 2, sel_config = 4 \<rparr>],
     revisions = [\<lparr> rev_id = 4, rev_app = 1, rev_hash = lit ''c'' \<rparr>],
     targets = [\<lparr> target_env = 2, target_node = 6 \<rparr>, \<lparr> target_env = 2, target_node = 5 \<rparr>],
     release_units = [sample_release_unit 2 2 (lit ''active''),
       sample_release_unit 1 1 (lit ''active''), sample_release_unit 3 1 (lit ''disabled'')],
     units = map (\<lambda>i. \<lparr> unit_id = i, unit_app = 1, unit_key = lit ''unit'' @ dec i \<rparr>) [1, 2, 3],
     unit_releases = map sample_unit_release [1, 2, 3],
     run_seq = 7, task_seq = 20, phase_seq = 0, step_seq = 0 \<rparr>"





definition sample_fingerprint :: ustr where
  "sample_fingerprint = deployment_target_fingerprint sample_env (lit ''f'') (lit ''c'')"

definition sample_unit :: "int \<Rightarrow> int \<Rightarrow> ustr \<Rightarrow> target_unit" where
  "sample_unit u stage desired = \<lparr> tgt_unit_id = u, tgt_unit_key = lit ''unit'' @ dec u,
     tgt_release_id = (if desired = lit ''active'' then Some (10 + u) else None),
     tgt_version = (if desired = lit ''active'' then Some (lit ''1.0.0'') else None),
     tgt_version_code = (if desired = lit ''active'' then Some 100 else None),
     tgt_desired_status = desired, tgt_stage_no = stage,
     tgt_unit_order = 1, tgt_removal_order = 1, tgt_fingerprint = sample_fingerprint \<rparr>"

definition sample_item :: "int \<Rightarrow> int \<Rightarrow> deployment_action \<Rightarrow> plan_item" where
  "sample_item u stage action = \<lparr> item_unit_id = u, item_unit_key = lit ''unit'' @ dec u,
     item_release_id = (if action = Stop then None else Some (10 + u)),
     item_version = (if action = Stop then None else Some (lit ''1.0.0'')),
     item_stage_no = stage, item_unit_order = 1, item_removal_order = 1, item_action = action,
     item_reason = (if action = Stop then DisabledByTarget else NeverDeployed),
     item_target_fingerprint = sample_fingerprint,
     item_previous_fingerprint = (if action = Stop then lit ''g'' else []) \<rparr>"

definition sample_run_plan :: deployment_plan where
  "sample_run_plan = \<lparr> plan_app_id = 1, plan_environment_id = 2, plan_release_id = 3,
     plan_config_id = 4, plan_mode = Normal, plan_nodes = [5, 6],
     plan_items = [sample_item 3 1 Stop, sample_item 1 1 Start, sample_item 2 2 Start],
     plan_hash = [5, 6] \<rparr>"

lemma sample_identities: "plan_identities sample_db 2 3 = [(1, 4, lit ''c'')]" by code_simp
lemma sample_nodes: "environment_nodes sample_db 2 = [5, 6]" by code_simp
lemma sample_units: "load_target_units sample_env sample_db 3 1 (lit ''c'') =
  [sample_unit 1 1 (lit ''active''), sample_unit 3 1 (lit ''disabled''), sample_unit 2 2 (lit ''active'')]"
  by code_simp
lemma sample_states: "load_unit_states sample_db 2 = 
  [\<lparr> cur_unit_id = 3, cur_node_id = 5, cur_runtime_status = lit ''healthy'',
     cur_release_id = Some 13, cur_version_code = Some 100, cur_fingerprint = lit ''g'',
     cur_version_label = lit ''1.0.0'' \<rparr>]" by code_simp

lemma sample_build: "build_deployment_plan sample_env \<lparr> in_app_id = 1, in_environment_id = 2, in_release_id = 3,
               in_config_id = 4, in_mode = Normal, in_nodes = [5,6],
               in_units = [sample_unit 1 1 (lit ''active''), sample_unit 3 1 (lit ''disabled''), sample_unit 2 2 (lit ''active'')],
               in_states = [\<lparr> cur_unit_id = 3, cur_node_id = 5, cur_runtime_status = lit ''healthy'',
     cur_release_id = Some 13, cur_version_code = Some 100, cur_fingerprint = lit ''g'',
     cur_version_label = lit ''1.0.0'' \<rparr>] \<rparr> = Inr sample_run_plan"
  by code_simp
lemma sample_load: "load_deployment_plan sample_env sample_db 2 3 Normal = Inr sample_run_plan"
  by (simp add: load_deployment_plan_def sample_identities sample_nodes sample_units sample_states sample_build)
definition sample_create :: create_input where
  "sample_create = \<lparr> ci_environment = 2, ci_release = 3, ci_mode = Normal,
     ci_expected_hash = [5, 6], ci_created_by = lit ''op'' \<rparr>"

definition sample_created :: db where
  "sample_created = snd (create_run sample_env sample_create sample_db)"

lemma sample_db_sel [simp]: "runs sample_db = []" "tasks sample_db = []" "results sample_db = []"
  "run_seq sample_db = 7" "task_seq sample_db = 20"
  by (simp_all add: sample_db_def)

lemma sample_hash: "trim (ci_expected_hash sample_create) \<noteq> []"
  by (simp add: sample_create_def trim_def trim_start_def is_white_def)

lemma sample_create_run:
  "create_run sample_env sample_create sample_db = (Inr (8, 21, sample_run_plan), sample_created)"
proof -
  have "fst (create_run_tx sample_env sample_create sample_db) = Inr (8, 21, sample_run_plan)"
    by (simp add: create_run_tx_def sample_create_def sample_load)
       (simp add: insert_task_def task_insert_refused_def insert_run_def sample_env_def new_run_def
         sample_run_plan_def Let_def)
  then show ?thesis
    unfolding sample_created_def create_run_def transaction_def
    using sample_hash by (auto split: prod.splits)
qed

text \<open>The installation with the run 8 of the plan above in a given state.\<close>

definition sample_run :: "run_status \<Rightarrow> run_row" where
  "sample_run status = \<lparr> run_id = 8, run_app = 1, run_env = 2, run_release = 3, run_config = 4,
     run_task = Some 21, run_mode = Normal, run_plan_hash = [5, 6], run_plan_json = [5, 6],
     run_status = status, run_summary = Told [], run_created_by = lit ''op'',
     run_started = None, run_finished = None, run_cancel_requested = None, run_cancel_by = [],
     run_reconciled = None, run_reconciled_by = [], run_note = [], run_snapshot = SnapshotActive,
     run_snapshot_deleted = None \<rparr>"

definition sample_task :: "task_status \<Rightarrow> task_row" where
  "sample_task status = (new_deploy_task sample_create sample_run_plan)
     \<lparr>task_id := 21, task_status := status\<rparr>"

definition sample_phase :: "int \<Rightarrow> phase_row" where
  "sample_phase no = \<lparr> phase_id = no, phase_task = 21, phase_no = no,
     phase_key = stage_phase_key no, phase_title = StageTitle no, phase_status = StepPending,
     phase_summary = Told [], phase_started = None, phase_finished = None \<rparr>"

definition sample_at :: "run_status \<Rightarrow> task_status \<Rightarrow> unit_result_status list \<Rightarrow> db" where
  "sample_at rs ts us = sample_db\<lparr> runs := [sample_run rs], run_seq := 8, tasks := [sample_task ts],
     task_seq := 21, phases := [sample_phase 1, sample_phase 2], phase_seq := 2,
     results := map2 (\<lambda>item s. (new_result 8 item)\<lparr>res_status := s\<rparr>) (plan_items sample_run_plan) us \<rparr>"

lemma sample_at_sel [simp]:
  "runs (sample_at rs ts us) = [sample_run rs]" "run_seq (sample_at rs ts us) = 8"
  "tasks (sample_at rs ts us) = [sample_task ts]"
  "phases (sample_at rs ts us) = [sample_phase 1, sample_phase 2]"
  by (simp_all add: sample_at_def)

lemma sample_row [simp]:
  "run_id (sample_run rs) = 8" "run_env (sample_run rs) = 2" "run_status (sample_run rs) = rs"
  "run_task (sample_run rs) = Some 21" "run_cancel_requested (sample_run rs) = None"
  "task_id (sample_task ts) = 21" "task_status (sample_task ts) = ts"
  by (simp_all add: sample_run_def sample_task_def)

end
