(* ===== verification/Lifecycle.thy ===== *)
theory Lifecycle
  imports Samples
begin

text \<open>
  The lifecycle of deployment runs. The abstract specification is the lock board, a map
  from run ids to the environment and the status of the run on which a run is opened only
  when no other run holds its environment; the operations of the orchestrator refine it.
  The rest states what each operation does to the database.
\<close>

section \<open>The lock board\<close>

fun run_next :: "run_status \<Rightarrow> run_status list" where
  "run_next RunQueued = [RunRunning, RunPartialFailed, RunAllFailed, RunCanceled]"
| "run_next RunRunning = [RunReconciling, RunSuccess, RunPartialFailed, RunAllFailed, RunCanceled]"
| "run_next RunReconciling = [RunPartialFailed, RunAllFailed, RunCanceled]"
| "run_next _ = []"

definition run_moves :: "run_status \<Rightarrow> run_status \<Rightarrow> bool" where
  "run_moves s t \<longleftrightarrow> t = s \<or> t \<in> set (run_next s)"

lemma run_moves_refl [simp]: "run_moves s s"
  by (simp add: run_moves_def)

lemma run_moves_inactive: "run_moves s t \<Longrightarrow> \<not> active_run s \<Longrightarrow> t = s"
  by (cases s) (auto simp: run_moves_def active_run_def)

lemma run_moves_active: "run_moves s t \<Longrightarrow> active_run t \<Longrightarrow> active_run s"
  by (metis run_moves_inactive)

type_synonym board = "int \<rightharpoonup> int \<times> run_status"

inductive board_step :: "int \<times> board \<Rightarrow> int \<times> board \<Rightarrow> bool" where
  opened: "\<forall>j s. b j = Some (e, s) \<longrightarrow> \<not> active_run s \<Longrightarrow>
     board_step (n, b) (n + 1, b(n + 1 \<mapsto> (e, RunQueued)))"
| moved: "dom b' = dom b \<Longrightarrow>
     \<forall>i e s. b i = Some (e, s) \<longrightarrow> (\<exists>t. b' i = Some (e, t) \<and> run_moves s t) \<Longrightarrow>
     board_step (n, b) (n, b')"
| purged: "\<forall>i. b' i = b i \<or> (b' i = None \<and> (\<forall>e s. b i = Some (e, s) \<longrightarrow> \<not> active_run s)) \<Longrightarrow>
     board_step (n, b) (n, b')"

definition exclusive :: "board \<Rightarrow> bool" where
  "exclusive b \<longleftrightarrow> (\<forall>i j e s t. b i = Some (e, s) \<and> b j = Some (e, t) \<and> active_run s \<and>
     active_run t \<longrightarrow> i = j)"

lemma exclusive_opened:
  assumes "exclusive b" "\<forall>j s. b j = Some (e, s) \<longrightarrow> \<not> active_run s"
  shows "exclusive (b(i \<mapsto> (e, RunQueued)))"
  unfolding exclusive_def
proof (intro allI impI, elim conjE)
  fix j k f s t
  assume a: "(b(i \<mapsto> (e, RunQueued))) j = Some (f, s)" "(b(i \<mapsto> (e, RunQueued))) k = Some (f, t)" "active_run s" "active_run t"
  show "j = k"
  proof (cases "j = i")
    case True
    then have "f = e" using a(1) by simp
    with True show ?thesis using assms(2) a by (cases "k = i") simp_all
  next
    case False
    then have j: "b j = Some (f, s)" using a(1) by simp
    show ?thesis
    proof (cases "k = i")
      case True
      then have "f = e" using a(2) by simp
      with j a assms(2) show ?thesis by blast
    next
      case False
      then have "b k = Some (f, t)" using a(2) by simp
      with j a assms(1) show ?thesis unfolding exclusive_def by blast
    qed
  qed
qed
lemma exclusive_step: "board_step x y \<Longrightarrow> exclusive (snd x) \<Longrightarrow> exclusive (snd y)"
proof (induction rule: board_step.induct)
  case (opened b e n)
  then show ?case unfolding snd_conv by (intro exclusive_opened) simp_all
next
  case (moved b' b n)
  show ?case unfolding exclusive_def snd_conv
  proof (intro allI impI)
    fix i j e s t
    assume a: "b' i = Some (e, s) \<and> b' j = Some (e, t) \<and> active_run s \<and> active_run t"
    then have "i \<in> dom b'" "j \<in> dom b'" by (simp_all add: domIff)
    then obtain e1 s1 e2 t1 where b: "b i = Some (e1, s1)" "b j = Some (e2, t1)"
      unfolding moved.hyps(1) by (auto simp: dom_def)
    then obtain s2 t2 where n: "b' i = Some (e1, s2)" "run_moves s1 s2"
      "b' j = Some (e2, t2)" "run_moves t1 t2"
      using moved.hyps(2) by blast
    then have n': "e1 = e" "e2 = e" "s2 = s" "t2 = t" using a by simp_all
    then have "active_run s1" "active_run t1"
      using a n by (blast intro: run_moves_active)+
    with n' show "i = j" using b moved.prems unfolding exclusive_def snd_conv by blast
  qed
next
  case (purged b' b n)
  then have "b i = Some x" if "b' i = Some x" for i x using that by (metis option.distinct(1))
  with purged.prems show ?case unfolding exclusive_def snd_conv by blast
qed

definition board :: "db \<Rightarrow> board" where
  "board d = map_of (map (\<lambda>r. (run_id r, (run_env r, run_status r))) (runs d))"

definition lock_view :: "db \<Rightarrow> int \<times> board" where
  "lock_view d = (run_seq d, board d)"

definition ids_ok :: "db \<Rightarrow> bool" where
  "ids_ok d \<longleftrightarrow> distinct (map run_id (runs d)) \<and> (\<forall>r \<in> set (runs d). run_id r \<le> run_seq d)"

definition same_run :: "run_row \<Rightarrow> run_row \<Rightarrow> bool" where
  "same_run r r' \<longleftrightarrow> run_id r' = run_id r \<and> run_env r' = run_env r \<and> run_task r' = run_task r \<and>
     run_plan_hash r' = run_plan_hash r \<and> run_plan_json r' = run_plan_json r \<and>
     run_moves (run_status r) (run_status r')"

lemma same_run_refl [simp]: "same_run r r"
  by (simp add: same_run_def)

lemma list_all2_modify:
  "(\<And>r. r \<in> set rs \<Longrightarrow> p r \<Longrightarrow> R r (f r)) \<Longrightarrow> (\<And>r. R r r) \<Longrightarrow> list_all2 R rs (modify p f rs)"
  by (induction rs) auto

definition runs_advance :: "db \<Rightarrow> db \<Rightarrow> bool" where
  "runs_advance d d' \<longleftrightarrow> list_all2 same_run (runs d) (runs d') \<and> run_seq d' = run_seq d"

lemma board_advance_aux:
  assumes "list_all2 same_run rs rs'"
  defines "g \<equiv> map (\<lambda>r. (run_id r, (run_env r, run_status r)))"
  shows "map run_id rs' = map run_id rs"
    and "dom (map_of (g rs')) = dom (map_of (g rs))"
    and "map_of (g rs) i = Some (e, s) \<Longrightarrow> \<exists>t. map_of (g rs') i = Some (e, t) \<and> run_moves s t"
  using assms(1) unfolding g_def
  by (induction rule: list_all2_induct) (auto simp: same_run_def split: if_splits)

lemma runs_advance_ids: "runs_advance d d' \<Longrightarrow> ids_ok d \<Longrightarrow> ids_ok d'"
proof -
  assume a: "runs_advance d d'" and i: "ids_ok d"
  have m: "map run_id (runs d') = map run_id (runs d)"
    using a by (simp add: runs_advance_def board_advance_aux(1))
  then have "run_id ` set (runs d') = run_id ` set (runs d)" by (metis set_map)
  then have "\<forall>r \<in> set (runs d'). run_id r \<le> run_seq d" using i unfolding ids_ok_def
    by (metis (no_types, lifting) imageE imageI)
  with i m a show ?thesis by (simp add: ids_ok_def runs_advance_def)
qed

lemma runs_advance_board: "runs_advance d d' \<Longrightarrow> board_step (lock_view d) (lock_view d')"
proof -
  assume a: "runs_advance d d'"
  then have l: "list_all2 same_run (runs d) (runs d')" by (simp add: runs_advance_def)
  have "run_seq d' = run_seq d" using a by (simp add: runs_advance_def)
  moreover have "dom (board d') = dom (board d)"
    unfolding board_def by (rule board_advance_aux(2) [OF l])
  moreover have "\<forall>i e s. board d i = Some (e, s) \<longrightarrow> (\<exists>t. board d' i = Some (e, t) \<and> run_moves s t)"
    unfolding board_def by (blast dest: board_advance_aux(3) [OF l])
  ultimately show ?thesis unfolding lock_view_def by (simp add: board_step.moved)
qed

lemma runs_advance_refl: "runs d' = runs d \<Longrightarrow> run_seq d' = run_seq d \<Longrightarrow> runs_advance d d'"
  by (simp add: runs_advance_def list_all2_refl)

lemma runs_advance_modify:
  "runs d' = modify p f (runs d) \<Longrightarrow> run_seq d' = run_seq d \<Longrightarrow>
     (\<And>r. p r \<Longrightarrow> same_run r (f r)) \<Longrightarrow> runs_advance d d'"
  by (simp add: runs_advance_def list_all2_modify)


section \<open>What each operation does to the runs\<close>

lemma snd_split: "(case x of (a, b) \<Rightarrow> (f a b, g a b)) = (f (fst x) (snd x), g (fst x) (snd x))"
  by (cases x) simp

lemma insert_stage_phases_other [simp]:
  "runs (insert_stage_phases t n ss d) = runs d" "results (insert_stage_phases t n ss d) = results d"
  "tasks (insert_stage_phases t n ss d) = tasks d" "envs (insert_stage_phases t n ss d) = envs d"
  "steps (insert_stage_phases t n ss d) = steps d" "run_seq (insert_stage_phases t n ss d) = run_seq d"
  "task_seq (insert_stage_phases t n ss d) = task_seq d"
  by (induction t n ss d rule: insert_stage_phases.induct) (simp_all add: insert_phase_def)

lemma insert_step_other [simp]:
  "runs (snd (insert_step d row)) = runs d" "results (snd (insert_step d row)) = results d"
  "run_seq (snd (insert_step d row)) = run_seq d" "tasks (snd (insert_step d row)) = tasks d"
  "phases (snd (insert_step d row)) = phases d"
  by (simp_all add: insert_step_def)

lemma upsert_runtimes_other [simp]:
  "runs (upsert_runtimes rs d) = runs d" "results (upsert_runtimes rs d) = results d"
  "run_seq (upsert_runtimes rs d) = run_seq d" "tasks (upsert_runtimes rs d) = tasks d"
  "phases (upsert_runtimes rs d) = phases d" "steps (upsert_runtimes rs d) = steps d"
  "envs (upsert_runtimes rs d) = envs d"
  by (induction rs arbitrary: d) simp_all

lemma close_pending_other [simp]:
  "runs (close_pending now rid k m d) = runs d" "run_seq (close_pending now rid k m d) = run_seq d"
  "tasks (close_pending now rid k m d) = tasks d" "phases (close_pending now rid k m d) = phases d"
  "steps (close_pending now rid k m d) = steps d" "envs (close_pending now rid k m d) = envs d"
  by (simp_all add: close_pending_def)

lemma skip_open_phases_other [simp]:
  "runs (skip_open_phases now t d) = runs d" "run_seq (skip_open_phases now t d) = run_seq d"
  "results (skip_open_phases now t d) = results d" "tasks (skip_open_phases now t d) = tasks d"
  "envs (skip_open_phases now t d) = envs d"
  by (simp_all add: skip_open_phases_def)

lemma close_open_units_other [simp]:
  "runs (close_open_units now rid k m n d) = runs d"
  "run_seq (close_open_units now rid k m n d) = run_seq d"
  "tasks (close_open_units now rid k m n d) = tasks d"
  "phases (close_open_units now rid k m n d) = phases d"
  "steps (close_open_units now rid k m n d) = steps d"
  "envs (close_open_units now rid k m n d) = envs d"
  by (simp_all add: close_open_units_def)

lemma fail_running_steps_other [simp]:
  "runs (fail_running_steps now p d) = runs d" "run_seq (fail_running_steps now p d) = run_seq d"
  "results (fail_running_steps now p d) = results d" "tasks (fail_running_steps now p d) = tasks d"
  "phases (fail_running_steps now p d) = phases d" "envs (fail_running_steps now p d) = envs d"
  by (simp_all add: fail_running_steps_def)

lemma close_open_phases_other [simp]:
  "runs (close_open_phases now p d) = runs d" "run_seq (close_open_phases now p d) = run_seq d"
  "results (close_open_phases now p d) = results d" "tasks (close_open_phases now p d) = tasks d"
  "steps (close_open_phases now p d) = steps d" "envs (close_open_phases now p d) = envs d"
  by (simp_all add: close_open_phases_def)


lemma list_all2_map_self: "list_all2 R rs (map h rs) \<longleftrightarrow> (\<forall>r \<in> set rs. R r (h r))"
  by (induction rs) auto

lemmas advance_rules = runs_advance_def modify_def list_all2_map_self list_all2_refl same_run_def
  run_moves_def

lemma transaction_advances: "runs_advance d (snd (m d)) \<Longrightarrow> runs_advance d (snd (transaction m d))"
  using transaction_snd [of m d] runs_advance_refl [of d d] by auto

lemma claim_advances: "runs_advance d (snd (claim_deployment_run now rid d))"
  unfolding claim_deployment_run_def
  by (rule transaction_advances)
     (auto simp: claim_tx_def Let_def advance_rules split: list.split prod.split)

lemma request_advances: "runs_advance d (snd (request_cancellation now rid actor d))"
proof -
  have "runs_advance d (snd (request_cancellation_tx now rid a d))" for a
    by (auto simp: request_cancellation_tx_def cancel_queued_run_def Let_def advance_rules
        split: option.split)
  then show ?thesis
    by (simp add: request_cancellation_def Let_def runs_advance_refl transaction_advances)
qed

lemma start_unit_advances: "runs_advance d (snd (start_unit_result now rid task item d))"
  unfolding start_unit_result_def
  by (auto intro!: transaction_advances simp: start_unit_tx_def Let_def snd_split runs_advance_refl
      split: prod.split)

lemma persist_runs [simp]:
  "runs (persist_unit_outcome now rid task sid e nodes item oc d) = runs d"
  "run_seq (persist_unit_outcome now rid task sid e nodes item oc d) = run_seq d"
  by (auto simp: persist_unit_outcome_def Let_def split: prod.split unit_outcome.split)

lemma final_run_status_moves: "final_run_status a b c x \<in> set (run_next RunRunning)"
  by (simp add: final_run_status_def)

lemma confirmed_status_moves:
  "confirmed_status a b \<in> set (run_next RunRunning)" "confirmed_status a b \<in> set (run_next RunQueued)"
  "confirmed_status a b \<in> set (run_next RunReconciling)"
  by (simp_all add: confirmed_status_def)

lemma finalize_advances: "runs_advance d (snd (finalize_deployment_run now rid plan c d))"
  using final_run_status_moves
  by (auto simp: finalize_deployment_run_def Let_def advance_rules split: option.split prod.split)

lemma confirm_advances: "runs_advance d (snd (confirm_interrupted_run_stopped now rid actor why d))"
proof -
  have "runs_advance d (snd (confirm_tx now rid a w d))" for a w
    using confirmed_status_moves(3)
    by (auto simp: confirm_tx_def Let_def advance_rules split: option.split prod.split)
  then show ?thesis
    by (simp add: confirm_interrupted_run_stopped_def Let_def runs_advance_refl transaction_advances)
qed

lemma fail_advances: "runs_advance d (snd (fail_run_on_internal_error now rid message d))"
proof -
  have "runs_advance d (snd (fail_run_tx now rid m d))" for m
    using confirmed_status_moves(1,2)
    by (auto simp: fail_run_tx_def Let_def advance_rules split: option.split prod.split)
  then show ?thesis by (simp add: fail_run_on_internal_error_def transaction_advances)
qed


lemma find_rev_None: "find p (rev xs) = None \<longleftrightarrow> (\<forall>x \<in> set xs. \<not> p x)"
  by (auto simp: find_None_iff)

lemma create_run_Inr:
  assumes "create_run env inp d = (Inr (rid, task, plan), d')"
  obtains json d2 where
    "\<forall>r \<in> set (runs d). run_env r = ci_environment inp \<longrightarrow> \<not> active_run (run_status r)"
    "trim (ci_expected_hash inp) \<noteq> []"
    "load_deployment_plan env d (ci_environment inp) (ci_release inp) (ci_mode inp) = Inr plan"
    "plan_hash plan = ci_expected_hash inp"
    "\<not> task_insert_refused d (new_deploy_task inp plan)"
    "plan_to_json env plan = Some json"
    "\<forall>r \<in> set (runs d). run_env r = plan_environment_id plan \<longrightarrow> \<not> active_run (run_status r)"
    "rid = run_seq d + 1" "task = task_seq d + 1"
    "d2 = insert_stage_phases task 1 (sort_dedup (map item_stage_no (plan_items plan)))
       (d\<lparr>tasks := tasks d @ [(new_deploy_task inp plan)\<lparr>task_id := task\<rparr>], task_seq := task,
          runs := runs d @ [(new_run inp plan task json)\<lparr>run_id := rid\<rparr>], run_seq := rid\<rparr>)"
    "d' = d2\<lparr>results := results d @ map (new_result rid) (plan_items plan)\<rparr>"
proof -
  have tx: "create_run_tx env inp d = (Inr (rid, task, plan), d')"
    and h: "trim (ci_expected_hash inp) \<noteq> []"
    using assms by (auto simp: create_run_def transaction_Inr split: if_splits)
  have n: "find (\<lambda>r. run_env r = ci_environment inp \<and> active_run (run_status r)) (rev (runs d)) = None"
    using tx by (auto simp: create_run_tx_def split: option.splits)
  have l: "load_deployment_plan env d (ci_environment inp) (ci_release inp) (ci_mode inp) = Inr plan"
    and hash: "plan_hash plan = ci_expected_hash inp"
    using tx n by (auto simp: create_run_tx_def Let_def split: sum.splits if_splits option.splits)
  obtain t1 d1 where t: "insert_task d (new_deploy_task inp plan) = Some (t1, d1)"
    using tx n l hash by (auto simp: create_run_tx_def split: option.splits)
  obtain json where j: "plan_to_json env plan = Some json"
    using tx n l hash t by (auto simp: create_run_tx_def split: option.splits)
  obtain r1 d2 where r: "insert_run d1 (new_run inp plan t1 json) = Some (r1, d2)"
    using tx n l hash t j by (auto simp: create_run_tx_def split: option.splits)
  have e: "r1 = rid" "t1 = task"
    "d' = insert_stage_phases task 1 (sort_dedup (map item_stage_no (plan_items plan))) d2
       \<lparr>results := results (insert_stage_phases task 1 (sort_dedup (map item_stage_no (plan_items plan))) d2)
          @ map (new_result rid) (plan_items plan)\<rparr>"
    using tx n l hash t j r by (auto simp: create_run_tx_def Let_def)
  have act: "active_run (run_status (new_run inp plan t1 json))"
    "run_env (new_run inp plan t1 json) = plan_environment_id plan"
    by (simp_all add: new_run_def active_run_def)
  show thesis
    by (rule that [OF _ h l hash _ j _ _ _ refl])
       (use t r e act n in \<open>auto simp: insert_task_Some insert_run_Some find_rev_None\<close>)
qed

lemma create_board: "ids_ok d \<Longrightarrow> create_run env inp d = (res, d') \<Longrightarrow>
   ids_ok d' \<and> board_step (lock_view d) (lock_view d')"
proof (cases res)
  case (Inl e)
  assume "ids_ok d" "create_run env inp d = (res, d')"
  then show ?thesis using Inl runs_advance_board [OF runs_advance_refl [of d d]]
    by (auto simp: create_run_def transaction_Inl split: if_splits)
next
  case (Inr x)
  assume i: "ids_ok d" and c: "create_run env inp d = (res, d')"
  obtain rid task plan where x: "x = (rid, task, plan)" by (cases x)
  obtain r where r: "runs d' = runs d @ [r]" "run_seq d' = run_seq d + 1" "run_id r = run_seq d + 1"
    "run_status r = RunQueued"
    and free: "\<forall>q \<in> set (runs d). run_env q = run_env r \<longrightarrow> \<not> active_run (run_status q)"
    by (rule create_run_Inr [OF c [unfolded Inr x]])
       (auto simp: new_run_def)
  have fresh: "\<forall>q \<in> set (runs d). run_id q \<noteq> run_id r" using i r(3) by (auto simp: ids_ok_def)
  have ids: "ids_ok d'" using i r fresh by (force simp: ids_ok_def)
  have none: "board d (run_id r) = None"
    using fresh by (auto simp: board_def map_of_eq_None_iff)
  have b: "board d' = (board d)(run_id r \<mapsto> (run_env r, RunQueued))"
    unfolding board_def r(1) using none r(4)
    by (auto simp: board_def map_add_def fun_eq_iff split: option.split)
  have "\<forall>j s. board d j = Some (run_env r, s) \<longrightarrow> \<not> active_run s"
    using free by (auto simp: board_def dest!: map_of_SomeD)
  from board_step.opened [of "board d", OF this, of "run_seq d"] ids b r(2,3)
  show ?thesis by (simp add: lock_view_def)
qed

lemma foldl_modify:
  assumes step: "\<And>d i. g (F d i) = modify (\<lambda>r. k r = i \<and> P r) f (g d)"
    and P: "\<And>r. P r \<Longrightarrow> \<not> P (f r)" and k: "\<And>r. k (f r) = k r"
  shows "g (foldl F d is) = modify (\<lambda>r. k r \<in> set is \<and> P r) f (g d)"
proof (induction "is" arbitrary: d)
  case Nil
  then show ?case by (simp add: modify_id_when)
next
  case (Cons i "is")
  show ?case
    by (simp only: foldl_Cons Cons step) (auto simp: modify_def P k)
qed

definition restart_canceled :: "time \<Rightarrow> run_row \<Rightarrow> run_row" where
  "restart_canceled now r = r\<lparr>run_status := RunCanceled, run_summary := RestartCanceledRun,
                  run_finished := Some now\<rparr>"

definition restart_locked :: "run_row \<Rightarrow> run_row" where
  "restart_locked r = r\<lparr>run_status := RunReconciling, run_summary := RestartReconciling\<rparr>"

lemma foldl_const: "(\<And>d i. g (F d i) = g d) \<Longrightarrow> g (foldl F d is) = g d"
  by (induction "is" arbitrary: d) auto

lemma runs_in_set: "set (runs_in s d) = {run_id r |r. r \<in> set (runs d) \<and> run_status r = s}"
  by (auto simp: runs_in_def)

lemma modify_self_key:
  "modify (\<lambda>r. k r \<in> {k q |q. q \<in> set rs \<and> P q} \<and> P r) f rs = modify P f rs"
  by (auto simp: modify_def)

lemma reconcile_runs:
  assumes "reconcile_interrupted_runs now d = (res, d')"
  shows "runs d' = map (\<lambda>r. if run_status r = RunQueued then restart_canceled now r
           else if run_status r = RunRunning then restart_locked r else r) (runs d)"
    and "run_seq d' = run_seq d"
proof -
  define d1 where "d1 = foldl (cancel_run_after_restart now) d (runs_in RunQueued d)"
  have d': "d' = foldl (interrupt_run_after_restart now) d1 (runs_in RunRunning d1)"
    using assms by (simp add: reconcile_interrupted_runs_def Let_def d1_def)
  have 1: "runs d1 = modify (\<lambda>r. run_status r = RunQueued) (restart_canceled now) (runs d)"
    unfolding d1_def
    by (subst foldl_modify [of runs _ run_id "\<lambda>r. run_status r = RunQueued" "restart_canceled now"])
       (auto simp: cancel_run_after_restart_def Let_def restart_canceled_def [abs_def] runs_in_set modify_def)
  have 2: "runs d' = modify (\<lambda>r. run_status r = RunRunning) restart_locked (runs d1)"
    unfolding d'
    by (subst foldl_modify [of runs _ run_id "\<lambda>r. run_status r = RunRunning" "restart_locked"])
       (auto simp: interrupt_run_after_restart_def Let_def restart_locked_def [abs_def] runs_in_set modify_def)
  show "runs d' = map (\<lambda>r. if run_status r = RunQueued then restart_canceled now r
           else if run_status r = RunRunning then restart_locked r else r) (runs d)"
    unfolding 1 2 by (auto simp: modify_def restart_canceled_def)
  have "run_seq d1 = run_seq d" unfolding d1_def
    by (rule foldl_const) (simp add: cancel_run_after_restart_def Let_def)
  then show "run_seq d' = run_seq d" unfolding d'
    by (subst foldl_const) (simp_all add: interrupt_run_after_restart_def Let_def)
qed

lemma reconcile_advances: "runs_advance d (snd (reconcile_interrupted_runs now d))"
  using reconcile_runs [OF surjective_pairing [of "reconcile_interrupted_runs now d"]]
  by (auto simp: advance_rules restart_canceled_def restart_locked_def)


section \<open>The operations as steps of the database\<close>

datatype orch_call =
    CallCreate create_input
  | CallClaim time int
  | CallCancel time int ustr
  | CallStart time int int plan_item
  | CallPersist time int int int int "int list" plan_item unit_outcome
  | CallClosePending time int ustr memo
  | CallFinalize time int deployment_plan bool
  | CallReconcile time
  | CallConfirm time int ustr ustr
  | CallFail time int ustr

fun perform :: "plan_env \<Rightarrow> orch_call \<Rightarrow> db \<Rightarrow> db" where
  "perform env (CallCreate inp) d = snd (create_run env inp d)"
| "perform env (CallClaim now rid) d = snd (claim_deployment_run now rid d)"
| "perform env (CallCancel now rid actor) d = snd (request_cancellation now rid actor d)"
| "perform env (CallStart now rid task item) d = snd (start_unit_result now rid task item d)"
| "perform env (CallPersist now rid task sid e nodes item oc) d =
     persist_unit_outcome now rid task sid e nodes item oc d"
| "perform env (CallClosePending now rid kind summary) d = close_pending now rid kind summary d"
| "perform env (CallFinalize now rid plan canceled) d =
     snd (finalize_deployment_run now rid plan canceled d)"
| "perform env (CallReconcile now) d = snd (reconcile_interrupted_runs now d)"
| "perform env (CallConfirm now rid actor why) d =
     snd (confirm_interrupted_run_stopped now rid actor why d)"
| "perform env (CallFail now rid message) d = snd (fail_run_on_internal_error now rid message d)"

definition retained :: "db \<Rightarrow> db \<Rightarrow> bool" where
  "retained d d' \<longleftrightarrow> run_seq d' = run_seq d \<and>
     (\<exists>keep f. runs d' = map f (filter keep (runs d)) \<and>
        (\<forall>r. run_id (f r) = run_id r \<and> run_env (f r) = run_env r \<and> run_status (f r) = run_status r) \<and>
        (\<forall>r. active_run (run_status r) \<longrightarrow> keep r))"

inductive orch_step :: "plan_env \<Rightarrow> db \<Rightarrow> db \<Rightarrow> bool" for env where
  call: "orch_step env d (perform env c d)"
| others: "retained d d' \<Longrightarrow> orch_step env d d'"

inductive later :: "plan_env \<Rightarrow> db \<Rightarrow> db \<Rightarrow> bool" for env where
  now: "later env d d"
| step: "later env d d' \<Longrightarrow> orch_step env d' d'' \<Longrightarrow> later env d d''"

definition fresh_db :: "db \<Rightarrow> bool" where
  "fresh_db d \<longleftrightarrow> runs d = []"

definition reachable :: "plan_env \<Rightarrow> db \<Rightarrow> bool" where
  "reachable env d \<longleftrightarrow> (\<exists>d0. fresh_db d0 \<and> later env d0 d)"

lemma retained_board: "retained d d' \<Longrightarrow> ids_ok d \<Longrightarrow> ids_ok d' \<and> board_step (lock_view d) (lock_view d')"
proof -
  assume r: "retained d d'" and i: "ids_ok d"
  obtain keep f where runs: "runs d' = map f (filter keep (runs d))"
    and f: "\<And>r. run_id (f r) = run_id r" "\<And>r. run_env (f r) = run_env r"
      "\<And>r. run_status (f r) = run_status r"
    and k: "\<And>r. active_run (run_status r) \<Longrightarrow> keep r"
    and seq: "run_seq d' = run_seq d"
    using r by (auto simp: retained_def)
  have dd: "distinct (map run_id rs) \<Longrightarrow> distinct (map run_id (filter keep rs))" for rs
    by (induction rs) auto
  have ids: "ids_ok d'" using i seq dd [of "runs d"] by (auto simp: ids_ok_def runs f o_def)
  let ?g = "\<lambda>rs. map_of (map (\<lambda>r. (run_id r, (run_env r, run_status r))) rs)"
  have b': "board d' = ?g (filter keep (runs d))" by (simp add: board_def runs o_def f)
  have "?g (filter keep rs) i = ?g rs i \<or> (?g (filter keep rs) i = None \<and>
      (\<forall>e s. ?g rs i = Some (e, s) \<longrightarrow> \<not> active_run s))"
    if "distinct (map run_id rs)" for rs i using that
  proof (induction rs)
    case (Cons r rs)
    have "?g (filter keep rs) (run_id r) = None"
      using Cons.prems by (auto simp: map_of_eq_None_iff)
    with Cons k show ?case by auto
  qed simp
  with i have "board_step (lock_view d) (lock_view d')"
    unfolding lock_view_def b' seq unfolding board_def ids_ok_def by (blast intro: board_step.purged)
  with ids show ?thesis by simp
qed

lemma persist_advances: "runs_advance d (persist_unit_outcome now rid task sid e nodes item oc d)"
  by (rule runs_advance_refl) simp_all

lemma close_pending_advances: "runs_advance d (close_pending now rid kind summary d)"
  by (rule runs_advance_refl) simp_all

lemma perform_board: "ids_ok d \<Longrightarrow> ids_ok (perform env c d) \<and> board_step (lock_view d) (lock_view (perform env c d))"
proof (cases c)
  case (CallCreate inp)
  assume "ids_ok d"
  with create_board [of d env inp] CallCreate show ?thesis
    by (metis perform.simps(1) surjective_pairing)
qed (auto intro: runs_advance_ids runs_advance_board claim_advances request_advances
  start_unit_advances finalize_advances reconcile_advances confirm_advances fail_advances
  persist_advances close_pending_advances)

lemma step_board: "orch_step env d d' \<Longrightarrow> ids_ok d \<Longrightarrow> ids_ok d' \<and> board_step (lock_view d) (lock_view d')"
  by (induction rule: orch_step.induct) (auto dest: perform_board retained_board)

lemma reachable_exclusive: "reachable env d \<Longrightarrow> ids_ok d \<and> exclusive (board d)"
proof -
  have "later env d0 d \<Longrightarrow> ids_ok d0 \<Longrightarrow> exclusive (board d0) \<Longrightarrow> ids_ok d \<and> exclusive (board d)"
    for d0
  proof (induction rule: later.induct)
    case (step d d' d'')
    then show ?case using step_board [OF step.hyps(2)]
        exclusive_step [of "lock_view d'" "lock_view d''"] by (simp add: lock_view_def)
  qed simp
  moreover assume "reachable env d"
  ultimately show ?thesis
    by (auto simp: reachable_def fresh_db_def ids_ok_def exclusive_def board_def)
qed

lemma board_row: "ids_ok d \<Longrightarrow> r \<in> set (runs d) \<Longrightarrow> board d (run_id r) = Some (run_env r, run_status r)"
  unfolding board_def by (rule map_of_is_SomeI) (auto simp: ids_ok_def o_def)

lemma board_final:
  assumes "board_step x y" "i \<le> fst x" "\<not> active_run s"
    "snd x i = Some (e, s) \<or> snd x i = None"
  shows "i \<le> fst y \<and> (snd y i = Some (e, s) \<or> snd y i = None)"
  using assms
proof (induction rule: board_step.induct)
  case (moved b' b n)
  show ?case
  proof (cases "b i")
    case None
    then have "b' i = None" using moved.hyps(1) by (metis domIff)
    with moved.prems show ?thesis by simp
  next
    case (Some p)
    then have b: "b i = Some (e, s)" using moved.prems by simp
    then obtain t where t: "b' i = Some (e, t)" "run_moves s t" using moved.hyps(2) by blast
    then have "t = s" using moved.prems(2) by (simp add: run_moves_inactive)
    with t(1) moved.prems(1) show ?thesis by simp
  qed
next
  case (purged b' b n)
  have "b' i = b i \<or> b' i = None" using purged.hyps by (elim allE [of _ i] disjE conjE) simp_all
  with purged.prems show ?case by auto
qed auto

lemma later_final:
  assumes "later env d d'" and "ids_ok d" and "r \<in> set (runs d)" and "\<not> active_run (run_status r)"
  shows "ids_ok d' \<and> run_id r \<le> run_seq d' \<and>
    (board d' (run_id r) = Some (run_env r, run_status r) \<or> board d' (run_id r) = None)"
  using assms
proof (induction rule: later.induct)
  case (now d)
  then show ?case by (simp add: board_row ids_ok_def)
next
  case (step d d' d'')
  then have "ids_ok d'" and p: "fst (lock_view d') \<ge> run_id r"
    "snd (lock_view d') (run_id r) = Some (run_env r, run_status r) \<or>
     snd (lock_view d') (run_id r) = None"
    by (auto simp: lock_view_def)
  with step.hyps(2) have s: "ids_ok d''" "board_step (lock_view d') (lock_view d'')"
    by (auto dest: step_board)
  from board_final [OF s(2) p(1) step.prems(3) p(2)] s(1) show ?case by (simp add: lock_view_def)
qed

end
