(* ===== verification/Run_Operations.thy ===== *)
theory Run_Operations
  imports Lifecycle
begin

text \<open>
  What the operations on runs do: the properties of the lock, then creating, claiming,
  canceling, reconciling after a restart, confirming and failing a run.
\<close>

section \<open>Properties of the lock\<close>

text \<open>
  C2. Every operation of the orchestrator, whatever its arguments and outcome, is a step of
  the lock board: it opens one queued run under a fresh id in an environment nobody holds, or
  it moves runs along the lifecycle and leaves their number and environments alone.
\<close>

theorem operations_refine_lock_board:
  assumes "ids_ok d"
  shows "board_step (lock_view d) (lock_view (perform env c d))"
  using assms by (simp add: perform_board)

lemma sample_at_ok: "ids_ok (sample_at rs ts us)" "ids_ok sample_db"
  by (simp_all add: ids_ok_def)

theorem operations_refine_lock_board_witness:
  "board_step (7, Map.empty) (lock_view sample_created)"
  using operations_refine_lock_board [OF sample_at_ok(2), of sample_env "CallCreate sample_create"]
  by (simp add: sample_create_run lock_view_def board_def)

text \<open>
  C10. At most one run of an environment is queued, running or awaiting reconciliation,
  in every database the operations can reach from one without runs, however they
  interleave.
\<close>

theorem one_active_run_per_environment:
  assumes "reachable env d" and "r \<in> set (runs d)" and "q \<in> set (runs d)"
    and "run_env r = run_env q" and "active_run (run_status r)" and "active_run (run_status q)"
  shows "r = q"
proof -
  have i: "ids_ok d" "exclusive (board d)" using assms(1) by (simp_all add: reachable_exclusive)
  with assms have "run_id r = run_id q"
    unfolding exclusive_def by (metis board_row)
  with i(1) assms(2,3) show ?thesis unfolding ids_ok_def by (blast dest: distinct_map_inj)
qed

lemma later_one: "later env d (perform env c d)"
  by (rule later.step [OF later.now orch_step.call])

lemma sample_reachable: "reachable sample_env sample_created"
  using later_one [of sample_env sample_db "CallCreate sample_create"]
  unfolding reachable_def fresh_db_def
  by (intro exI [of _ sample_db]) (simp add: sample_create_run)

lemma create_run_runs:
  assumes "create_run env inp d = (Inr (rid, task, plan), d')"
  shows "\<exists>json. plan_to_json env plan = Some json \<and>
    runs d' = runs d @ [(new_run inp plan task json)\<lparr>run_id := rid\<rparr>]"
  by (rule create_run_Inr [OF assms]) simp

lemma sample_created_run: "\<exists>r. runs sample_created = [r] \<and> run_id r = 8 \<and> run_env r = 2 \<and>
   run_status r = RunQueued"
  using create_run_runs [OF sample_create_run] by (auto simp: new_run_def sample_run_plan_def)

theorem one_active_run_per_environment_witness:
  "\<exists>r \<in> set (runs sample_created). active_run (run_status r) \<and>
     (\<forall>q \<in> set (runs sample_created). active_run (run_status q) \<and> run_env q = run_env r \<longrightarrow> q = r)"
proof -
  obtain r where r: "r \<in> set (runs sample_created)" "run_status r = RunQueued"
    using sample_created_run by auto
  then have "active_run (run_status r)" by (simp add: active_run_def)
  with r(1) show ?thesis
    using one_active_run_per_environment [OF sample_reachable, of _ r] by blast
qed

text \<open>
  C11. A run that has ended is never touched by the lifecycle again: in every later
  database a run with its id has the same environment and status.
\<close>

theorem ended_runs_stay_ended:
  assumes "later env d d'" and "ids_ok d" and "r \<in> set (runs d)" and "\<not> active_run (run_status r)"
    and "r' \<in> set (runs d')" and "run_id r' = run_id r"
  shows "run_env r' = run_env r \<and> run_status r' = run_status r"
  using later_final [OF assms(1-4)] board_row [of d' r'] assms(5,6) by auto

theorem ended_runs_stay_ended_witness:
  "filter (\<lambda>r'. run_id r' = 8 \<and> run_status r' \<noteq> RunCanceled)
     (runs (perform sample_env (CallReconcile 9) (sample_at RunCanceled TaskCanceled []))) = []"
proof -
  let ?d = "sample_at RunCanceled TaskCanceled []"
  have "later sample_env ?d (perform sample_env (CallReconcile 9) ?d)"
    by (rule later_one)
  from ended_runs_stay_ended [OF this sample_at_ok(1), of "sample_run RunCanceled"]
  show ?thesis by (simp add: active_run_def filter_empty_conv)
qed

section \<open>Properties of creating a run\<close>

lemma create_run_Inl: "create_run env inp d = (Inl e, d') \<Longrightarrow> d' = d"
  by (auto simp: create_run_def transaction_Inl split: if_splits)

text \<open>
  While an environment has an active run, creating another one for it reports a
  conflict that names an active run, and changes nothing.
\<close>

theorem create_run_refused_while_active:
  assumes "trim (ci_expected_hash inp) \<noteq> []"
    and "\<exists>r \<in> set (runs d). run_env r = ci_environment inp \<and> active_run (run_status r)"
  shows "\<exists>r \<in> set (runs d). run_env r = ci_environment inp \<and> active_run (run_status r) \<and>
    create_run env inp d = (Inl (Conflict (ActiveDeployment (run_id r) (run_status r))), d)"
proof -
  let ?p = "\<lambda>r. run_env r = ci_environment inp \<and> active_run (run_status r)"
  obtain r where r: "find ?p (rev (runs d)) = Some r"
    using assms(2) find_rev_None [of ?p "runs d"] by (cases "find ?p (rev (runs d))") auto
  then have "r \<in> set (runs d) \<and> ?p r" by (auto dest: find_SomeD)
  moreover have "create_run env inp d = (Inl (Conflict (ActiveDeployment (run_id r) (run_status r))), d)"
    using r assms(1) by (simp add: create_run_def create_run_tx_def transaction_def)
  ultimately show ?thesis by blast
qed

theorem create_run_refused_while_active_witness:
  "create_run sample_env sample_create (sample_at RunReconciling TaskFailed []) =
     (Inl (Conflict (ActiveDeployment 8 RunReconciling)), sample_at RunReconciling TaskFailed [])"
proof -
  have "\<exists>r \<in> set (runs (sample_at RunReconciling TaskFailed [])).
      run_env r = ci_environment sample_create \<and> active_run (run_status r)"
    by (simp add: active_run_def sample_create_def)
  from create_run_refused_while_active [OF sample_hash this, of sample_env]
  show ?thesis by fastforce
qed

lemma insert_stage_phases_phases:
  "map (\<lambda>p. (phase_task p, phase_no p, phase_key p, phase_status p)) (phases (insert_stage_phases t n ss d)) =
   map (\<lambda>p. (phase_task p, phase_no p, phase_key p, phase_status p)) (phases d) @
   map2 (\<lambda>s k. (t, n + int k, stage_phase_key s, StepPending)) ss [0..<length ss]"
proof (induction ss arbitrary: n d)
  case (Cons s ss)
  have "[0..<length (s # ss)] = 0 # map Suc [0..<length ss]" by (simp add: upt_conv_Cons map_Suc_upt del: upt_Suc)
  then show ?case
    by (simp add: Cons.IH insert_phase_def zip_map2 o_def case_prod_beta add_ac del: upt_Suc)
qed simp

lemma create_run_effect:
  assumes "create_run env inp d = (Inr (rid, task, plan), d')"
  shows "load_deployment_plan env d (ci_environment inp) (ci_release inp) (ci_mode inp) = Inr plan"
    and "plan_hash plan = ci_expected_hash inp" and "rid = run_seq d + 1" and "task = task_seq d + 1"
    and "tasks d' = tasks d @ [(new_deploy_task inp plan)\<lparr>task_id := task\<rparr>]"
    and "results d' = results d @ map (new_result rid) (plan_items plan)"
    and "map (\<lambda>p. (phase_task p, phase_no p, phase_key p, phase_status p)) (phases d') =
      map (\<lambda>p. (phase_task p, phase_no p, phase_key p, phase_status p)) (phases d) @
      map2 (\<lambda>s k. (task, 1 + int k, stage_phase_key s, StepPending))
        (sort_dedup (map item_stage_no (plan_items plan)))
        [0..<length (sort_dedup (map item_stage_no (plan_items plan)))]"
  by (rule create_run_Inr [OF assms]; simp add: insert_stage_phases_phases)+

text \<open>
  C12. A created run is the confirmed preview: the plan is the one the preview computes and
  has the confirmed hash, the environment was free, and the database gains exactly one queued run
  that stores the plan, one queued task, a pending phase per distinct stage in ascending
  order, and one result per plan item, skipped for a skip and pending otherwise.
\<close>

theorem create_run_records_the_plan:
  assumes "create_run env inp d = (Inr (rid, task, plan), d')"
  defines "stages \<equiv> sort_dedup (map item_stage_no (plan_items plan))"
  shows "fst (preview env (ci_environment inp) (ci_release inp) (ci_mode inp) d) = Inr plan \<and>
    plan_hash plan = ci_expected_hash inp \<and>
    (\<forall>r \<in> set (runs d). run_env r = ci_environment inp \<longrightarrow> \<not> active_run (run_status r)) \<and>
    (\<exists>r json. runs d' = runs d @ [r] \<and> run_id r = rid \<and> run_status r = RunQueued \<and>
      run_task r = Some task \<and> run_plan_hash r = plan_hash plan \<and>
      plan_to_json env plan = Some json \<and> run_plan_json r = json) \<and>
    (\<exists>t. tasks d' = tasks d @ [t] \<and> task_id t = task \<and> task_status t = TaskQueued) \<and>
    map (\<lambda>p. (phase_task p, phase_no p, phase_key p, phase_status p)) (drop (length (phases d)) (phases d')) =
      map2 (\<lambda>s k. (task, 1 + int k, stage_phase_key s, StepPending)) stages [0..<length stages] \<and>
    map (\<lambda>r. (res_run r, res_unit r, res_action r, res_status r)) (drop (length (results d)) (results d')) =
      map (\<lambda>i. (rid, item_unit_id i, item_action i,
        if item_action i = Skip then UnitSkipped else UnitPending)) (plan_items plan)"
proof -
  note e = create_run_effect [OF assms(1)]
  have "\<forall>r \<in> set (runs d). run_env r = ci_environment inp \<longrightarrow> \<not> active_run (run_status r)"
    by (rule create_run_Inr [OF assms(1)])
  moreover obtain json where "plan_to_json env plan = Some json"
    "runs d' = runs d @ [(new_run inp plan task json)\<lparr>run_id := rid\<rparr>]"
    using create_run_runs [OF assms(1)] by blast
  moreover have "map (\<lambda>p. (phase_task p, phase_no p, phase_key p, phase_status p))
      (drop (length (phases d)) (phases d')) =
      map2 (\<lambda>s k. (task, 1 + int k, stage_phase_key s, StepPending)) stages [0..<length stages]"
    unfolding drop_map [symmetric] e(7) stages_def by simp
  ultimately show ?thesis
    using e by (simp add: preview_def new_deploy_task_def new_run_def new_result_def)
qed

theorem create_run_records_the_plan_witness:
  "plan_to_json sample_env sample_run_plan = Some (run_plan_json (hd (runs sample_created))) \<and>
   map res_unit (results sample_created) = [3, 1, 2]"
  using create_run_records_the_plan [OF sample_create_run]
  by (auto simp: sample_run_plan_def sample_item_def map_eq_Cons_conv)

section \<open>Claiming\<close>

lemma claim_Inr:
  assumes "claim_deployment_run now rid d = (Inr x, d')"
  obtains r t e where "r \<in> set (runs d)" "run_id r = rid" "run_status r = RunQueued"
    "run_task r = Some t" "e \<in> set (envs d)" "env_id e = run_env r"
    "affected (\<lambda>r. run_id r = rid \<and> run_status r = RunQueued) (runs d) = 1"
    "affected (\<lambda>q. task_id q = t \<and> task_status q = TaskQueued) (tasks d) = 1"
    "x = \<lparr> ex_task = t, ex_environment = run_env r, ex_plan_hash = run_plan_hash r,
       ex_plan_json = run_plan_json r, ex_max_parallel = env_max_parallel e,
       ex_cancel_requested = run_cancel_requested r \<rparr>"
    "runs d' = modify (\<lambda>r. run_id r = rid \<and> run_status r = RunQueued)
       (\<lambda>r. r\<lparr>run_status := RunRunning, run_started := Some now\<rparr>) (runs d)"
    "tasks d' = modify (\<lambda>q. task_id q = t \<and> task_status q = TaskQueued)
       (\<lambda>q. q\<lparr>task_status := TaskRunning, task_phase := lit ''executing'',
          task_command := lit ''execute immutable deployment plan'', task_started := Some now\<rparr>) (tasks d)"
    "results d' = results d" "phases d' = phases d" "steps d' = steps d"
proof -
  define cs where "cs = claim_rows d rid"
  have tx: "claim_tx now rid d = (Inr x, d')"
    using assms by (simp add: claim_deployment_run_def transaction_Inr)
  then obtain r t e rest where cs: "cs = (r, t, e) # rest"
    unfolding claim_tx_def cs_def [symmetric] by (cases cs) auto
  then have "(r, t, e) \<in> set cs" by simp
  then have row: "r \<in> set (runs d)" "run_id r = rid" "run_status r = RunQueued" "run_task r = Some t"
    "e \<in> set (envs d)" "env_id e = run_env r"
    unfolding cs_def claim_rows_def by (auto split: option.splits if_splits)
  show thesis
    using tx unfolding claim_tx_def cs_def [symmetric] cs
    by (intro that [OF row]) (auto simp: Let_def split: if_splits)
qed

lemma board_left_queue:
  assumes "board_step x y" "i \<le> fst x" "\<forall>e s. snd x i = Some (e, s) \<longrightarrow> s \<noteq> RunQueued"
  shows "i \<le> fst y \<and> (\<forall>e s. snd y i = Some (e, s) \<longrightarrow> s \<noteq> RunQueued)"
  using assms
proof (induction rule: board_step.induct)
  case (moved b' b n)
  have "s \<noteq> RunQueued" if b': "b' i = Some (e, s)" for e s
  proof -
    have "i \<in> dom b" using b' moved.hyps(1) by auto
    then obtain f t where b: "b i = Some (f, t)" by auto
    then obtain u where "b' i = Some (f, u)" "run_moves t u" using moved.hyps(2) by blast
    moreover have "t \<noteq> RunQueued" using b moved.prems(2) by simp
    ultimately show ?thesis using b' by (cases t) (auto simp: run_moves_def)
  qed
  with moved.prems(1) show ?case by simp
next
  case (purged b' b n)
  have "b' i = b i \<or> b' i = None" using purged.hyps by (elim allE [of _ i] disjE conjE) simp_all
  with purged.prems show ?case by auto
qed auto

lemma later_left_queue:
  assumes "later env d d'" and "ids_ok d" and "r \<in> set (runs d)" and "run_status r \<noteq> RunQueued"
  shows "ids_ok d' \<and> run_id r \<le> run_seq d' \<and>
    (\<forall>e s. board d' (run_id r) = Some (e, s) \<longrightarrow> s \<noteq> RunQueued)"
  using assms
proof (induction rule: later.induct)
  case (now d)
  then show ?case using board_row [of d r] by (auto simp: ids_ok_def)
next
  case (step d d' d'')
  then have "ids_ok d'" and p: "fst (lock_view d') \<ge> run_id r"
    "\<forall>e s. snd (lock_view d') (run_id r) = Some (e, s) \<longrightarrow> s \<noteq> RunQueued"
    by (auto simp: lock_view_def)
  with step.hyps(2) have s: "ids_ok d''" "board_step (lock_view d') (lock_view d'')"
    by (auto dest: step_board)
  from board_left_queue [OF s(2) p] s(1) show ?case by (simp add: lock_view_def)
qed

lemma claim_not_queued:
  assumes "\<And>r. r \<in> set (runs d) \<Longrightarrow> run_id r = rid \<Longrightarrow> run_status r \<noteq> RunQueued"
  shows "claim_deployment_run now rid d = (Inl (Conflict RunNotClaimable), d)"
proof -
  have "claim_rows d rid = []" using assms by (auto simp: claim_rows_def)
  then show ?thesis
    by (simp add: claim_deployment_run_def claim_tx_def transaction_def)
qed

text \<open>
  C13. A run is executed at most once: a successful claim finds it queued and leaves it
  running, and every claim of the same run at any later time, whatever happened in
  between, is refused and changes nothing.
\<close>

theorem run_is_claimed_at_most_once:
  assumes "ids_ok d" and "claim_deployment_run now rid d = (Inr x, d1)" and "later env d1 d2"
  shows "(\<exists>r \<in> set (runs d). run_id r = rid \<and> run_status r = RunQueued) \<and>
    (\<exists>r \<in> set (runs d1). run_id r = rid \<and> run_status r = RunRunning \<and> run_started r = Some now) \<and>
    claim_deployment_run now' rid d2 = (Inl (Conflict RunNotClaimable), d2)"
proof -
  obtain r where r: "r \<in> set (runs d)" "run_id r = rid" "run_status r = RunQueued"
    and runs: "runs d1 = modify (\<lambda>r. run_id r = rid \<and> run_status r = RunQueued)
       (\<lambda>r. r\<lparr>run_status := RunRunning, run_started := Some now\<rparr>) (runs d)"
    by (rule claim_Inr [OF assms(2)])
  define r1 where "r1 = r\<lparr>run_status := RunRunning, run_started := Some now\<rparr>"
  have r1: "r1 \<in> set (runs d1)" "run_id r1 = rid" "run_status r1 = RunRunning" "run_started r1 = Some now"
    using r by (auto simp: r1_def runs set_modify image_iff)
  have "ids_ok d1"
    using runs_advance_ids [OF claim_advances [of d now rid] assms(1)] assms(2) by simp
  from later_left_queue [OF assms(3) this r1(1)] r1
  have l: "ids_ok d2" "\<forall>e s. board d2 rid = Some (e, s) \<longrightarrow> s \<noteq> RunQueued" by auto
  have "claim_deployment_run now' rid d2 = (Inl (Conflict RunNotClaimable), d2)"
    by (rule claim_not_queued) (use l in \<open>auto dest: board_row\<close>)
  with r r1 show ?thesis by blast
qed

definition sample_claimed :: db where
  "sample_claimed = snd (claim_deployment_run 5 8 (sample_at RunQueued TaskQueued
     [UnitPending, UnitPending, UnitPending]))"

lemma sample_claim: "claim_deployment_run 5 8 (sample_at RunQueued TaskQueued
     [UnitPending, UnitPending, UnitPending]) = (Inr \<lparr> ex_task = 21, ex_environment = 2, ex_plan_hash = [5, 6],
       ex_plan_json = [5, 6], ex_max_parallel = 2, ex_cancel_requested = None \<rparr>, sample_claimed)"
  by (simp add: sample_claimed_def claim_deployment_run_def claim_tx_def transaction_def Let_def claim_rows_def)
     (simp add: sample_at_def sample_db_def sample_run_def)

theorem run_is_claimed_at_most_once_witness:
  "claim_deployment_run 6 8 (snd (fail_run_on_internal_error 6 8 [] sample_claimed)) =
     (Inl (Conflict RunNotClaimable), snd (fail_run_on_internal_error 6 8 [] sample_claimed))"
  using run_is_claimed_at_most_once [OF sample_at_ok(1) sample_claim, of sample_env
      "perform sample_env (CallFail 6 8 []) sample_claimed" 6] later_one [of sample_env sample_claimed "CallFail 6 8 []"]
  by simp

section \<open>Canceling\<close>

lemma ball_modify:
  "(\<forall>x \<in> set (modify p f xs). Q x) \<longleftrightarrow> (\<forall>x \<in> set xs. if p x then Q (f x) else Q x)"
  by (auto simp: set_modify)

lemma in_modify: "r \<in> set rs \<Longrightarrow> p r \<Longrightarrow> x = f r \<Longrightarrow> x \<in> set (modify p f rs)"
  by (auto simp: set_modify)

lemma find_run_modify:
  "runs d' = modify p f (runs d) \<Longrightarrow> (\<And>r. run_id (f r) = run_id r) \<Longrightarrow>
     find_run d' rid = map_option (\<lambda>r. if p r then f r else r) (find_run d rid)"
  by (simp add: find_run_def find_modify)

lemma run_of_same:
  "runs d' = runs d \<Longrightarrow> find_run d' rid = find_run d rid"
  "runs d' = runs d \<Longrightarrow> run_env_of d' rid = run_env_of d rid"
  "runs d' = runs d \<Longrightarrow> run_task_of d' rid = run_task_of d rid"
  by (simp_all add: find_run_def run_env_of_def run_task_of_def)

lemma run_of_modify:
  assumes "runs d' = modify p f (runs d)" and "\<And>r. run_id (f r) = run_id r"
  shows "(\<And>r. run_env (f r) = run_env r) \<Longrightarrow> run_env_of d' rid = run_env_of d rid"
    and "(\<And>r. run_task (f r) = run_task r) \<Longrightarrow> run_task_of d' rid = run_task_of d rid"
  using find_run_modify [of d' p f d rid] assms
  by (cases "find_run d rid"; simp add: run_env_of_def run_task_of_def)+

lemma find_cancelable:
  assumes "ids_ok d" and "r \<in> set (runs d)" and "run_id r = rid" and "run_task r = Some t"
  shows "find (\<lambda>r. run_id r = rid \<and> run_task r \<noteq> None) (runs d) = Some r"
  by (rule find_unique) (use assms in \<open>auto simp: ids_ok_def dest: distinct_map_inj\<close>)

lemma find_run_row: "ids_ok d \<Longrightarrow> r \<in> set (runs d) \<Longrightarrow> run_id r = rid \<Longrightarrow> find_run d rid = Some r"
  unfolding find_run_def ids_ok_def by (rule find_key) auto

lemma cancel_queued_effect:
  fixes d now rid task actor
  defines "d' \<equiv> cancel_queued_run now rid task actor d"
  shows "runs d' = modify (\<lambda>r. run_id r = rid \<and> run_status r = RunQueued)
           (\<lambda>r. r\<lparr>run_status := RunCanceled, run_summary := CanceledBeforeClaim,
                  run_finished := Some now\<rparr>) (runs d)"
    and "\<forall>res \<in> set (results d'). res_run res = rid \<longrightarrow> res_status res \<noteq> UnitPending"
    and "\<forall>t \<in> set (tasks d'). task_id t = task \<longrightarrow> task_status t \<noteq> TaskQueued"
    and "\<forall>p \<in> set (phases d'). phase_task p = task \<longrightarrow> \<not> open_step (phase_status p)"
    and "\<forall>e \<in> set (envs d'). run_env_of d rid = Some (env_id e) \<longrightarrow> env_last_deploy e = LastCanceled"
proof -
  show runs: "runs d' = modify (\<lambda>r. run_id r = rid \<and> run_status r = RunQueued)
           (\<lambda>r. r\<lparr>run_status := RunCanceled, run_summary := CanceledBeforeClaim,
                  run_finished := Some now\<rparr>) (runs d)"
    by (simp add: d'_def cancel_queued_run_def Let_def)
  show "\<forall>res \<in> set (results d'). res_run res = rid \<longrightarrow> res_status res \<noteq> UnitPending"
    by (simp add: d'_def cancel_queued_run_def Let_def close_pending_def ball_modify)
  show "\<forall>t \<in> set (tasks d'). task_id t = task \<longrightarrow> task_status t \<noteq> TaskQueued"
    by (simp add: d'_def cancel_queued_run_def Let_def ball_modify)
  show "\<forall>p \<in> set (phases d'). phase_task p = task \<longrightarrow> \<not> open_step (phase_status p)"
    by (simp add: d'_def cancel_queued_run_def Let_def skip_open_phases_def ball_modify open_step_def)
  have "run_env_of d'' rid = run_env_of d rid" if "runs d'' = runs d'" for d''
    by (rule run_of_modify(1) [OF trans [OF that runs]]) simp_all
  then show "\<forall>e \<in> set (envs d'). run_env_of d rid = Some (env_id e) \<longrightarrow> env_last_deploy e = LastCanceled"
    by (simp add: d'_def cancel_queued_run_def Let_def ball_modify)
qed

definition flag_cancellation :: "time \<Rightarrow> int \<Rightarrow> ustr \<Rightarrow> db \<Rightarrow> db" where
  "flag_cancellation now rid actor = update_runs
     (\<lambda>r. run_id r = rid \<and> run_status r \<in> {RunQueued, RunRunning} \<and> run_cancel_requested r = None)
     (\<lambda>r. r\<lparr>run_cancel_requested := Some now, run_cancel_by := actor, run_summary := CancelPending\<rparr>)"

lemma request_cancellation_row:
  assumes "ids_ok d" and "r \<in> set (runs d)" and "run_id r = rid" and "run_task r = Some t"
    and "trim actor \<noteq> []"
  shows "request_cancellation now rid actor d =
    (if run_status r \<notin> {RunQueued, RunRunning} then (Inl (Conflict (CannotCancel (run_status r))), d)
     else if run_cancel_requested r \<noteq> None then (Inr False, d)
     else if run_status r = RunQueued
       then (Inr True, cancel_queued_run now rid t (trim actor) (flag_cancellation now rid (trim actor) d))
     else (Inr True, append_log t None (lit ''system'') (LogCancelRequested (trim actor))
        (update_tasks (\<lambda>q. task_id q = t \<and> active_task (task_status q))
           (\<lambda>q. q\<lparr>task_summary := TaskCancelRequested (trim actor)\<rparr>)
           (flag_cancellation now rid (trim actor) d))))"
  using find_cancelable [OF assms(1-4)] assms(3-5)
  by (simp add: request_cancellation_def request_cancellation_tx_def transaction_def Let_def
      flag_cancellation_def)

text \<open>
  Canceling a run that is still queued ends it at once: the run is canceled and
  records who asked, none of its units stays pending, its task is no longer queued, its phases
  are closed, the environment shows a canceled deployment, and other runs are as before.
\<close>

theorem canceling_queued_run_ends_it:
  assumes "ids_ok d" and "r \<in> set (runs d)" and "run_id r = rid" and "run_task r = Some t"
    and "run_status r = RunQueued" and "run_cancel_requested r = None" and "trim actor \<noteq> []"
  shows "\<exists>d'. request_cancellation now rid actor d = (Inr True, d') \<and>
    (\<forall>q \<in> set (runs d'). if run_id q = rid then run_status q = RunCanceled \<and> run_cancel_by q = trim actor
       else q \<in> set (runs d)) \<and>
    (\<forall>res \<in> set (results d'). res_run res = rid \<longrightarrow> res_status res \<noteq> UnitPending) \<and>
    (\<forall>q \<in> set (tasks d'). task_id q = t \<longrightarrow> task_status q \<noteq> TaskQueued) \<and>
    (\<forall>p \<in> set (phases d'). phase_task p = t \<longrightarrow> \<not> open_step (phase_status p)) \<and>
    (\<forall>e \<in> set (envs d'). env_id e = run_env r \<longrightarrow> env_last_deploy e = LastCanceled)"
proof -
  let ?d1 = "flag_cancellation now rid (trim actor) d"
  let ?d' = "cancel_queued_run now rid t (trim actor) ?d1"
  have "q = r" if "q \<in> set (runs d)" "run_id q = rid" for q
    using assms(1-3) that unfolding ids_ok_def by (blast dest: distinct_map_inj)
  then have only: "\<forall>q \<in> set (runs d). run_id q = rid \<longrightarrow> run_status q = RunQueued \<and>
      run_cancel_requested q = None" using assms(5,6) by blast
  note eff = cancel_queued_effect [where d = ?d1 and now = now and rid = rid and task = t and actor = "trim actor"]
  have "run_env_of ?d1 rid = run_env_of d rid"
    unfolding flag_cancellation_def by (rule run_of_modify(1) [OF update_sel(1)]) simp_all
  then have "run_env_of ?d1 rid = Some (run_env r)"
    using find_run_row [OF assms(1-3)] by (simp add: run_env_of_def)
  moreover have "\<forall>q \<in> set (runs ?d'). if run_id q = rid
      then run_status q = RunCanceled \<and> run_cancel_by q = trim actor else q \<in> set (runs d)"
    using only unfolding eff(1) by (simp add: flag_cancellation_def ball_modify)
  moreover have "request_cancellation now rid actor d = (Inr True, ?d')"
    using request_cancellation_row [OF assms(1-4,7), of now] assms(5,6) by simp
  ultimately show ?thesis using eff(2-5) by (intro exI [of _ ?d']) simp
qed

lemma sample_actor: "trim (lit ''op'') \<noteq> []"
  by (simp add: lit_def trim_def trim_start_def is_white_def)

theorem canceling_queued_run_ends_it_witness:
  "\<exists>d'. request_cancellation 9 8 (lit ''op'') (sample_at RunQueued TaskQueued [UnitPending]) = (Inr True, d') \<and>
     (\<forall>res \<in> set (results d'). res_run res = 8 \<longrightarrow> res_status res \<noteq> UnitPending)"
proof -
  have "sample_run RunQueued \<in> set (runs (sample_at RunQueued TaskQueued [UnitPending]))" by simp
  from canceling_queued_run_ends_it [OF sample_at_ok(1) this sample_row(1,4,3,5) sample_actor, of 9]
  show ?thesis by blast
qed

text \<open>
  Canceling a run that is being executed only leaves a request: every run keeps its
  status, no unit result changes, the executor finds the request before its next wave, and
  a second request, whoever makes it and whenever, succeeds without any further change.
\<close>

theorem canceling_running_run_leaves_a_request:
  assumes "ids_ok d" and "r \<in> set (runs d)" and "run_id r = rid" and "run_task r = Some t"
    and "run_status r = RunRunning" and "run_cancel_requested r = None" and "trim actor \<noteq> []"
  shows "\<exists>d'. request_cancellation now rid actor d = (Inr True, d') \<and>
    map run_status (runs d') = map run_status (runs d) \<and> results d' = results d \<and>
    cancellation_requested d rid = Inr False \<and> cancellation_requested d' rid = Inr True \<and>
    (\<forall>now' other. trim other \<noteq> [] \<longrightarrow> request_cancellation now' rid other d' = (Inr False, d'))"
proof -
  let ?d1 = "flag_cancellation now rid (trim actor) d"
  let ?d' = "append_log t None (lit ''system'') (LogCancelRequested (trim actor))
        (update_tasks (\<lambda>q. task_id q = t \<and> active_task (task_status q))
           (\<lambda>q. q\<lparr>task_summary := TaskCancelRequested (trim actor)\<rparr>) ?d1)"
  let ?r = "r\<lparr>run_cancel_requested := Some now, run_cancel_by := trim actor, run_summary := CancelPending\<rparr>"
  have req: "request_cancellation now rid actor d = (Inr True, ?d')"
    using request_cancellation_row [OF assms(1-4,7), of now] assms(5,6) by simp
  then have "ids_ok ?d'"
    using runs_advance_ids [OF request_advances [of d now rid actor] assms(1)] by (simp only: snd_conv)
  moreover have "?r \<in> set (runs ?d')"
    unfolding flag_cancellation_def append_log_other update_other update_sel
    by (rule in_modify [OF assms(2)]) (use assms(3,5,6) in simp_all)
  moreover have q: "run_id ?r = rid" "run_task ?r = Some t" "run_status ?r = RunRunning"
    "run_cancel_requested ?r \<noteq> None" using assms(3-5) by simp_all
  ultimately have "find_run ?d' rid = Some ?r"
    and "request_cancellation now' rid other ?d' = (Inr False, ?d')" if "trim other \<noteq> []" for now' other
    using request_cancellation_row [of ?d' ?r rid t other now', OF _ _ q(1,2) that] q(3,4)
      find_run_row [of ?d' ?r rid, OF _ _ q(1)]
    by (simp_all del: update_sel append_log_other)
  moreover have "map run_status (runs ?d') = map run_status (runs d)"
    by (simp add: flag_cancellation_def map_modify)
  moreover have "cancellation_requested d rid = Inr False"
    using find_run_row [OF assms(1-3)] assms(6) by (simp add: cancellation_requested_def)
  moreover have "results ?d' = results d" by (simp add: flag_cancellation_def)
  ultimately show ?thesis using req assms(7) q(4)
    by (intro exI [of _ ?d']) (simp add: cancellation_requested_def)
qed

theorem canceling_running_run_leaves_a_request_witness:
  "\<exists>d'. request_cancellation 9 8 (lit ''op'') (sample_at RunRunning TaskRunning [UnitRunning]) = (Inr True, d') \<and>
     cancellation_requested d' 8 = Inr True"
proof -
  have "sample_run RunRunning \<in> set (runs (sample_at RunRunning TaskRunning [UnitRunning]))" by simp
  from canceling_running_run_leaves_a_request [OF sample_at_ok(1) this sample_row(1,4,3,5) sample_actor, of 9]
  show ?thesis by blast
qed

section \<open>After a restart\<close>

lemma reconcile_results:
  assumes "reconcile_interrupted_runs now d = (res, d')"
  shows "\<forall>x \<in> set (results d'). \<forall>r \<in> set (runs d). run_id r = res_run x \<longrightarrow>
      (run_status r = RunQueued \<longrightarrow> res_status x \<noteq> UnitPending) \<and>
      (run_status r = RunRunning \<longrightarrow> \<not> open_unit (res_status x))"
proof -
  define d1 where "d1 = foldl (cancel_run_after_restart now) d (runs_in RunQueued d)"
  have d': "d' = foldl (interrupt_run_after_restart now) d1 (runs_in RunRunning d1)"
    using assms by (simp add: reconcile_interrupted_runs_def Let_def d1_def)
  have "runs d1 = modify (\<lambda>r. run_status r = RunQueued) (restart_canceled now) (runs d)"
    unfolding d1_def
    by (subst foldl_modify [of runs _ run_id "\<lambda>r. run_status r = RunQueued" "restart_canceled now"])
       (auto simp: cancel_run_after_restart_def Let_def restart_canceled_def [abs_def] runs_in_set modify_def)
  then have run1: "set (runs_in RunRunning d1) = set (runs_in RunRunning d)"
    by (auto simp: runs_in_set set_modify restart_canceled_def)
  let ?f = "\<lambda>r. r\<lparr>res_status := UnitNotStarted, res_failure_kind := lit ''process_restarted_before_start'',
              res_failure_summary := RestartUnitNotRun, res_finished := Some now\<rparr>"
  let ?g = "\<lambda>r. r\<lparr>res_status := (if res_status r = UnitRunning then UnitCanceledUnknown else UnitNotStarted),
              res_failure_kind := lit ''process_interrupted'',
              res_failure_summary := (if res_status r = UnitRunning then RestartUnitUnknown else RestartUnitSkipped),
              res_finished := Some now\<rparr>"
  have 1: "results d1 = modify (\<lambda>r. res_run r \<in> set (runs_in RunQueued d) \<and> res_status r = UnitPending)
      ?f (results d)"
    unfolding d1_def
    by (rule foldl_modify) (simp_all add: cancel_run_after_restart_def Let_def close_pending_def)
  have 2: "results d' = modify (\<lambda>r. res_run r \<in> set (runs_in RunRunning d1) \<and> open_unit (res_status r))
      ?g (results d1)"
    unfolding d'
    by (rule foldl_modify) (simp_all add: interrupt_run_after_restart_def Let_def close_open_units_def open_unit_def)
  have q: "res_run x \<in> set (runs_in RunQueued d)" if "r \<in> set (runs d)" "run_id r = res_run x"
    "run_status r = RunQueued" for x r using that unfolding runs_in_set by force
  have n: "res_run x \<in> set (runs_in RunRunning d)" if "r \<in> set (runs d)" "run_id r = res_run x"
    "run_status r = RunRunning" for x r using that unfolding runs_in_set by force
  have "\<forall>x \<in> set (results d'). (res_run x \<in> set (runs_in RunQueued d) \<longrightarrow> res_status x \<noteq> UnitPending) \<and>
      (res_run x \<in> set (runs_in RunRunning d) \<longrightarrow> \<not> open_unit (res_status x))"
    unfolding 2 1 run1 ball_modify by (auto simp: open_unit_def)
  with q n show ?thesis by blast
qed

text \<open>
  C14. After the restart of the process no run is left queued or running: a queued run is
  canceled and none of its units stays pending, a running one awaits reconciliation with
  no unit result left open, the other runs are untouched, and the numbers of both are reported.
\<close>

theorem restart_leaves_no_run_executing:
  shows "(let (res, d') = reconcile_interrupted_runs now d in
    map run_id (runs d') = map run_id (runs d) \<and>
    map run_status (runs d') = map (\<lambda>r. if run_status r = RunQueued then RunCanceled
      else if run_status r = RunRunning then RunReconciling else run_status r) (runs d) \<and>
    (\<forall>x \<in> set (results d'). \<forall>r \<in> set (runs d). run_id r = res_run x \<longrightarrow>
      (run_status r = RunQueued \<longrightarrow> res_status x \<noteq> UnitPending) \<and>
      (run_status r = RunRunning \<longrightarrow> \<not> open_unit (res_status x))) \<and>
    res = Inr (affected (\<lambda>r. run_status r = RunRunning) (runs d), affected (\<lambda>r. run_status r = RunQueued) (runs d)))"
proof -
  obtain res d' where e: "reconcile_interrupted_runs now d = (res, d')" by fastforce
  define d1 where "d1 = foldl (cancel_run_after_restart now) d (runs_in RunQueued d)"
  have r1: "runs d1 = modify (\<lambda>r. run_status r = RunQueued) (restart_canceled now) (runs d)"
    unfolding d1_def
    by (subst foldl_modify [of runs _ run_id "\<lambda>r. run_status r = RunQueued" "restart_canceled now"])
       (auto simp: cancel_run_after_restart_def Let_def restart_canceled_def [abs_def] runs_in_set modify_def)
  have "res = Inr (length (runs_in RunRunning d1), length (runs_in RunQueued d))"
    using e by (simp add: reconcile_interrupted_runs_def Let_def d1_def)
  moreover have "length (runs_in RunRunning d1) = affected (\<lambda>r. run_status r = RunRunning) (runs d1)"
    by (simp add: runs_in_def affected_def)
  moreover have "affected (\<lambda>r. run_status r = RunRunning) (runs d1) = affected (\<lambda>r. run_status r = RunRunning) (runs d)"
    unfolding r1 affected_modify by (rule affected_cong) (simp add: restart_canceled_def)
  moreover have "length (runs_in RunQueued d) = affected (\<lambda>r. run_status r = RunQueued) (runs d)"
    by (simp add: runs_in_def affected_def)
  moreover have "map run_id (runs d') = map run_id (runs d)"
    unfolding reconcile_runs(1) [OF e] by (simp add: restart_canceled_def restart_locked_def)
  moreover have "map run_status (runs d') = map (\<lambda>r. if run_status r = RunQueued then RunCanceled
      else if run_status r = RunRunning then RunReconciling else run_status r) (runs d)"
    unfolding reconcile_runs(1) [OF e] by (simp add: restart_canceled_def restart_locked_def)
  ultimately show ?thesis
    unfolding e Let_def prod.case using reconcile_results [OF e] by (intro conjI) (assumption | simp only:)+
qed

theorem restart_leaves_no_run_executing_witness:
  "map run_status (runs (snd (reconcile_interrupted_runs 9
     (sample_at RunRunning TaskRunning [UnitSuccess, UnitRunning, UnitPending])))) = [RunReconciling]"
  using restart_leaves_no_run_executing [of 9 "sample_at RunRunning TaskRunning [UnitSuccess, UnitRunning, UnitPending]"]
  by (simp add: Let_def case_prod_beta)

section \<open>Confirming that an interrupted run has stopped\<close>

text \<open>
  Confirming that an interrupted run has stopped frees its environment: the run was
  awaiting reconciliation, it ends canceled or failed (never succeeded), with who confirmed
  it and why, and no run of the environment is active afterwards.
\<close>

theorem confirming_frees_the_environment:
  assumes "ids_ok d" and "exclusive (board d)"
    and "confirm_interrupted_run_stopped now rid actor why d = (Inr (rid', s, m), d')"
  shows "s \<in> {RunPartialFailed, RunCanceled, RunAllFailed} \<and> trim why \<noteq> [] \<and> length (trim why) \<le> 1000 \<and>
    (\<exists>r \<in> set (runs d). run_id r = rid \<and> run_status r = RunReconciling \<and>
       (\<exists>r' \<in> set (runs d'). run_id r' = rid \<and> run_status r' = s \<and> run_reconciled_by r' = trim actor \<and>
          run_note r' = trim why) \<and>
       (\<forall>q \<in> set (runs d'). run_env q = run_env r \<longrightarrow> \<not> active_run (run_status q)))"
proof -
  have tx: "confirm_tx now rid (trim actor) (trim why) d = (Inr (rid', s, m), d')"
    and g: "trim why \<noteq> []" "length (trim why) \<le> 1000"
    using assms(3) by (auto simp: confirm_interrupted_run_stopped_def Let_def transaction_Inr split: if_splits)
  obtain r where f: "find_run d rid = Some r" and st: "run_status r = RunReconciling"
    using tx by (auto simp: confirm_tx_def split: option.splits if_splits)
  obtain a b c n where cn: "result_counts d rid = Some (a, b, c, n)"
    using tx f st by (auto simp: confirm_tx_def split: option.splits)
  have s: "s = confirmed_status a c"
    and runs: "runs d' = modify (\<lambda>r. run_id r = rid \<and> run_status r = RunReconciling)
      (\<lambda>r. r\<lparr>run_status := s, run_summary := m, run_reconciled := Some now,
                        run_reconciled_by := trim actor, run_note := trim why, run_finished := Some now\<rparr>) (runs d)"
    using tx f st cn by (auto simp: confirm_tx_def Let_def split: option.splits)
  have r: "r \<in> set (runs d)" "run_id r = rid" using f by (auto simp: find_run_def dest: find_SomeD)
  have ends: "s \<in> {RunPartialFailed, RunCanceled, RunAllFailed}" by (simp add: s confirmed_status_def)
  then have fin: "\<not> active_run s" by (auto simp: active_run_def)
  have only: "q = r" if "q \<in> set (runs d)" "run_env q = run_env r" "active_run (run_status q)" for q
  proof -
    note assms(1,2)
    moreover from this have "board d (run_id q) = Some (run_env r, run_status q)"
      "board d (run_id r) = Some (run_env r, RunReconciling)"
      using that board_row [of d q] board_row [of d r] r st by simp_all
    moreover have "active_run RunReconciling" by (simp add: active_run_def)
    ultimately have "run_id q = run_id r" using that(3) unfolding exclusive_def by blast
    with assms(1) that(1) r(1) show ?thesis unfolding ids_ok_def by (blast dest: distinct_map_inj)
  qed
  have "\<forall>q \<in> set (runs d'). run_env q = run_env r \<longrightarrow> \<not> active_run (run_status q)"
    unfolding runs ball_modify using only fin st r(2) by auto
  moreover have "\<exists>r' \<in> set (runs d'). run_id r' = rid \<and> run_status r' = s \<and>
      run_reconciled_by r' = trim actor \<and> run_note r' = trim why"
    unfolding runs by (rule bexI [OF _ in_modify [OF r(1) _ refl]]) (simp_all add: r(2) st)
  ultimately show ?thesis using ends g r st by blast
qed

lemma sample_exclusive: "exclusive (board (sample_at rs ts us))"
  by (simp add: exclusive_def board_def)

lemma sample_results: "run_results (sample_at rs ts [u1, u2, u3]) 8 =
   [(new_result 8 (sample_item 3 1 Stop))\<lparr>res_status := u1\<rparr>,
    (new_result 8 (sample_item 1 1 Start))\<lparr>res_status := u2\<rparr>,
    (new_result 8 (sample_item 2 2 Start))\<lparr>res_status := u3\<rparr>]"
  by (simp add: run_results_def sample_at_def sample_run_plan_def new_result_def)

lemma sample_why: "trim (lit ''stopped'') = lit ''stopped''"
  by (simp add: lit_def trim_def trim_start_def is_white_def)

theorem confirming_frees_the_environment_witness:
  "\<exists>m d'. confirm_interrupted_run_stopped 9 8 (lit ''op'') (lit ''stopped'')
      (sample_at RunReconciling TaskFailed [UnitSuccess, UnitCanceledUnknown, UnitNotStarted]) =
      (Inr (8, RunPartialFailed, m), d') \<and>
     (\<forall>q \<in> set (runs d'). run_env q = 2 \<longrightarrow> \<not> active_run (run_status q))"
proof -
  let ?d = "sample_at RunReconciling TaskFailed [UnitSuccess, UnitCanceledUnknown, UnitNotStarted]"
  obtain m d' where c: "confirm_interrupted_run_stopped 9 8 (lit ''op'') (lit ''stopped'') ?d =
      (Inr (8, RunPartialFailed, m), d')"
    using sample_actor
    by (simp add: confirm_interrupted_run_stopped_def confirm_tx_def transaction_def find_run_def
        sample_why result_counts_def sample_results confirmed_status_def Let_def)
  from confirming_frees_the_environment [OF sample_at_ok(1) sample_exclusive c]
  have "\<forall>q \<in> set (runs d'). run_env q = 2 \<longrightarrow> \<not> active_run (run_status q)" by simp
  with c show ?thesis by blast
qed

section \<open>Failing a run\<close>

text \<open>
  Failing a run on an internal error closes everything the run had open: it ends,
  no unit result of it stays pending or running, no step of its task stays running, no
  phase stays open and the task is no longer active; the environment is free again.
\<close>

theorem failing_closes_everything:
  assumes "ids_ok d" and "r \<in> set (runs d)" and "run_id r = rid" and "run_task r = Some t"
    and "fail_run_on_internal_error now rid message d = (Inr True, d')"
  shows "run_status r \<in> {RunQueued, RunRunning} \<and>
    (\<forall>q \<in> set (runs d'). run_id q = rid \<longrightarrow> run_status q \<in> {RunPartialFailed, RunCanceled, RunAllFailed}) \<and>
    (\<forall>x \<in> set (results d'). res_run x = rid \<longrightarrow> \<not> open_unit (res_status x)) \<and>
    (\<forall>x \<in> set (steps d'). step_task x = t \<longrightarrow> step_status x \<noteq> StepRunning) \<and>
    (\<forall>x \<in> set (phases d'). phase_task x = t \<longrightarrow> \<not> open_step (phase_status x)) \<and>
    (\<forall>x \<in> set (tasks d'). task_id x = t \<longrightarrow> \<not> active_task (task_status x))"
proof -
  define m where "m = OrchestratorFailed (take 1000 (trim message))"
  have tx: "fail_run_tx now rid m d = (Inr True, d')"
    using assms(5) by (simp add: fail_run_on_internal_error_def transaction_Inr m_def)
  have only: "q = r" if "q \<in> set (runs d)" "run_id q = rid" for q
    using assms(1-3) that unfolding ids_ok_def by (blast dest: distinct_map_inj)
  obtain q where f: "find (\<lambda>r. run_id r = rid \<and> run_status r \<in> {RunQueued, RunRunning}) (runs d) = Some q"
    using tx by (auto simp: fail_run_tx_def split: option.splits)
  then have qs: "q \<in> set (runs d)" "run_id q = rid" "run_status q \<in> {RunQueued, RunRunning}"
    by (auto dest: find_SomeD)
  then have q: "q = r" by (intro only)
  obtain a b c n where cn: "result_counts (close_open_units now rid (lit ''orchestrator_internal_error'') m m d) rid
      = Some (a, b, c, n)"
    using tx f q assms(4) by (auto simp: fail_run_tx_def Let_def split: option.splits)
  have d': "runs d' = modify (\<lambda>r. run_id r = rid \<and> run_status r \<in> {RunQueued, RunRunning})
      (\<lambda>r. r\<lparr>run_status := confirmed_status a c, run_summary := m, run_finished := Some now\<rparr>) (runs d)"
    "results d' = results (close_open_units now rid (lit ''orchestrator_internal_error'') m m d)"
    "steps d' = steps (fail_running_steps now (\<lambda>s. step_task s = t) d)"
    "phases d' = phases (close_open_phases now (\<lambda>p. phase_task p = t) d)"
    "tasks d' = modify (\<lambda>x. task_id x = t \<and> active_task (task_status x))
      (\<lambda>x. x\<lparr>task_status := (if confirmed_status a c = RunCanceled then TaskCanceled else TaskFailed),
         task_phase := task_phase_of (if confirmed_status a c = RunCanceled then TaskCanceled else TaskFailed),
         task_summary := m, task_exit_code := Some 1, task_finished := Some now\<rparr>) (tasks d)"
    using tx f q assms(4) cn
    by (auto simp: fail_run_tx_def Let_def fail_running_steps_def close_open_phases_def)
  have qst: "\<forall>q \<in> set (runs d). run_id q = rid \<longrightarrow> run_status q \<in> {RunQueued, RunRunning}"
    using only qs(3) q by blast
  have "\<forall>q \<in> set (runs d'). run_id q = rid \<longrightarrow> run_status q \<in> {RunPartialFailed, RunCanceled, RunAllFailed}"
    unfolding d'(1) using qst confirmed_status_moves(3) [of a c] by (auto simp: ball_modify)
  moreover have "\<forall>x \<in> set (results d'). res_run x = rid \<longrightarrow> \<not> open_unit (res_status x)"
    unfolding d'(2) by (simp add: close_open_units_def ball_modify open_unit_def)
  moreover have "\<forall>x \<in> set (steps d'). step_task x = t \<longrightarrow> step_status x \<noteq> StepRunning"
    unfolding d'(3) by (simp add: fail_running_steps_def ball_modify)
  moreover have "\<forall>x \<in> set (phases d'). phase_task x = t \<longrightarrow> \<not> open_step (phase_status x)"
    unfolding d'(4) by (simp add: close_open_phases_def ball_modify open_step_def)
  moreover have "\<forall>x \<in> set (tasks d'). task_id x = t \<longrightarrow> \<not> active_task (task_status x)"
    unfolding d'(5) by (simp add: ball_modify active_task_def)
  ultimately show ?thesis using qs(3) q by simp
qed

theorem failing_closes_everything_witness:
  "\<exists>d'. fail_run_on_internal_error 9 8 [] (sample_at RunRunning TaskRunning [UnitSuccess, UnitRunning, UnitPending])
      = (Inr True, d') \<and> (\<forall>x \<in> set (results d'). res_run x = 8 \<longrightarrow> \<not> open_unit (res_status x))"
proof -
  let ?d = "sample_at RunRunning TaskRunning [UnitSuccess, UnitRunning, UnitPending]"
  have r: "sample_run RunRunning \<in> set (runs ?d)" by simp
  have "run_results (close_open_units 9 8 k m m ?d) 8 \<noteq> []" for k m
    by (simp add: run_results_def close_open_units_def sample_at_def sample_run_plan_def new_result_def)
  then obtain d' where f: "fail_run_on_internal_error 9 8 [] ?d = (Inr True, d')"
    by (auto simp: fail_run_on_internal_error_def fail_run_tx_def transaction_def result_counts_def
        Let_def)
  from failing_closes_everything [OF sample_at_ok(1) r sample_row(1,4) f] f show ?thesis by blast
qed

end
