(* ===== verification/Run_Outcomes.thy ===== *)
theory Run_Outcomes
  imports Run_Operations
begin

text \<open>
  What a run leaves behind: the fingerprints its targets are compared by, the status it
  ends in, and what its phases show.
\<close>

section \<open>Fingerprints\<close>

lemma length_be_bytes: "length (be_bytes k n) = k"
  by (induction k n rule: be_bytes.induct) auto

lemma be_bytes_inj: "be_bytes k m = be_bytes k n \<Longrightarrow> m < 256 ^ k \<Longrightarrow> n < 256 ^ k \<Longrightarrow> m = n"
proof (induction k arbitrary: m n)
  case (Suc k)
  then have "m div 256 = n div 256" by (intro Suc.IH) (auto simp: less_mult_imp_div_less mult.commute)
  moreover have "m mod 256 = n mod 256" using Suc.prems(1) by simp
  ultimately show ?case by (metis div_mult_mod_eq)
qed simp

lemma digit_eq: "x div m = y div m \<Longrightarrow> x mod m = y mod m \<Longrightarrow> x = (y::nat)"
  by (metis div_mult_mod_eq)

lemma digits_eq3: "c div 4096 = c' div 4096 \<Longrightarrow> c div 64 mod 64 = c' div 64 mod 64 \<Longrightarrow>
    c mod 64 = c' mod 64 \<Longrightarrow> c = (c'::nat)"
  using div_mult2_eq [of c 64 64] div_mult2_eq [of c' 64 64]
  by (intro digit_eq [of c 64 c'] digit_eq [of "c div 64" 64 "c' div 64"]) simp_all

lemma digits_eq4: "c div 262144 = c' div 262144 \<Longrightarrow> c div 4096 mod 64 = c' div 4096 mod 64 \<Longrightarrow>
    c div 64 mod 64 = c' div 64 mod 64 \<Longrightarrow> c mod 64 = c' mod 64 \<Longrightarrow> c = (c'::nat)"
  using div_mult2_eq [of c 4096 64] div_mult2_eq [of c' 4096 64]
  by (intro digits_eq3 [of c c'] digit_eq [of "c div 4096" 64 "c' div 4096"]) simp_all

definition utf8_class :: "nat \<Rightarrow> nat" where
  "utf8_class b = (if b < 0x80 then 1 else if b < 0xE0 then 2 else if b < 0xF0 then 3 else 4)"

lemma utf8_class_lead:
  "utf8_class (hd (utf8_char c)) =
     (if c < 0x80 then 1 else if c < 0x800 then 2 else if c < 0x10000 then 3 else 4)"
proof -
  have "c div 64 < 32" if "c < 0x800" using that by (simp add: less_mult_imp_div_less)
  moreover have "c div 4096 < 16" if "c < 0x10000" using that by (simp add: less_mult_imp_div_less)
  ultimately show ?thesis by (simp add: utf8_char_def utf8_class_def)
qed

lemma utf8_char_prefix:
  assumes eq: "utf8_char c @ xs = utf8_char c' @ ys"
  shows "c = c' \<and> xs = ys"
proof -
  have "utf8_char c \<noteq> []" "utf8_char c' \<noteq> []" by (simp_all add: utf8_char_def)
  then have "hd (utf8_char c) = hd (utf8_char c')" using arg_cong [OF eq, of hd] by simp
  from arg_cong [OF this, of utf8_class]
  have cl: "(if c < 0x80 then 1 else if c < 0x800 then 2 else if c < 0x10000 then 3 else (4::nat)) =
    (if c' < 0x80 then 1 else if c' < 0x800 then 2 else if c' < 0x10000 then 3 else 4)"
    by (simp only: utf8_class_lead)
  consider "c < 0x80" | "0x80 \<le> c" "c < 0x800" | "0x800 \<le> c" "c < 0x10000" | "0x10000 \<le> c"
    by linarith
  then show ?thesis
  proof cases
    case 1
    moreover from this cl have "c' < 0x80" by (simp split: if_splits)
    ultimately show ?thesis using eq by (simp add: utf8_char_def)
  next
    case 2
    moreover from this cl have "0x80 \<le> c'" "c' < 0x800" by (simp_all split: if_splits)
    ultimately show ?thesis using eq digit_eq [of c 64 c'] by (simp add: utf8_char_def)
  next
    case 3
    moreover from this cl have "0x800 \<le> c'" "c' < 0x10000" by (simp_all split: if_splits)
    ultimately show ?thesis using eq digits_eq3 [of c c'] by (simp add: utf8_char_def)
  next
    case 4
    moreover from this cl have "0x10000 \<le> c'" by (simp split: if_splits)
    ultimately show ?thesis using eq digits_eq4 [of c c'] by (simp add: utf8_char_def)
  qed
qed

lemma utf8_inj: "utf8 s = utf8 t \<Longrightarrow> s = t"
proof (induction s arbitrary: t)
  case Nil
  then show ?case by (cases t) (auto simp: utf8_def utf8_char_def split: if_splits)
next
  case (Cons c s)
  then obtain c' t' where t: "t = c' # t'"
    by (cases t) (auto simp: utf8_def utf8_char_def split: if_splits)
  with Cons.prems have "c = c' \<and> utf8 s = utf8 t'"
    by (intro utf8_char_prefix) (simp add: utf8_def)
  with Cons.IH t show ?case by blast
qed

text \<open>
  C17. The bytes hashed into a target fingerprint determine its two parts: no two different
  pairs of a unit fingerprint and a configuration hash are framed alike (for texts
  of fewer than 2 to the 64 bytes, all there can be), so the fingerprints differ
  whenever SHA-256 tells the framed bytes apart.
\<close>

theorem fingerprint_frames_its_parts:
  assumes "fingerprint_bytes a b = fingerprint_bytes a' b'"
    and "length (utf8 a) < 2 ^ 64" and "length (utf8 a') < 2 ^ 64"
  shows "a = a' \<and> b = b'"
proof -
  have p: "(256::nat) ^ 8 = 2 ^ 64" by simp
  have "be64 (length (utf8 a)) = be64 (length (utf8 a'))"
    and r: "utf8 a @ be64 (length (utf8 b)) @ utf8 b = utf8 a' @ be64 (length (utf8 b')) @ utf8 b'"
    using assms(1) by (simp_all add: fingerprint_bytes_def be64_def length_be_bytes append_eq_append_conv)
  then have l: "length (utf8 a) = length (utf8 a')"
    using assms(2,3) unfolding be64_def by (intro be_bytes_inj [of 8]) (simp_all only: p)
  with r have "utf8 a = utf8 a'" "utf8 b = utf8 b'"
    by (simp_all add: append_eq_append_conv be64_def length_be_bytes)
  then show ?thesis by (simp add: utf8_inj)
qed

theorem fingerprint_frames_its_parts_witness:
  "fingerprint_bytes (lit ''ab'') (lit ''c'') \<noteq> fingerprint_bytes (lit ''a'') (lit ''bc'')"
  using fingerprint_frames_its_parts [of "lit ''ab''" "lit ''c''" "lit ''a''" "lit ''bc''"]
  by (auto simp: utf8_def utf8_char_def lit_def)

section \<open>Closing a run\<close>

definition unit_ok :: "unit_result_status \<Rightarrow> bool" where
  "unit_ok s \<longleftrightarrow> s \<in> {UnitSuccess, UnitSkipped}"

definition unit_bad :: "unit_result_status \<Rightarrow> bool" where
  "unit_bad s \<longleftrightarrow> s \<in> {UnitFailed, UnitNotStarted, UnitCanceledUnknown}"

lemma counts_0:
  assumes "result_counts d rid = Some (ok, failed, unknown, n)"
  shows "failed = 0 \<and> unknown = 0 \<longleftrightarrow> (\<forall>x \<in> set (run_results d rid). \<not> unit_bad (res_status x))"
    and "0 < ok \<longleftrightarrow> (\<exists>x \<in> set (run_results d rid). unit_ok (res_status x))"
    and "0 < unknown \<longleftrightarrow> (\<exists>x \<in> set (run_results d rid). res_status x = UnitCanceledUnknown)"
proof -
  have c: "ok = affected (\<lambda>r. res_status r \<in> {UnitSuccess, UnitSkipped}) (run_results d rid)"
    "failed = affected (\<lambda>r. res_status r \<in> {UnitFailed, UnitNotStarted}) (run_results d rid)"
    "unknown = affected (\<lambda>r. res_status r = UnitCanceledUnknown) (run_results d rid)"
    using assms by (auto simp: result_counts_def Let_def split: if_splits)
  show "failed = 0 \<and> unknown = 0 \<longleftrightarrow> (\<forall>x \<in> set (run_results d rid). \<not> unit_bad (res_status x))"
    unfolding c affected_0 unit_bad_def by auto
  show "0 < ok \<longleftrightarrow> (\<exists>x \<in> set (run_results d rid). unit_ok (res_status x))"
    unfolding c affected_pos unit_ok_def ..
  show "0 < unknown \<longleftrightarrow> (\<exists>x \<in> set (run_results d rid). res_status x = UnitCanceledUnknown)"
    unfolding c affected_pos ..
qed

lemma bex_modify:
  "(\<exists>x \<in> set (modify p f xs). Q x) \<longleftrightarrow> (\<exists>x \<in> set xs. Q (if p x then f x else x))"
  by (auto simp: set_modify)

lemma finalize_effect:
  assumes "finalize_deployment_run now rid plan canceled d = (Inr (i, s, m), d')"
  obtains ok failed unknown n where "result_counts d rid = Some (ok, failed, unknown, n)"
    "s = final_run_status ok failed unknown canceled" "i = rid"
    "runs d' = modify (\<lambda>r. run_id r = rid \<and> run_status r = RunRunning)
       (\<lambda>r. r\<lparr>run_status := s, run_summary := m, run_finished := Some now\<rparr>) (runs d)"
    "results d' = results d"
    "phases d' = modify (\<lambda>p. run_task_of d rid = Some (phase_task p))
       (\<lambda>p. p\<lparr>phase_status := final_phase_status d p, phase_finished := Some now\<rparr>) (phases d)"
    "envs d' = modify (\<lambda>e. env_id e = plan_environment_id plan)
       (\<lambda>e. if s = RunSuccess then e\<lparr>env_current_release := Some (plan_release_id plan),
             env_current_config := Some (plan_config_id plan),
             env_runtime := final_env_runtime s plan, env_last_deploy := env_status_of_run s\<rparr>
          else e\<lparr>env_runtime := final_env_runtime s plan, env_last_deploy := env_status_of_run s\<rparr>) (envs d)"
    "tasks d' = modify (\<lambda>t. run_task_of d rid = Some (task_id t))
       (\<lambda>t. t\<lparr>task_status := final_task_status s canceled,
          task_phase := task_phase_of (final_task_status s canceled), task_summary := m,
          task_exit_code := Some (if final_task_status s canceled = TaskSuccess then 0 else 1),
          task_finished := Some now\<rparr>) (tasks d)"
proof -
  obtain ok failed unknown n where cn: "result_counts d rid = Some (ok, failed, unknown, n)"
    using assms by (auto simp: finalize_deployment_run_def split: option.splits)
  let ?s = "final_run_status ok failed unknown canceled"
  let ?m = "RunCounts (int n) (int ok) (int failed) (int unknown) (canceled \<and> ?s \<noteq> RunSuccess)"
  let ?d1 = "update_runs (\<lambda>r. run_id r = rid \<and> run_status r = RunRunning)
             (\<lambda>r. r\<lparr>run_status := ?s, run_summary := ?m, run_finished := Some now\<rparr>) d"
  have same: "run_task_of e rid = run_task_of d rid" if "runs e = runs ?d1" for e
    by (rule run_of_modify(2) [OF trans [OF that update_sel(1)]]) simp_all
  have st: "stage_has e p st = stage_has d p st" if "runs e = runs ?d1" "results e = results d" for e p st
    unfolding stage_has_def that update_sel bex_modify by (intro bex_cong refl) simp
  have ph: "final_phase_status e p = final_phase_status d p" if "runs e = runs ?d1" "results e = results d" for e p
    unfolding final_phase_status_def st [OF that] ..
  show thesis
    using assms cn unfolding finalize_deployment_run_def
    by (intro that [OF cn]; clarsimp simp: Let_def same ph split: if_splits)
qed

text \<open>
  A run that is finalized ends exactly as its unit results say: it succeeds if and
  only if no unit failed, stayed unstarted or is unknown, it has partly failed if some did and some
  did not, otherwise it is canceled when cancellation was asked for or a unit is unknown, and
  failed else. The environment takes over the release and the configuration of the
  plan exactly when the run succeeds, and its task ends.
\<close>

theorem finalize_reports_the_results:
  assumes "finalize_deployment_run now rid plan canceled d = (Inr (i, s, m), d')"
    and "ids_ok d" and "r \<in> set (runs d)" and "run_id r = rid" and "run_status r = RunRunning"
    and "run_task r = Some t"
  defines "rs \<equiv> run_results d rid"
  shows "i = rid \<and> results d' = results d \<and>
    (\<forall>q \<in> set (runs d'). run_id q = rid \<longrightarrow> run_status q = s) \<and>
    s = (if \<forall>x \<in> set rs. \<not> unit_bad (res_status x) then RunSuccess
         else if \<exists>x \<in> set rs. unit_ok (res_status x) then RunPartialFailed
         else if canceled \<or> (\<exists>x \<in> set rs. res_status x = UnitCanceledUnknown) then RunCanceled
         else RunAllFailed) \<and>
    (\<forall>e \<in> set (envs d'). env_id e = plan_environment_id plan \<longrightarrow>
       env_last_deploy e = env_status_of_run s \<and>
       (s = RunSuccess \<longrightarrow> env_current_release e = Some (plan_release_id plan) \<and>
          env_current_config e = Some (plan_config_id plan))) \<and>
    (s \<noteq> RunSuccess \<longrightarrow> map env_current_release (envs d') = map env_current_release (envs d) \<and>
       map env_current_config (envs d') = map env_current_config (envs d)) \<and>
    (\<forall>x \<in> set (tasks d'). task_id x = t \<longrightarrow> task_status x = final_task_status s canceled)"
proof -
  obtain ok failed unknown n where cn: "result_counts d rid = Some (ok, failed, unknown, n)"
    and s: "s = final_run_status ok failed unknown canceled" and i: "i = rid"
    and runs: "runs d' = modify (\<lambda>r. run_id r = rid \<and> run_status r = RunRunning)
       (\<lambda>r. r\<lparr>run_status := s, run_summary := m, run_finished := Some now\<rparr>) (runs d)"
    and rest: "results d' = results d"
    and envs: "envs d' = modify (\<lambda>e. env_id e = plan_environment_id plan)
       (\<lambda>e. if s = RunSuccess then e\<lparr>env_current_release := Some (plan_release_id plan),
             env_current_config := Some (plan_config_id plan),
             env_runtime := final_env_runtime s plan, env_last_deploy := env_status_of_run s\<rparr>
          else e\<lparr>env_runtime := final_env_runtime s plan, env_last_deploy := env_status_of_run s\<rparr>) (envs d)"
    and tasks: "tasks d' = modify (\<lambda>t. run_task_of d rid = Some (task_id t))
       (\<lambda>t. t\<lparr>task_status := final_task_status s canceled,
          task_phase := task_phase_of (final_task_status s canceled), task_summary := m,
          task_exit_code := Some (if final_task_status s canceled = TaskSuccess then 0 else 1),
          task_finished := Some now\<rparr>) (tasks d)"
    by (rule finalize_effect [OF assms(1)])
  have "q = r" if "q \<in> set (runs d)" "run_id q = rid" for q
    using assms(2-4) that unfolding ids_ok_def by (blast dest: distinct_map_inj)
  then have "\<forall>q \<in> set (runs d). run_id q = rid \<longrightarrow> run_status q = RunRunning" using assms(5) by blast
  then have 1: "\<forall>q \<in> set (runs d'). run_id q = rid \<longrightarrow> run_status q = s"
    unfolding runs by (simp add: ball_modify)
  have "run_task_of d rid = Some t"
    using find_run_row [OF assms(2-4)] assms(6) by (simp add: run_task_of_def)
  then have 2: "\<forall>x \<in> set (tasks d'). task_id x = t \<longrightarrow> task_status x = final_task_status s canceled"
    unfolding tasks by (simp add: ball_modify)
  have 3: "\<forall>e \<in> set (envs d'). env_id e = plan_environment_id plan \<longrightarrow>
       env_last_deploy e = env_status_of_run s \<and>
       (s = RunSuccess \<longrightarrow> env_current_release e = Some (plan_release_id plan) \<and>
          env_current_config e = Some (plan_config_id plan))"
    unfolding envs by (simp add: ball_modify)
  have 4: "s \<noteq> RunSuccess \<longrightarrow> map env_current_release (envs d') = map env_current_release (envs d) \<and>
       map env_current_config (envs d') = map env_current_config (envs d)"
    unfolding envs by (simp add: map_modify)
  have 5: "s = (if \<forall>x \<in> set rs. \<not> unit_bad (res_status x) then RunSuccess
         else if \<exists>x \<in> set rs. unit_ok (res_status x) then RunPartialFailed
         else if canceled \<or> (\<exists>x \<in> set rs. res_status x = UnitCanceledUnknown) then RunCanceled
         else RunAllFailed)"
    unfolding rs_def s final_run_status_def counts_0(1) [OF cn] counts_0(2) [OF cn] counts_0(3) [OF cn] ..
  show ?thesis using i rest 1 5 3 4 2 by (intro conjI)
qed

lemma sample_finalize: "\<exists>m d'. finalize_deployment_run 9 8 sample_run_plan False
    (sample_at RunRunning TaskRunning [UnitSuccess, UnitFailed, UnitNotStarted]) = (Inr (8, RunPartialFailed, m), d')"
  by (simp add: finalize_deployment_run_def result_counts_def sample_results final_run_status_def Let_def)

theorem finalize_reports_the_results_witness:
  "\<exists>m d'. finalize_deployment_run 9 8 sample_run_plan False
      (sample_at RunRunning TaskRunning [UnitSuccess, UnitFailed, UnitNotStarted]) = (Inr (8, RunPartialFailed, m), d') \<and>
     (\<forall>x \<in> set (tasks d'). task_id x = 21 \<longrightarrow> task_status x = TaskFailed)"
proof -
  let ?d = "sample_at RunRunning TaskRunning [UnitSuccess, UnitFailed, UnitNotStarted]"
  obtain m d' where f: "finalize_deployment_run 9 8 sample_run_plan False ?d = (Inr (8, RunPartialFailed, m), d')"
    using sample_finalize by blast
  have r: "sample_run RunRunning \<in> set (runs ?d)" by simp
  have "\<forall>x \<in> set (tasks d'). task_id x = 21 \<longrightarrow> task_status x = final_task_status RunPartialFailed False"
    using finalize_reports_the_results [OF f sample_at_ok(1) r sample_row(1,3,4)] by (elim conjE) assumption
  with f show ?thesis by (auto simp: final_task_status_def)
qed

lemma phase_key_roundtrip: "phase_key_stage (stage_phase_key n) = n"
proof -
  have "drop 17 (lit ''deployment-stage-'' @ dec n) = dec n" by simp
  then show ?thesis by (simp only: phase_key_stage_def stage_phase_key_def cast_integer_dec)
qed

text \<open>
  After finalizing, the phase of a stage shows what happened to the units of that
  stage: failed when one failed or is unknown, skipped when one was not started, and done
  otherwise; the stage number survives the round trip through the phase key, negative or not.
\<close>

theorem phase_shows_the_units_of_its_stage:
  assumes "finalize_deployment_run now rid plan canceled d = (Inr (i, s, m), d')"
    and "ids_ok d" and "r \<in> set (runs d)" and "run_id r = rid" and "run_task r = Some t"
    and "\<forall>q \<in> set (runs d). run_task q = Some t \<longrightarrow> q = r"
    and "p \<in> set (phases d')" and "phase_task p = t" and "phase_key p = stage_phase_key n"
  shows "phase_status p =
    (let unit_in = (\<lambda>ss. \<exists>x \<in> set (results d). res_run x = rid \<and> res_stage x = n \<and> res_status x \<in> ss)
     in if unit_in {UnitFailed, UnitCanceledUnknown} then StepFailed
        else if unit_in {UnitNotStarted} then StepSkipped else StepSuccess)"
proof -
  have has: "stage_has d q ss \<longleftrightarrow> (\<exists>x \<in> set (results d). res_run x = rid \<and> res_stage x = n \<and> res_status x \<in> ss)"
    if "phase_task q = t" "phase_key q = stage_phase_key n" for q ss
  proof -
    have "(\<exists>q \<in> set (runs d). run_id q = k \<and> run_task q = Some t \<and> P) \<longleftrightarrow> k = rid \<and> P" for k P
      using assms(3-6) by blast
    then show ?thesis unfolding stage_has_def that phase_key_roundtrip by simp
  qed
  have task: "run_task_of d rid = Some t"
    using find_run_row [OF assms(2-4)] assms(5) by (simp add: run_task_of_def)
  have phases: "phases d' = modify (\<lambda>p. run_task_of d rid = Some (phase_task p))
       (\<lambda>p. p\<lparr>phase_status := final_phase_status d p, phase_finished := Some now\<rparr>) (phases d)"
    by (rule finalize_effect [OF assms(1)])
  obtain p0 where "p = (if run_task_of d rid = Some (phase_task p0)
      then p0\<lparr>phase_status := final_phase_status d p0, phase_finished := Some now\<rparr> else p0)"
    using assms(7) unfolding phases by (rule in_set_modifyE)
  with task assms(8,9) have p0: "phase_task p0 = t" "phase_key p0 = stage_phase_key n"
    and st: "phase_status p = final_phase_status d p0" by (simp_all split: if_splits)
  show ?thesis unfolding st final_phase_status_def has [OF p0] Let_def ..
qed

theorem phase_shows_the_units_of_its_stage_witness:
  "\<exists>d'. snd (finalize_deployment_run 9 8 sample_run_plan False
      (sample_at RunRunning TaskRunning [UnitSuccess, UnitFailed, UnitNotStarted])) = d' \<and>
     (\<forall>p \<in> set (phases d'). phase_task p = 21 \<and> phase_key p = stage_phase_key 1 \<longrightarrow> phase_status p = StepFailed)"
proof -
  let ?d = "sample_at RunRunning TaskRunning [UnitSuccess, UnitFailed, UnitNotStarted]"
  obtain m d' where f: "finalize_deployment_run 9 8 sample_run_plan False ?d = (Inr (8, RunPartialFailed, m), d')"
    using sample_finalize by blast
  have r: "sample_run RunRunning \<in> set (runs ?d)" by simp
  have u: "\<forall>q \<in> set (runs ?d). run_task q = Some 21 \<longrightarrow> q = sample_run RunRunning" by simp
  have b: "\<exists>x \<in> set (results ?d). res_run x = 8 \<and> res_stage x = 1 \<and> res_status x \<in> {UnitFailed, UnitCanceledUnknown}"
    by (simp add: sample_at_def sample_run_plan_def new_result_def sample_item_def)
  have "phase_status p = StepFailed" if "p \<in> set (phases d')" "phase_task p = 21" "phase_key p = stage_phase_key 1" for p
    unfolding phase_shows_the_units_of_its_stage [OF f sample_at_ok(1) r sample_row(1,4) u that] Let_def
    using b by simp
  with f show ?thesis by auto
qed

end
