(* ===== verification/Waves.thy ===== *)
theory Waves
  imports Run_Outcomes
begin

text \<open>
  The execution of a run in \<open>src/api/src/deployment_orchestrator.rs\<close>: the cancellation
  registry, \<open>execute_wave\<close> with its \<open>JoinSet\<close> of running units,
  \<open>execute_run_with_cancellation\<close> and the task of \<open>src/api/src/web/mod.rs\<close> that spawns it.
  The loop of a wave is written over the operations it calls on the database; the locale
  \<open>unit_ledger\<close> states what it relies on them for, and its lemmas are proved there.
\<close>

section \<open>Cancellation signals\<close>

text \<open>
  \<open>CancellationSignal\<close> is a shared flag; the registry maps the id of a run that is being
  executed to the signal its executor holds. Signals are named by their position in a
  store, so that clones of one signal are one position.
\<close>

record cancellation_registry =
  reg_active :: "int \<rightharpoonup> nat"
  reg_signals :: "bool list"

definition signal_cancel :: "nat \<Rightarrow> cancellation_registry \<Rightarrow> bool \<times> cancellation_registry" where
  "signal_cancel h g = (\<not> reg_signals g ! h, g\<lparr>reg_signals := (reg_signals g)[h := True]\<rparr>)"

definition signal_is_cancelled :: "nat \<Rightarrow> cancellation_registry \<Rightarrow> bool" where
  "signal_is_cancelled h g = reg_signals g ! h"

definition registry_register :: "int \<Rightarrow> cancellation_registry \<Rightarrow> nat \<times> cancellation_registry" where
  "registry_register rid g = (length (reg_signals g),
     \<lparr> reg_active = (reg_active g)(rid \<mapsto> length (reg_signals g)),
       reg_signals = reg_signals g @ [False] \<rparr>)"

definition registry_cancel :: "int \<Rightarrow> cancellation_registry \<Rightarrow> bool \<times> cancellation_registry" where
  "registry_cancel rid g = (case reg_active g rid of
     None \<Rightarrow> (False, g) | Some h \<Rightarrow> (True, snd (signal_cancel h g)))"

definition registry_remove :: "int \<Rightarrow> cancellation_registry \<Rightarrow> cancellation_registry" where
  "registry_remove rid g = g\<lparr>reg_active := (reg_active g)(rid := None)\<rparr>"

section \<open>A wave\<close>

datatype wave_outcome = WaveSuccess | WaveFailed | WaveCanceled

text \<open>
  What happens while a wave waits: an operator cancels the run, or one of the running units
  ends (chosen by \<open>pick\<close>), with an outcome or because its task panicked.
\<close>

datatype unit_end = Finished unit_outcome | Panicked

datatype wave_event =
    CancelArrives time ustr
  | UnitEnds time nat unit_end

record wave =
  w_pending :: "plan_item list"
  w_running :: "(plan_item \<times> int) list"
  w_failure :: bool
  w_canceled :: bool
  w_signal :: bool
  w_clock :: time

datatype wave_status = Waiting | WaveDone wave_outcome | WaveError orch_error

definition wave_outcome_of :: "wave \<Rightarrow> wave_outcome" where
  "wave_outcome_of w = (if w_canceled w then WaveCanceled else if w_failure w then WaveFailed
     else WaveSuccess)"

fun start_loop ::
  "(plan_item \<Rightarrow> ('s, orch_error, int) operation) \<Rightarrow> nat \<Rightarrow> plan_item list \<Rightarrow>
    (plan_item \<times> int) list \<Rightarrow> ('s, orch_error, plan_item list \<times> (plan_item \<times> int) list) operation"
where
  "start_loop start k [] running s = (Inr ([], running), s)"
| "start_loop start k (item # pending) running s =
    (if length running < k then
       (case start item s of
          (Inl e, s') \<Rightarrow> (Inl e, s')
        | (Inr sid, s') \<Rightarrow> start_loop start k pending (running @ [(item, sid)]) s')
     else (Inr (item # pending, running), s))"

text \<open>The body of the outer loop up to \<open>join_next().await\<close>.\<close>

definition wave_turn ::
  "(time \<Rightarrow> plan_item \<Rightarrow> ('s, orch_error, int) operation) \<Rightarrow> nat \<Rightarrow> wave \<Rightarrow> 's \<Rightarrow>
    wave_status \<times> wave \<times> 's"
where
  "wave_turn start k w s =
    (if w_pending w = [] \<and> w_running w = [] then (WaveDone (wave_outcome_of w), w, s)
     else let w1 = w\<lparr>w_canceled := w_canceled w \<or> w_signal w\<rparr> in
     (case (if \<not> w_failure w1 \<and> \<not> w_canceled w1
            then start_loop (start (w_clock w)) k (w_pending w) (w_running w) s
            else (Inr (w_pending w, w_running w), s)) of
        (Inl e, s') \<Rightarrow> (WaveError e, w1, s')
      | (Inr (pending, running), s') \<Rightarrow>
          let w2 = w1\<lparr>w_pending := pending, w_running := running\<rparr> in
          if running = [] then (WaveDone (wave_outcome_of w2), w2, s') else (Waiting, w2, s')))"

fun fails :: "unit_outcome \<Rightarrow> bool" where
  "fails (UnitFailure _ _ _) = True"
| "fails _ = False"

fun unknown :: "unit_outcome \<Rightarrow> bool" where
  "unknown (UnitUnknown _) = True"
| "unknown _ = False"

definition unit_joined :: "time \<Rightarrow> nat \<Rightarrow> unit_outcome \<Rightarrow> wave \<Rightarrow> wave" where
  "unit_joined now i oc w = w\<lparr>w_running := take i (w_running w) @ drop (Suc i) (w_running w),
     w_failure := (w_failure w \<or> fails oc), w_canceled := (w_canceled w \<or> unknown oc),
     w_clock := now\<rparr>"

fun wave_wait ::
  "(time \<Rightarrow> plan_item \<Rightarrow> ('s, orch_error, int) operation) \<Rightarrow>
    (time \<Rightarrow> int \<Rightarrow> plan_item \<Rightarrow> unit_outcome \<Rightarrow> 's \<Rightarrow> 's) \<Rightarrow> (time \<Rightarrow> ustr \<Rightarrow> 's \<Rightarrow> bool \<times> 's) \<Rightarrow>
    nat \<Rightarrow> wave_event list \<Rightarrow> wave \<Rightarrow> 's \<Rightarrow> wave_status \<times> wave \<times> 's"
where
  "wave_wait start persist cancel k [] w s = (Waiting, w, s)"
| "wave_wait start persist cancel k (CancelArrives now actor # events) w s =
    (case cancel now actor s of (signaled, s') \<Rightarrow>
       wave_wait start persist cancel k events (w\<lparr>w_signal := w_signal w \<or> signaled\<rparr>) s')"
| "wave_wait start persist cancel k (UnitEnds now pick Panicked # events) w s =
    (WaveError (DatabaseError UnitAborted), w, s)"
| "wave_wait start persist cancel k (UnitEnds now pick (Finished oc) # events) w s =
    (let i = pick mod length (w_running w);
         (item, sid) = w_running w ! i
     in case wave_turn start k (unit_joined now i oc w) (persist now sid item oc s) of
          (Waiting, w', s') \<Rightarrow> wave_wait start persist cancel k events w' s'
        | done \<Rightarrow> done)"

definition wave_of :: "time \<Rightarrow> plan_item list \<Rightarrow> bool \<Rightarrow> wave" where
  "wave_of now items signal = \<lparr> w_pending = items, w_running = [], w_failure = False,
     w_canceled = signal, w_signal = signal, w_clock = now \<rparr>"

definition run_wave ::
  "(time \<Rightarrow> plan_item \<Rightarrow> ('s, orch_error, int) operation) \<Rightarrow>
    (time \<Rightarrow> int \<Rightarrow> plan_item \<Rightarrow> unit_outcome \<Rightarrow> 's \<Rightarrow> 's) \<Rightarrow> (time \<Rightarrow> ustr \<Rightarrow> 's \<Rightarrow> bool \<times> 's) \<Rightarrow>
    nat \<Rightarrow> wave_event list \<Rightarrow> wave \<Rightarrow> 's \<Rightarrow> wave_status \<times> wave \<times> 's"
where
  "run_wave start persist cancel k events w s =
    (case wave_turn start k w s of
       (Waiting, w', s') \<Rightarrow> wave_wait start persist cancel k events w' s'
     | done \<Rightarrow> done)"

text \<open>
  The handlers of the cancel buttons: ask the database, then raise the signal of the run,
  unless the database refuses. \<open>execute_wave\<close> itself passes the database's operations to the loop.
\<close>

definition operator_cancels :: "int \<Rightarrow> time \<Rightarrow> ustr \<Rightarrow> db \<Rightarrow> bool \<times> db" where
  "operator_cancels rid now actor d =
    (case request_cancellation now rid actor d of (Inl _, d') \<Rightarrow> (False, d') | (Inr _, d') \<Rightarrow> (True, d'))"

definition execute_wave ::
  "int \<Rightarrow> int \<Rightarrow> int \<Rightarrow> int list \<Rightarrow> time \<Rightarrow> plan_item list \<Rightarrow> nat \<Rightarrow> bool \<Rightarrow> wave_event list \<Rightarrow>
    db \<Rightarrow> wave_status \<times> wave \<times> db"
where
  "execute_wave rid task environment nodes now items k signal events =
     run_wave (\<lambda>now. start_unit_result now rid task)
       (\<lambda>now sid. persist_unit_outcome now rid task sid environment nodes) (operator_cancels rid)
       k events (wave_of now items signal)"

section \<open>A run\<close>

text \<open>
  One script per wave: the operators who cancel before the wave is looked at, the time its
  first units start and what happens while it waits.
\<close>

record wave_script =
  ws_gap :: "(time \<times> ustr) list"
  ws_now :: time
  ws_events :: "wave_event list"

fun gap_cancels :: "int \<Rightarrow> (time \<times> ustr) list \<Rightarrow> bool \<Rightarrow> db \<Rightarrow> bool \<times> db" where
  "gap_cancels rid [] signal d = (signal, d)"
| "gap_cancels rid ((now, actor) # gap) signal d =
    (case operator_cancels rid now actor d of (signaled, d') \<Rightarrow>
       gap_cancels rid gap (signal \<or> signaled) d')"

datatype waves_status = WavesWaiting | WavesDone bool bool | WavesError orch_error

fun run_waves ::
  "int \<Rightarrow> int \<Rightarrow> int \<Rightarrow> int list \<Rightarrow> nat \<Rightarrow> wave_script list \<Rightarrow> plan_item list list \<Rightarrow> bool \<Rightarrow> bool \<Rightarrow>
    bool \<Rightarrow> db \<Rightarrow> waves_status \<times> db"
where
  "run_waves rid task environment nodes k scripts [] failed canceled signal d =
     (WavesDone failed canceled, d)"
| "run_waves rid task environment nodes k [] (items # waves) failed canceled signal d =
    (if failed \<or> canceled then (WavesDone failed canceled, d) else (WavesWaiting, d))"
| "run_waves rid task environment nodes k (script # scripts) (items # waves) failed canceled signal d =
    (if failed \<or> canceled then (WavesDone failed canceled, d)
     else (case gap_cancels rid (ws_gap script) signal d of (signal, d) \<Rightarrow>
       (case cancellation_requested d rid of
          Inl e \<Rightarrow> (WavesError e, d)
        | Inr requested \<Rightarrow>
            if requested then (WavesDone failed True, d)
            else (case execute_wave rid task environment nodes (ws_now script) items k signal
                (ws_events script) d of
               (Waiting, w, d) \<Rightarrow> (WavesWaiting, d)
             | (WaveError e, w, d) \<Rightarrow> (WavesError e, d)
             | (WaveDone oc, w, d) \<Rightarrow>
                 run_waves rid task environment nodes k scripts waves (oc = WaveFailed)
                   (oc = WaveCanceled) (w_signal w) d))))"

record execution_script =
  es_claim :: time
  es_waves :: "wave_script list"
  es_end :: time

definition execute_run ::
  "plan_env \<Rightarrow> execution_script \<Rightarrow> int \<Rightarrow> bool \<Rightarrow> db \<Rightarrow>
    (orch_error + (int \<times> run_status \<times> memo)) option \<times> db"
where
  "execute_run env script rid signal d =
    (case claim_deployment_run (es_claim script) rid d of
       (Inl e, d) \<Rightarrow> (Some (Inl e), d)
     | (Inr run, d) \<Rightarrow>
       let signal = (signal \<or> ex_cancel_requested run \<noteq> None) in
       (case plan_of_json env (ex_plan_json run) of
          None \<Rightarrow> (Some (Inl (Validation SnapshotCorrupt)), d)
        | Some plan \<Rightarrow>
          if plan_hash plan \<noteq> ex_plan_hash run then (Some (Inl (Conflict SnapshotHashMismatch)), d)
          else (case run_waves rid (ex_task run) (ex_environment run) (plan_nodes plan)
                 (nat (max 1 (ex_max_parallel run))) (es_waves script)
                 (execution_waves (plan_items plan)) False signal signal d of
              (WavesWaiting, d) \<Rightarrow> (None, d)
            | (WavesError e, d) \<Rightarrow> (Some (Inl e), d)
            | (WavesDone failed canceled, d) \<Rightarrow>
                let d1 = (if canceled then close_pending (es_end script) rid
                              (lit ''canceled_before_start'') CanceledNotStarted d
                          else if failed then close_pending (es_end script) rid
                              (lit ''blocked_by_previous_failure'') BlockedByPreviousFailure d
                          else d);
                    (result, d2) = finalize_deployment_run (es_end script) rid plan canceled d1
                in (Some result, d2))))"

text \<open>
  The task the deploy handler spawns: execute, and on an error fail the run; then the signal is
  dropped. \<open>None\<close> while the execution has not ended.
\<close>

definition spawned_execution ::
  "plan_env \<Rightarrow> execution_script \<Rightarrow> int \<Rightarrow> (orch_error \<Rightarrow> ustr) \<Rightarrow> db \<Rightarrow>
    (orch_error + (int \<times> run_status \<times> memo)) option \<times> db"
where
  "spawned_execution env script rid show d =
    (case execute_run env script rid False d of
       (Some (Inl e), d') \<Rightarrow>
         (Some (Inl e), snd (fail_run_on_internal_error (es_end script) rid (show e) d'))
     | r \<Rightarrow> r)"

section \<open>The ledger interface\<close>

fun outcome_status :: "unit_outcome \<Rightarrow> unit_result_status" where
  "outcome_status (UnitOk _) = UnitSuccess"
| "outcome_status (UnitFailure _ _ _) = UnitFailed"
| "outcome_status (UnitUnknown _) = UnitCanceledUnknown"

text \<open>
  What the wave loop relies on, of whoever records the units: a pending unit can be started
  and is running then, a running unit takes over the outcome it is persisted with, and a
  cancellation changes no unit.
\<close>

locale unit_ledger =
  fixes start :: "time \<Rightarrow> plan_item \<Rightarrow> ('s, orch_error, int) operation"
    and persist :: "time \<Rightarrow> int \<Rightarrow> plan_item \<Rightarrow> unit_outcome \<Rightarrow> 's \<Rightarrow> 's"
    and cancel :: "time \<Rightarrow> ustr \<Rightarrow> 's \<Rightarrow> bool \<times> 's"
    and status :: "'s \<Rightarrow> int \<Rightarrow> unit_result_status option"
    and sound :: "'s \<Rightarrow> bool"
  assumes start_pending: "sound s \<Longrightarrow> status s (item_unit_id item) = Some UnitPending \<Longrightarrow>
      \<exists>sid s'. start now item s = (Inr sid, s') \<and> sound s' \<and>
        status s' = (status s)(item_unit_id item \<mapsto> UnitRunning)"
    and persist_running: "sound s \<Longrightarrow> status s (item_unit_id item) = Some UnitRunning \<Longrightarrow>
      sound (persist now sid item oc s) \<and>
      status (persist now sid item oc s) = (status s)(item_unit_id item \<mapsto> outcome_status oc)"
    and cancel_keeps: "sound s \<Longrightarrow> cancel now actor s = (b, s') \<Longrightarrow> sound s' \<and> status s' = status s"

text \<open>
  The invariant of the loop, for a wave of the items \<open>items\<close> entered with the unit statuses
  \<open>st0\<close>: at most \<open>k\<close> units run, the pending ones are pending, the running ones running, and every
  other unit of the wave has an end the flags remember; units of no concern to
  the wave are as before.
\<close>

definition units_ok ::
  "int set \<Rightarrow> int set \<Rightarrow> int set \<Rightarrow> bool \<Rightarrow> bool \<Rightarrow> (int \<Rightarrow> unit_result_status option) \<Rightarrow>
    (int \<Rightarrow> unit_result_status option) \<Rightarrow> bool"
where
  "units_ok U P R failure canceled st0 st \<longleftrightarrow>
     P \<inter> R = {} \<and> P \<union> R \<subseteq> U \<and> (\<forall>u \<in> P. st u = Some UnitPending) \<and> (\<forall>u \<in> R. st u = Some UnitRunning) \<and>
     (\<forall>u \<in> U - P - R. st u = Some UnitSuccess \<or> (st u = Some UnitFailed \<and> failure) \<or>
        (st u = Some UnitCanceledUnknown \<and> canceled)) \<and>
     (\<forall>u. u \<notin> U \<longrightarrow> st u = st0 u)"

lemma units_ok_start:
  "units_ok U (insert u P) R f c st0 st \<Longrightarrow> u \<notin> P \<Longrightarrow>
     units_ok U P (insert u R) f c st0 (st(u \<mapsto> UnitRunning))"
  unfolding units_ok_def by auto

lemma units_ok_join:
  "units_ok U P (insert u R) f c st0 st \<Longrightarrow> u \<notin> R \<Longrightarrow>
     units_ok U P R (f \<or> fails oc) (c \<or> unknown oc) st0 (st(u \<mapsto> outcome_status oc))"
  unfolding units_ok_def by (cases oc) auto

lemma units_ok_flags:
  "units_ok U P R f c st0 st \<Longrightarrow> (f \<Longrightarrow> f') \<Longrightarrow> (c \<Longrightarrow> c') \<Longrightarrow> units_ok U P R f' c' st0 st"
  unfolding units_ok_def by blast

abbreviation run_unit :: "plan_item \<times> int \<Rightarrow> int" where
  "run_unit x \<equiv> item_unit_id (fst x)"

definition wave_sound ::
  "nat \<Rightarrow> int set \<Rightarrow> (int \<Rightarrow> unit_result_status option) \<Rightarrow> plan_item list \<Rightarrow>
    (plan_item \<times> int) list \<Rightarrow> bool \<Rightarrow> bool \<Rightarrow> (int \<Rightarrow> unit_result_status option) \<Rightarrow> bool"
where
  "wave_sound k U st0 pending running failure canceled st \<longleftrightarrow>
     length running \<le> k \<and> distinct (map item_unit_id pending) \<and> distinct (map run_unit running) \<and>
     units_ok U (set (map item_unit_id pending)) (set (map run_unit running)) failure canceled st0 st"

abbreviation wave_inv ::
  "nat \<Rightarrow> int set \<Rightarrow> (int \<Rightarrow> unit_result_status option) \<Rightarrow> wave \<Rightarrow>
    (int \<Rightarrow> unit_result_status option) \<Rightarrow> bool"
where
  "wave_inv k U st0 w \<equiv> wave_sound k U st0 (w_pending w) (w_running w) (w_failure w) (w_canceled w)"

lemma wave_sound_start:
  assumes "wave_sound k U st0 (item # pending) running failure canceled st" and "length running < k"
  shows "wave_sound k U st0 pending (running @ [(item, sid)]) failure canceled
    (st(item_unit_id item \<mapsto> UnitRunning))"
proof -
  have u: "units_ok U (insert (item_unit_id item) (set (map item_unit_id pending))) (set (map run_unit running))
      failure canceled st0 st" and d: "item_unit_id item \<notin> set (map item_unit_id pending)"
    "distinct (map run_unit running)" "distinct (map item_unit_id pending)"
    using assms(1) by (auto simp: wave_sound_def)
  have "item_unit_id item \<notin> set (map run_unit running)" using u by (auto simp: units_ok_def)
  with units_ok_start [OF u d(1)] d assms(2) show ?thesis by (simp add: wave_sound_def)
qed

lemma wave_sound_join:
  assumes "wave_sound k U st0 pending running failure canceled st" and "i < length running"
    and "running ! i = (item, sid)"
  shows "wave_sound k U st0 pending (take i running @ drop (Suc i) running)
     (failure \<or> fails oc) (canceled \<or> unknown oc) (st(item_unit_id item \<mapsto> outcome_status oc))"
proof -
  define rest where "rest = take i running @ drop (Suc i) running"
  have m: "map run_unit running =
      map run_unit (take i running) @ item_unit_id item # map run_unit (drop (Suc i) running)"
    using arg_cong [OF id_take_nth_drop [OF assms(2)], of "map run_unit"] assms(3)
    by (simp only: list.map map_append fst_conv)
  have len: "length running = Suc (length rest)" using assms(2) by (simp add: rest_def)
  have "distinct (map run_unit running)" using assms(1) by (simp add: wave_sound_def)
  then have d: "item_unit_id item \<notin> set (map run_unit rest)" "distinct (map run_unit rest)"
    unfolding m rest_def by (auto simp del: set_map simp: map_append)
  have s: "set (map run_unit running) = insert (item_unit_id item) (set (map run_unit rest))"
    unfolding m rest_def by auto
  have "units_ok U (set (map item_unit_id pending)) (insert (item_unit_id item) (set (map run_unit rest)))
      failure canceled st0 st" using assms(1) unfolding wave_sound_def s by simp
  from units_ok_join [OF this d(1), of oc] d(2) len assms(1) show ?thesis
    unfolding rest_def [symmetric] by (simp add: wave_sound_def)
qed

context unit_ledger
begin

lemma start_loop_inv:
  "sound s \<Longrightarrow> wave_sound k U st0 pending running failure canceled (status s) \<Longrightarrow>
    \<exists>p r s'. start_loop (start now) k pending running s = (Inr (p, r), s') \<and> sound s' \<and>
      wave_sound k U st0 p r failure canceled (status s') \<and> (p = [] \<or> length r = k) \<and>
      length p + length r = length pending + length running"
proof (induction pending arbitrary: running s)
  case (Cons item pending)
  show ?case
  proof (cases "length running < k")
    case False
    have "length running = k" using False Cons.prems(2) by (simp add: wave_sound_def)
    with Cons.prems show ?thesis by auto
  next
    case True
    have "status s (item_unit_id item) = Some UnitPending"
      using Cons.prems(2) by (simp add: wave_sound_def units_ok_def)
    then obtain sid s1 where s1: "start now item s = (Inr sid, s1)" "sound s1"
      "status s1 = (status s)(item_unit_id item \<mapsto> UnitRunning)"
      using start_pending [OF Cons.prems(1)] by blast
    have "wave_sound k U st0 pending (running @ [(item, sid)]) failure canceled (status s1)"
      unfolding s1(3) by (rule wave_sound_start [OF Cons.prems(2) True])
    from Cons.IH [OF s1(2) this] True s1(1) show ?thesis by simp
  qed
qed auto

end

definition stopped :: "wave \<Rightarrow> bool" where
  "stopped w \<longleftrightarrow> w_failure w \<or> w_canceled w \<or> w_signal w"

definition is_end :: "wave_event \<Rightarrow> bool" where
  "is_end e = (case e of UnitEnds _ _ _ \<Rightarrow> True | _ \<Rightarrow> False)"

definition panics :: "wave_event \<Rightarrow> bool" where
  "panics e = (case e of UnitEnds _ _ Panicked \<Rightarrow> True | _ \<Rightarrow> False)"

abbreviation wave_size :: "wave \<Rightarrow> nat" where
  "wave_size w \<equiv> length (w_pending w) + length (w_running w)"

text \<open>How a wave stands when the loop gives control back with the status \<open>x\<close>.\<close>

definition wave_state :: "wave_status \<Rightarrow> wave \<Rightarrow> bool" where
  "wave_state x w = (case x of
     Waiting \<Rightarrow> w_running w \<noteq> []
   | WaveDone oc \<Rightarrow> oc = wave_outcome_of w \<and> w_running w = [] \<and>
       (w_pending w = [] \<or> w_failure w \<or> w_canceled w)
   | WaveError e \<Rightarrow> e = DatabaseError UnitAborted)"

lemma wave_sound_canceled:
  "wave_sound k U st0 p r f c st \<Longrightarrow> wave_sound k U st0 p r f (c \<or> b) st"
  unfolding wave_sound_def by (auto intro: units_ok_flags)

context unit_ledger
begin

lemma turn_inv:
  assumes "sound s" and "wave_inv k U st0 w (status s)" and "0 < k"
  shows "\<exists>x w' s'. wave_turn start k w s = (x, w', s') \<and> sound s' \<and> wave_inv k U st0 w' (status s') \<and>
     w_failure w' = w_failure w \<and> w_signal w' = w_signal w \<and> (\<forall>e. x \<noteq> WaveError e) \<and>
     wave_state x w' \<and> wave_size w' = wave_size w \<and> (stopped w \<longrightarrow> stopped w' \<and> w_pending w' = w_pending w)"
proof (cases "w_pending w = [] \<and> w_running w = []")
  case True
  with assms show ?thesis by (auto simp: wave_turn_def wave_state_def stopped_def)
next
  case False
  let ?c = "w_canceled w \<or> w_signal w"
  have inv: "wave_sound k U st0 (w_pending w) (w_running w) (w_failure w) ?c (status s)"
    by (rule wave_sound_canceled [OF assms(2)])
  show ?thesis
  proof (cases "w_failure w \<or> ?c")
    case True
    with False inv assms(1) show ?thesis
      by (auto simp: wave_turn_def Let_def wave_state_def stopped_def)
  next
    case go: False
    obtain p r s' where l: "start_loop (start (w_clock w)) k (w_pending w) (w_running w) s = (Inr (p, r), s')"
      "sound s'" "wave_sound k U st0 p r (w_failure w) ?c (status s')" "p = [] \<or> length r = k"
      "length p + length r = wave_size w"
      using start_loop_inv [OF assms(1) inv] by blast
    with False go assms(3) show ?thesis
      by (auto simp: wave_turn_def Let_def wave_state_def stopped_def)
  qed
qed

lemma joined_inv:
  assumes "sound s" and "wave_inv k U st0 w (status s)" and "w_running w \<noteq> []"
    and "i = pick mod length (w_running w)" and "w_running w ! i = (item, sid)"
  shows "sound (persist now sid item oc s)"
    and "wave_inv k U st0 (unit_joined now i oc w) (status (persist now sid item oc s))"
    and "Suc (wave_size (unit_joined now i oc w)) = wave_size w"
    and "stopped w \<Longrightarrow> stopped (unit_joined now i oc w)"
    and "w_pending (unit_joined now i oc w) = w_pending w"
proof -
  have i: "i < length (w_running w)" using assms(3,4) by simp
  then have "(item, sid) \<in> set (w_running w)" using assms(5) by (metis nth_mem)
  then have "status s (item_unit_id item) = Some UnitRunning"
    using assms(2) unfolding wave_sound_def units_ok_def by force
  note p = persist_running [OF assms(1) this, of now sid oc]
  show "sound (persist now sid item oc s)" using p by simp
  show "wave_inv k U st0 (unit_joined now i oc w) (status (persist now sid item oc s))"
    unfolding p [THEN conjunct2] unit_joined_def
    using wave_sound_join [OF assms(2) i assms(5), of oc] by simp
  show "Suc (wave_size (unit_joined now i oc w)) = wave_size w"
    using i by (simp add: unit_joined_def)
qed (auto simp: unit_joined_def stopped_def)

lemma wait_inv:
  "sound s \<Longrightarrow> wave_inv k U st0 w (status s) \<Longrightarrow> 0 < k \<Longrightarrow> w_running w \<noteq> [] \<Longrightarrow>
   \<exists>x w' s'. wave_wait start persist cancel k events w s = (x, w', s') \<and>
    sound s' \<and> wave_inv k U st0 w' (status s') \<and> wave_state x w' \<and>
    (stopped w \<longrightarrow> stopped w' \<and> w_pending w' = w_pending w) \<and>
    (x = Waiting \<longrightarrow> length (filter is_end events) + wave_size w' = wave_size w) \<and>
    ((\<exists>e. x = WaveError e) \<longrightarrow> (\<exists>e \<in> set events. panics e))"
proof (induction events arbitrary: w s)
  case Nil
  then show ?case by (simp add: wave_state_def)
next
  case (Cons event events)
  show ?case
  proof (cases event)
    case (CancelArrives now actor)
    obtain b s1 where c: "cancel now actor s = (b, s1)" by fastforce
    with cancel_keeps [OF Cons.prems(1)] have s1: "sound s1" "status s1 = status s" by auto
    let ?w = "w\<lparr>w_signal := w_signal w \<or> b\<rparr>"
    have st: "stopped w \<Longrightarrow> stopped ?w" by (auto simp: stopped_def)
    have n: "\<not> is_end event" "\<not> panics event" using CancelArrives by (auto simp: is_end_def panics_def)
    have step: "wave_wait start persist cancel k (event # events) w s = wave_wait start persist cancel k events ?w s1"
      by (simp add: CancelArrives c)
    have "wave_inv k U st0 ?w (status s1)" "w_running ?w \<noteq> []" using Cons.prems(2,4) s1(2) by simp_all
    from Cons.IH [OF s1(1) this(1) Cons.prems(3) this(2)] obtain x w2 s2
      where "wave_wait start persist cancel k events ?w s1 = (x, w2, s2)"
      "sound s2 \<and> wave_inv k U st0 w2 (status s2) \<and> wave_state x w2"
      "stopped ?w \<longrightarrow> stopped w2 \<and> w_pending w2 = w_pending ?w"
      "x = Waiting \<longrightarrow> length (filter is_end events) + wave_size w2 = wave_size ?w"
      "(\<exists>e. x = WaveError e) \<longrightarrow> (\<exists>e \<in> set events. panics e)" by blast
    with st n show ?thesis unfolding step by (intro exI [of _ x] exI [of _ w2] exI [of _ s2]) auto
  next
    case (UnitEnds now pick unit_end)
    show ?thesis
    proof (cases unit_end)
      case Panicked
      with UnitEnds Cons.prems show ?thesis by (simp add: wave_state_def panics_def)
    next
      case (Finished oc)
      define i where "i = pick mod length (w_running w)"
      obtain item sid where it: "w_running w ! i = (item, sid)" by fastforce
      note j = joined_inv [OF Cons.prems(1,2,4) i_def it, of now oc]
      obtain x w1 s1 where t: "wave_turn start k (unit_joined now i oc w) (persist now sid item oc s) = (x, w1, s1)"
        and inv: "sound s1" "wave_inv k U st0 w1 (status s1)" and st: "wave_state x w1" "\<forall>e. x \<noteq> WaveError e"
        and size: "wave_size w1 = wave_size (unit_joined now i oc w)"
        and stop: "stopped (unit_joined now i oc w) \<longrightarrow> stopped w1 \<and> w_pending w1 = w_pending (unit_joined now i oc w)"
        using turn_inv [OF j(1,2) Cons.prems(3)] by blast
      have step: "wave_wait start persist cancel k (event # events) w s =
          (if x = Waiting then wave_wait start persist cancel k events w1 s1 else (x, w1, s1))"
        by (simp add: UnitEnds Finished i_def [symmetric] it t Let_def split: wave_status.split)
      have n: "is_end event" using UnitEnds by (simp add: is_end_def)
      show ?thesis
      proof (cases "x = Waiting")
        case True
        then have "w_running w1 \<noteq> []" using st(1) by (simp add: wave_state_def)
        from Cons.IH [OF inv Cons.prems(3) this] show ?thesis
          unfolding step using True j(3,4,5) n stop size by auto
      next
        case False
        then show ?thesis unfolding step using inv st j(4,5) stop by auto
      qed
    qed
  qed
qed

lemma run_wave_inv:
  assumes "sound s" and "wave_inv k U st0 w (status s)" and "0 < k"
  shows "\<exists>x w' s'. run_wave start persist cancel k events w s = (x, w', s') \<and>
    sound s' \<and> wave_inv k U st0 w' (status s') \<and> wave_state x w' \<and>
    (x = Waiting \<longrightarrow> length (filter is_end events) < wave_size w) \<and>
    ((\<exists>e. x = WaveError e) \<longrightarrow> (\<exists>e \<in> set events. panics e))"
proof -
  obtain x w1 s1 where t: "wave_turn start k w s = (x, w1, s1)"
    and inv: "sound s1" "wave_inv k U st0 w1 (status s1)" and st: "wave_state x w1" "\<forall>e. x \<noteq> WaveError e"
    and size: "wave_size w1 = wave_size w"
    using turn_inv [OF assms] by blast
  show ?thesis
  proof (cases "x = Waiting")
    case True
    then have "w_running w1 \<noteq> []" using st(1) by (simp add: wave_state_def)
    from wait_inv [OF inv assms(3) this, of events] obtain y w2 s2
      where y: "wave_wait start persist cancel k events w1 s1 = (y, w2, s2)"
      "sound s2" "wave_inv k U st0 w2 (status s2)" "wave_state y w2"
      "y = Waiting \<longrightarrow> length (filter is_end events) + wave_size w2 = wave_size w1"
      "(\<exists>e. y = WaveError e) \<longrightarrow> (\<exists>e \<in> set events. panics e)" by blast
    have "y = Waiting \<longrightarrow> 0 < wave_size w2" using y(4) by (auto simp: wave_state_def)
    then have "y = Waiting \<longrightarrow> length (filter is_end events) < wave_size w" using y(5) size by linarith
    with y show ?thesis by (intro exI [of _ y] exI [of _ w2] exI [of _ s2]) (simp add: run_wave_def t True)
  next
    case False
    then have "run_wave start persist cancel k events w s = (x, w1, s1)"
      by (simp add: run_wave_def t split: wave_status.split)
    with inv st False show ?thesis by blast
  qed
qed

lemma wait_append:
  "wave_wait start persist cancel k (es @ fs) w s =
     (case wave_wait start persist cancel k es w s of
        (Waiting, w', s') \<Rightarrow> wave_wait start persist cancel k fs w' s' | done \<Rightarrow> done)"
proof (induction es arbitrary: w s)
  case (Cons e es)
  show ?case
  proof (cases e)
    case (UnitEnds now pick u)
    then show ?thesis
      by (cases u) (auto simp: Let_def Cons.IH split: prod.split wave_status.split)
  qed (auto simp: Cons.IH split: prod.split)
qed simp

end

end
