(* ===== verification/Execution.thy ===== *)
theory Execution
  imports Waves
begin

text \<open>
  The orchestrator's own operations interpret \<open>unit_ledger\<close>, and what a wave keeps of the
  results of a run is lifted to the whole execution: the waves before the current one are
  finished, the ones after it untouched, and nothing else of the run changes.
\<close>

section \<open>The orchestrator keeps the ledger\<close>

definition unit_status :: "int \<Rightarrow> db \<Rightarrow> int \<Rightarrow> unit_result_status option" where
  "unit_status rid d u = map_option res_status (find (\<lambda>r. res_unit r = u) (run_results d rid))"

text \<open>The run is being executed; it has a unit, and no unit has two results in it.\<close>

definition executing :: "int \<Rightarrow> int \<Rightarrow> db \<Rightarrow> bool" where
  "executing rid task d \<longleftrightarrow> ids_ok d \<and> run_results d rid \<noteq> [] \<and> distinct (map res_unit (run_results d rid)) \<and>
     (\<exists>r \<in> set (runs d). run_id r = rid \<and> run_status r = RunRunning \<and> run_task r = Some task)"

lemma affected_run: "affected (\<lambda>r. res_run r = rid \<and> P r) (results d) = affected P (run_results d rid)"
  by (simp add: affected_def run_results_def conj_commute)

lemma affected_find:
  "distinct (map k xs) \<Longrightarrow> find (\<lambda>r. k r = v) xs = Some r \<Longrightarrow> Q r \<Longrightarrow> affected (\<lambda>r. k r = v \<and> Q r) xs = 1"
proof (induction xs)
  case (Cons x xs)
  show ?case
  proof (cases "k x = v")
    case True
    then have "affected (\<lambda>r. k r = v \<and> Q r) xs = 0"
      unfolding affected_0 using Cons.prems(1) by (metis distinct.simps(2) image_eqI list.simps(9) set_map)
    with True Cons.prems show ?thesis by simp
  next
    case False
    with Cons show ?thesis by simp
  qed
qed simp

lemma unit_status_update:
  assumes "results d' = modify (\<lambda>r. res_run r = rid \<and> res_unit r = u \<and> res_status r = S) f (results d)"
    and f: "\<And>r. res_run (f r) = res_run r" "\<And>r. res_unit (f r) = res_unit r" "\<And>r. res_status (f r) = T"
    and "unit_status rid d u = Some S"
  shows "unit_status rid d' = (unit_status rid d)(u \<mapsto> T)"
    and "map res_unit (run_results d' rid) = map res_unit (run_results d rid)"
proof -
  let ?p = "\<lambda>r. res_run r = rid \<and> res_unit r = u \<and> res_status r = S"
  have rr: "run_results d' rid = modify ?p f (run_results d rid)"
    unfolding run_results_def assms(1) by (rule filter_modify_inv) (simp add: f)
  show "map res_unit (run_results d' rid) = map res_unit (run_results d rid)"
    unfolding rr by (rule map_modify) (simp add: f)
  show "unit_status rid d' = (unit_status rid d)(u \<mapsto> T)"
  proof
    fix v
    have e: "find (\<lambda>r. res_unit r = v) (run_results d' rid) =
        map_option (\<lambda>r. if ?p r then f r else r) (find (\<lambda>r. res_unit r = v) (run_results d rid))"
      unfolding rr by (rule find_modify) (simp add: f)
    show "unit_status rid d' v = ((unit_status rid d)(u \<mapsto> T)) v"
    proof (cases "find (\<lambda>r. res_unit r = v) (run_results d rid)")
      case None
      with assms(5) show ?thesis unfolding unit_status_def e by auto
    next
      case (Some r)
      then have "res_unit r = v" "res_run r = rid" by (auto dest!: find_SomeD simp: run_results_def)
      with Some assms(5) show ?thesis unfolding unit_status_def e by (auto simp: f)
    qed
  qed
qed

lemma executing_keeps:
  assumes "executing rid task d" and "runs d' = runs d" and "run_seq d' = run_seq d"
    and "map res_unit (run_results d' rid) = map res_unit (run_results d rid)"
  shows "executing rid task d'"
proof -
  have "run_results d' rid \<noteq> []" using assms(1,4) by (metis executing_def list.map_disc_iff)
  with assms show ?thesis by (simp add: executing_def ids_ok_def)
qed

lemma start_unit_pending:
  assumes "executing rid task d" and "unit_status rid d (item_unit_id item) = Some UnitPending"
  shows "\<exists>sid d'. start_unit_result now rid task item d = (Inr sid, d') \<and> executing rid task d' \<and>
     unit_status rid d' = (unit_status rid d)(item_unit_id item \<mapsto> UnitRunning)"
proof -
  let ?p = "\<lambda>r. res_run r = rid \<and> res_unit r = item_unit_id item \<and> res_status r = UnitPending"
  let ?f = "\<lambda>r. r\<lparr>res_status := UnitRunning, res_started := Some now\<rparr>"
  obtain r where "find (\<lambda>r. res_unit r = item_unit_id item) (run_results d rid) = Some r" "res_status r = UnitPending"
    using assms(2) by (auto simp: unit_status_def)
  then have "affected ?p (results d) = 1"
    using assms(1) unfolding affected_run executing_def by (intro affected_find) auto
  then obtain sid d' where s: "start_unit_result now rid task item d = (Inr sid, d')"
    and r: "results d' = modify ?p ?f (results d)" "runs d' = runs d" "run_seq d' = run_seq d"
    by (auto simp: start_unit_result_def start_unit_tx_def transaction_def Let_def snd_split insert_step_def
        split: prod.splits)
  note u = unit_status_update [OF r(1) _ _ _ assms(2)]
  have "unit_status rid d' = (unit_status rid d)(item_unit_id item \<mapsto> UnitRunning)" by (rule u) simp_all
  moreover have "executing rid task d'" by (rule executing_keeps [OF assms(1) r(2,3)]) (rule u, simp_all)
  ultimately show ?thesis using s by blast
qed

lemma persist_results:
  "\<exists>f. results (persist_unit_outcome now rid task sid e nodes item oc d) =
      modify (\<lambda>r. res_run r = rid \<and> res_unit r = item_unit_id item \<and> res_status r = UnitRunning) f (results d) \<and>
      (\<forall>r. res_run (f r) = res_run r \<and> res_unit (f r) = res_unit r \<and> res_status (f r) = outcome_status oc)"
  by (cases oc) (auto simp: persist_unit_outcome_def Let_def intro!: exI)

lemma persist_unit_running:
  assumes "executing rid task d" and "unit_status rid d (item_unit_id item) = Some UnitRunning"
  shows "executing rid task (persist_unit_outcome now rid task sid e nodes item oc d) \<and>
     unit_status rid (persist_unit_outcome now rid task sid e nodes item oc d) =
       (unit_status rid d)(item_unit_id item \<mapsto> outcome_status oc)"
proof -
  let ?d' = "persist_unit_outcome now rid task sid e nodes item oc d"
  obtain f where r: "results ?d' = modify (\<lambda>r. res_run r = rid \<and> res_unit r = item_unit_id item \<and>
       res_status r = UnitRunning) f (results d)"
    and f: "\<And>r. res_run (f r) = res_run r" "\<And>r. res_unit (f r) = res_unit r"
      "\<And>r. res_status (f r) = outcome_status oc"
    using persist_results [of now rid task sid e nodes item oc d] by blast
  note u = unit_status_update [OF r f assms(2)]
  from u(1) executing_keeps [OF assms(1) persist_runs u(2)] show ?thesis by simp
qed

lemma cancel_keeps_executing:
  assumes "executing rid task d" and "operator_cancels rid now actor d = (b, d')"
  shows "executing rid task d' \<and> unit_status rid d' = unit_status rid d"
proof -
  obtain r where r: "r \<in> set (runs d)" "run_id r = rid" "run_status r = RunRunning" "run_task r = Some task"
    and ids: "ids_ok d" using assms(1) by (auto simp: executing_def)
  obtain res where q: "request_cancellation now rid actor d = (res, d')"
    using assms(2) by (auto simp: operator_cancels_def split: prod.splits sum.splits)
  have "results d' = results d \<and> (\<exists>r' \<in> set (runs d'). run_id r' = rid \<and> run_status r' = RunRunning \<and>
      run_task r' = Some task)"
  proof (cases "trim actor = [] \<or> run_cancel_requested r \<noteq> None")
    case True
    then have "d' = d"
      using q request_cancellation_row [OF ids r(1,2,4), of actor now] r(3)
      by (auto simp: request_cancellation_def Let_def split: if_splits)
    with r show ?thesis by auto
  next
    case False
    have f: "runs d' = modify (\<lambda>r. run_id r = rid \<and> run_status r \<in> {RunQueued, RunRunning} \<and> run_cancel_requested r = None)
         (\<lambda>r. r\<lparr>run_cancel_requested := Some now, run_cancel_by := trim actor, run_summary := CancelPending\<rparr>) (runs d)"
      and "results d' = results d"
      using q request_cancellation_row [OF ids r(1,2,4), of actor now] r(3) False
      by (auto simp: flag_cancellation_def)
    moreover have "r\<lparr>run_cancel_requested := Some now, run_cancel_by := trim actor, run_summary := CancelPending\<rparr> \<in> set (runs d')"
      unfolding f by (rule in_modify [OF r(1)]) (use r False in simp_all)
    ultimately show ?thesis using r by (intro conjI bexI) simp_all
  qed
  moreover have "ids_ok d'" using runs_advance_ids [OF request_advances [of d now rid actor] ids] q by simp
  ultimately show ?thesis using assms(1)
    by (auto simp: executing_def unit_status_def [abs_def] run_results_def)
qed

interpretation ledger: unit_ledger
  "\<lambda>now. start_unit_result now rid task"
  "\<lambda>now sid. persist_unit_outcome now rid task sid environment nodes"
  "operator_cancels rid" "unit_status rid" "executing rid task"
  for rid task environment nodes
  by unfold_locales
    (erule (1) start_unit_pending, erule (1) persist_unit_running, erule (1) cancel_keeps_executing)

section \<open>One wave on the database\<close>

abbreviation units_of :: "plan_item list \<Rightarrow> int set" where
  "units_of items \<equiv> set (map item_unit_id items)"

lemma wave_of_inv:
  assumes "distinct (map item_unit_id items)" and "\<forall>u \<in> units_of items. unit_status rid d u = Some UnitPending"
  shows "wave_inv k (units_of items) (unit_status rid d) (wave_of now items signal) (unit_status rid d)"
  using assms by (auto simp: wave_sound_def units_ok_def wave_of_def)

lemma execute_wave_inv:
  assumes "executing rid task d" and "distinct (map item_unit_id items)"
    and "\<forall>i \<in> set items. unit_status rid d (item_unit_id i) = Some UnitPending" and "0 < k"
    and "execute_wave rid task environment nodes now items k signal events d = (x, w, d')"
  shows "executing rid task d' \<and> wave_inv k (units_of items) (unit_status rid d) w (unit_status rid d') \<and>
    wave_state x w \<and> (x = Waiting \<longrightarrow> length (filter is_end events) < length items) \<and>
    ((\<exists>e. x = WaveError e) \<longrightarrow> (\<exists>e \<in> set events. panics e))"
proof -
  have "\<forall>u \<in> units_of items. unit_status rid d u = Some UnitPending" using assms(3) by simp
  from ledger.run_wave_inv [OF assms(1) wave_of_inv [OF assms(2) this, of k now signal] assms(4),
      of environment nodes events] assms(5)
  show ?thesis unfolding execute_wave_def by (simp add: wave_of_def)
qed

lemma units_ok_ended:
  "units_ok U P R f c st0 st \<Longrightarrow> u \<in> U \<Longrightarrow> st u \<noteq> Some UnitPending \<Longrightarrow> st u \<noteq> Some UnitRunning \<Longrightarrow>
     st u = Some UnitSuccess \<or> (st u = Some UnitFailed \<and> f) \<or> (st u = Some UnitCanceledUnknown \<and> c)"
  unfolding units_ok_def by blast

lemma units_ok_running:
  assumes "units_ok U P R f c st0 st" and "st u = Some UnitRunning" and "u \<notin> U \<Longrightarrow> st0 u \<noteq> Some UnitRunning"
  shows "u \<in> R"
proof (rule ccontr)
  assume "u \<notin> R"
  moreover have "u \<in> U" using assms unfolding units_ok_def by metis
  moreover have "u \<notin> P" using assms(1,2) unfolding units_ok_def by auto
  ultimately have "st u = Some UnitSuccess \<or> st u = Some UnitFailed \<or> st u = Some UnitCanceledUnknown"
    using assms(1) unfolding units_ok_def by blast
  with assms(2) show False by auto
qed



lemma running_count:
  assumes "wave_inv k U st0 w (unit_status rid d)" and "executing rid task d"
    and "\<forall>u. u \<notin> U \<longrightarrow> st0 u \<noteq> Some UnitRunning"
  shows "affected (\<lambda>r. res_run r = rid \<and> res_status r = UnitRunning) (results d) \<le> k"
proof -
  let ?rs = "filter (\<lambda>r. res_status r = UnitRunning) (run_results d rid)"
  have dis: "distinct (map res_unit (run_results d rid))" using assms(2) by (simp add: executing_def)
  then have d: "distinct (map res_unit ?rs)" by (rule distinct_map_filter)
  have "res_unit r \<in> set (map run_unit (w_running w))" if r: "r \<in> set ?rs" for r
  proof -
    have "find (\<lambda>q. res_unit q = res_unit r) (run_results d rid) = Some r"
      using find_key [OF dis, of r "res_unit r"] r by simp
    then have run: "unit_status rid d (res_unit r) = Some UnitRunning" using r by (simp add: unit_status_def)
    have "units_ok U (set (map item_unit_id (w_pending w))) (set (map run_unit (w_running w)))
        (w_failure w) (w_canceled w) st0 (unit_status rid d)" using assms(1) by (simp add: wave_sound_def)
    from units_ok_running [OF this run] assms(3) show ?thesis by blast
  qed
  then have "set (map res_unit ?rs) \<subseteq> set (map run_unit (w_running w))" by auto
  then have "card (set (map res_unit ?rs)) \<le> card (set (map run_unit (w_running w)))"
    by (intro card_mono) simp_all
  also have "\<dots> \<le> length (w_running w)" by (metis card_length length_map)
  finally have "length ?rs \<le> length (w_running w)" using distinct_card [OF d] by simp
  then show ?thesis using assms(1) unfolding affected_run by (simp add: affected_def wave_sound_def)
qed

text \<open>
  C7. A wave never runs more units at a time than the environment allows: whenever it
  waits, and when it ends, at most \<open>k\<close> units of the run are running in the database.
\<close>

theorem wave_respects_parallel_limit:
  assumes "executing rid task d" and "distinct (map item_unit_id items)"
    and "\<forall>i \<in> set items. unit_status rid d (item_unit_id i) = Some UnitPending" and "0 < k"
    and "\<forall>u. unit_status rid d u \<noteq> Some UnitRunning"
    and "execute_wave rid task environment nodes now items k signal events d = (x, w, d')"
  shows "affected (\<lambda>r. res_run r = rid \<and> res_status r = UnitRunning) (results d') \<le> k"
proof -
  have "executing rid task d'" "wave_inv k (units_of items) (unit_status rid d) w (unit_status rid d')"
    using execute_wave_inv [OF assms(1-4,6)] by simp_all
  then show ?thesis using assms(5) by (intro running_count) auto
qed


section \<open>All waves\<close>

text \<open>
  Waves run in order when units of a wave are touched only after every unit of the earlier
  waves has succeeded.
\<close>

definition untouched :: "unit_result_status option \<Rightarrow> bool" where
  "untouched s \<longleftrightarrow> s \<in> {Some UnitPending, Some UnitNotStarted}"

fun in_order :: "(int \<Rightarrow> unit_result_status option) \<Rightarrow> plan_item list list \<Rightarrow> bool" where
  "in_order st [] \<longleftrightarrow> True"
| "in_order st (items # waves) \<longleftrightarrow>
     ((\<forall>i \<in> set items. st (item_unit_id i) = Some UnitSuccess) \<or>
      (\<forall>i \<in> set (concat waves). untouched (st (item_unit_id i)))) \<and> in_order st waves"

lemma in_order_untouched:
  "\<forall>i \<in> set (concat waves). untouched (st (item_unit_id i)) \<Longrightarrow> in_order st waves"
  by (induction waves) auto

lemma in_order_cong:
  "(\<And>i. i \<in> set (concat waves) \<Longrightarrow> st (item_unit_id i) = st' (item_unit_id i)) \<Longrightarrow>
     in_order st waves = in_order st' waves"
  by (induction waves) auto

text \<open>How the units of the waves stand when the waves give control back.\<close>

definition waves_state ::
  "waves_status \<Rightarrow> plan_item list \<Rightarrow> (int \<Rightarrow> unit_result_status option) \<Rightarrow> bool"
where
  "waves_state x items st \<longleftrightarrow> (case x of
     WavesWaiting \<Rightarrow> True
   | WavesError e \<Rightarrow> True
   | WavesDone failed canceled \<Rightarrow>
       (\<forall>i \<in> set items. st (item_unit_id i) \<in> {Some UnitPending, Some UnitSuccess, Some UnitFailed,
           Some UnitCanceledUnknown}) \<and>
       (failed \<or> canceled \<or> (\<forall>i \<in> set items. st (item_unit_id i) = Some UnitSuccess)))"

lemma gap_cancels_keep:
  "executing rid task d \<Longrightarrow> gap_cancels rid gap signal d = (b, d') \<Longrightarrow>
     executing rid task d' \<and> unit_status rid d' = unit_status rid d"
proof (induction gap arbitrary: signal d)
  case (Cons c gap)
  obtain now actor where c: "c = (now, actor)" by fastforce
  obtain s1 d1 where o: "operator_cancels rid now actor d = (s1, d1)" by fastforce
  from cancel_keeps_executing [OF Cons.prems(1) o] Cons.IH [of d1 "signal \<or> s1"] Cons.prems(2)
  show ?case by (simp add: c o)
qed simp

lemma executing_row: "executing rid task d \<Longrightarrow> \<exists>b. cancellation_requested d rid = Inr b"
  unfolding executing_def cancellation_requested_def using find_run_row [of d _ rid] by fastforce

lemma wave_done_units:
  assumes "wave_inv k (units_of items) st0 w st" and "wave_state (WaveDone oc) w" and "i \<in> set items"
  shows "st (item_unit_id i) \<in> {Some UnitPending, Some UnitSuccess, Some UnitFailed, Some UnitCanceledUnknown}"
    and "oc = WaveSuccess \<Longrightarrow> st (item_unit_id i) = Some UnitSuccess"
proof -
  have w: "w_running w = []" "oc = wave_outcome_of w" "w_pending w = [] \<or> w_failure w \<or> w_canceled w"
    using assms(2) by (simp_all add: wave_state_def)
  have ok: "units_ok (units_of items) (units_of (w_pending w)) {} (w_failure w) (w_canceled w) st0 st"
    using assms(1) w(1) by (simp add: wave_sound_def)
  have u: "item_unit_id i \<in> units_of items" using assms(3) by simp
  show "st (item_unit_id i) \<in> {Some UnitPending, Some UnitSuccess, Some UnitFailed, Some UnitCanceledUnknown}"
  proof (cases "st (item_unit_id i) = Some UnitPending")
    case False
    have "st (item_unit_id i) \<noteq> Some UnitRunning" using units_ok_running [OF ok] u by blast
    from units_ok_ended [OF ok u False this] show ?thesis by blast
  qed simp
  assume "oc = WaveSuccess"
  then have f: "\<not> w_failure w" "\<not> w_canceled w" "w_pending w = []"
    using w(2,3) by (auto simp: wave_outcome_of_def split: if_splits)
  with ok u show "st (item_unit_id i) = Some UnitSuccess" by (auto simp: units_ok_def)
qed

definition enough :: "plan_item list \<Rightarrow> wave_script \<Rightarrow> bool" where
  "enough items script \<longleftrightarrow> length items \<le> length (filter is_end (ws_events script)) \<and>
     (\<forall>e \<in> set (ws_events script). \<not> panics e)"

definition waves_inv ::
  "int \<Rightarrow> int \<Rightarrow> plan_item list list \<Rightarrow> (int \<Rightarrow> unit_result_status option) \<Rightarrow> waves_status \<Rightarrow> db \<Rightarrow> bool"
where
  "waves_inv rid task waves st0 x d \<longleftrightarrow> executing rid task d \<and>
     (\<forall>u. u \<notin> units_of (concat waves) \<longrightarrow> unit_status rid d u = st0 u) \<and>
     waves_state x (concat waves) (unit_status rid d) \<and> in_order (unit_status rid d) waves"

abbreviation all_pending :: "int \<Rightarrow> db \<Rightarrow> plan_item list \<Rightarrow> bool" where
  "all_pending rid d items \<equiv> \<forall>i \<in> set items. unit_status rid d (item_unit_id i) = Some UnitPending"

lemma waves_idle:
  assumes "executing rid task d" and "all_pending rid d (concat waves)"
    and "x = WavesWaiting \<or> (\<exists>f c. x = WavesDone f c \<and> (f \<or> c \<or> waves = []))"
    and "\<forall>u. unit_status rid d u = st0 u"
  shows "waves_inv rid task waves st0 x d"
proof -
  have "in_order (unit_status rid d) waves"
    by (rule in_order_untouched) (use assms(2) in \<open>auto simp: untouched_def\<close>)
  moreover have "waves_state x (concat waves) (unit_status rid d)"
    using assms(2,3) by (auto simp: waves_state_def)
  ultimately show ?thesis using assms(1,4) by (simp add: waves_inv_def)
qed

lemma run_waves_stopped:
  "failed \<or> canceled \<Longrightarrow> run_waves rid task environment nodes k scripts waves failed canceled signal d
     = (WavesDone failed canceled, d)"
  by (cases waves; cases scripts) auto

lemma waves_inv_interrupted:
  assumes "executing rid task d2" and inv: "wave_inv k (units_of items) st0 w (unit_status rid d2)"
    and "\<forall>i \<in> set (concat waves). st0 (item_unit_id i) = Some UnitPending"
    and "units_of items \<inter> units_of (concat waves) = {}"
    and "waves_state x (concat (items # waves)) (unit_status rid d2)"
  shows "waves_inv rid task (items # waves) st0 x d2"
proof -
  have out: "unit_status rid d2 u = st0 u" if "u \<notin> units_of items" for u
    using inv that by (simp add: wave_sound_def units_ok_def)
  have p: "\<forall>i \<in> set (concat waves). unit_status rid d2 (item_unit_id i) = Some UnitPending"
  proof
    fix i assume i: "i \<in> set (concat waves)"
    then have "item_unit_id i \<notin> units_of items" using assms(4) by (metis IntI empty_iff image_eqI set_map)
    moreover have "st0 (item_unit_id i) = Some UnitPending" using assms(3) i by blast
    ultimately show "unit_status rid d2 (item_unit_id i) = Some UnitPending" using out by simp
  qed
  then have "\<forall>i \<in> set (concat waves). untouched (unit_status rid d2 (item_unit_id i))"
    by (simp add: untouched_def)
  then have "in_order (unit_status rid d2) (items # waves)" by (simp add: in_order_untouched)
  with assms(1,5) out show ?thesis unfolding waves_inv_def by simp
qed

lemma waves_inv_succeeded:
  assumes "waves_inv rid task waves st1 x d'" and "\<forall>i \<in> set items. st1 (item_unit_id i) = Some UnitSuccess"
    and "\<forall>u. u \<notin> units_of items \<longrightarrow> st1 u = st0 u" and "units_of items \<inter> units_of (concat waves) = {}"
  shows "waves_inv rid task (items # waves) st0 x d'"
proof -
  have s: "\<forall>i \<in> set items. unit_status rid d' (item_unit_id i) = Some UnitSuccess"
  proof
    fix i assume i: "i \<in> set items"
    then have "item_unit_id i \<notin> units_of (concat waves)" using assms(4) by (metis IntI empty_iff image_eqI set_map)
    then show "unit_status rid d' (item_unit_id i) = Some UnitSuccess"
      using assms(1,2) i by (simp add: waves_inv_def)
  qed
  with assms(1,3) show ?thesis
    by (auto simp: waves_inv_def waves_state_def split: waves_status.splits)
qed

lemma run_waves_inv:
  assumes "executing rid task d" and "distinct (map item_unit_id (concat waves))"
    and "all_pending rid d (concat waves)" and "0 < k"
    and "run_waves rid task environment nodes k scripts waves failed canceled signal d = (x, d')"
  shows "waves_inv rid task waves (unit_status rid d) x d'"
  using assms
proof (induction rid task environment nodes k scripts waves failed canceled signal d
    rule: run_waves.induct)
  case (1 rid task environment nodes k scripts failed canceled signal d)
  then show ?case by (intro waves_idle) auto
next
  case (2 rid task environment nodes k items waves failed canceled signal d)
  from 2(5) show ?case by (intro waves_idle) (use 2 in \<open>auto split: if_splits\<close>)
next
  case (3 rid task environment nodes k script scripts items waves failed canceled signal d)
  show ?case
  proof (cases "failed \<or> canceled")
    case True
    then have "d' = d" "x = WavesDone failed canceled" using 3(6) by auto
    with 3(2,4) True show ?thesis by (intro waves_idle) auto
  next
    case go: False
    obtain s1 d1 where g: "gap_cancels rid (ws_gap script) signal d = (s1, d1)" by fastforce
    have d1: "executing rid task d1" and st1: "unit_status rid d1 = unit_status rid d"
      using gap_cancels_keep [OF 3(2) g] by simp_all
    have p1: "all_pending rid d1 (concat (items # waves))" using 3(4) by (simp add: st1)
    obtain requested where c: "cancellation_requested d1 rid = Inr requested"
      using executing_row [OF d1] by blast
    show ?thesis
    proof (cases requested)
      case True
      then have "x = WavesDone failed True" "d' = d1" using 3(6) go by (simp_all add: g c)
      then show ?thesis by (intro waves_idle) (use d1 p1 st1 in auto)
    next
      case quiet: False
      obtain y w d2 where e: "execute_wave rid task environment nodes (ws_now script) items k s1
          (ws_events script) d1 = (y, w, d2)" by (metis surj_pair)
      have dis: "distinct (map item_unit_id items)" "distinct (map item_unit_id (concat waves))"
        and disj: "units_of items \<inter> units_of (concat waves) = {}" using 3(3) by auto
      have rest: "\<forall>i \<in> set (concat waves). unit_status rid d1 (item_unit_id i) = Some UnitPending"
        and "all_pending rid d1 items" using p1 by simp_all
      then have ew: "executing rid task d2" "wave_inv k (units_of items) (unit_status rid d1) w (unit_status rid d2)"
        "wave_state y w"
        using execute_wave_inv [OF d1 dis(1) _ 3(5) e] by blast+
      have out: "\<forall>u. u \<notin> units_of items \<longrightarrow> unit_status rid d2 u = unit_status rid d1 u"
        using ew(2) by (simp add: wave_sound_def units_ok_def)
      note interrupted = waves_inv_interrupted [OF ew(1,2) rest disj]
      show ?thesis
      proof (cases y)
        case Waiting
        then have "x = WavesWaiting" "d' = d2" using 3(6) go quiet by (simp_all add: g c e)
        with interrupted [of x] show ?thesis by (simp add: st1 waves_state_def)
      next
        case (WaveError err)
        then have "x = WavesError err" "d' = d2" using 3(6) go quiet by (simp_all add: g c e)
        with interrupted [of x] show ?thesis by (simp add: st1 waves_state_def)
      next
        case (WaveDone oc)
        have r: "run_waves rid task environment nodes k scripts waves (oc = WaveFailed) (oc = WaveCanceled)
            (w_signal w) d2 = (x, d')" using 3(6) go quiet WaveDone by (simp add: g c e)
        note units = wave_done_units [OF ew(2) ew(3) [unfolded WaveDone]]
        have p2: "all_pending rid d2 (concat waves)"
        proof
          fix i assume i: "i \<in> set (concat waves)"
          then have "item_unit_id i \<notin> units_of items" using disj by (metis IntI empty_iff image_eqI set_map)
          moreover have "unit_status rid d1 (item_unit_id i) = Some UnitPending" using rest i by blast
          ultimately show "unit_status rid d2 (item_unit_id i) = Some UnitPending" using out by simp
        qed
        show ?thesis
        proof (cases "oc = WaveSuccess")
          case True
          have "waves_inv rid task waves (unit_status rid d2) x d'"
            by (rule 3(1) [OF go g [symmetric] c quiet e [symmetric] WaveDone refl ew(1) dis(2) p2 3(5) r])
          then show ?thesis unfolding st1 [symmetric]
            by (rule waves_inv_succeeded) (use units(2) [OF _ True] out disj in auto)
        next
          case False
          then have stop: "oc = WaveFailed \<or> oc = WaveCanceled" by (cases oc) auto
          then have x: "x = WavesDone (oc = WaveFailed) (oc = WaveCanceled)" "d' = d2"
            using r run_waves_stopped [OF stop] by simp_all
          have "waves_state x (concat (items # waves)) (unit_status rid d2)"
            using units(1) p2 stop unfolding x waves_state_def by auto
          from interrupted [OF this] show ?thesis by (simp add: st1 x)
        qed
      qed
    qed
  qed
qed

lemma run_waves_finishes:
  assumes "executing rid task d" and "distinct (map item_unit_id (concat waves))"
    and "all_pending rid d (concat waves)" and "0 < k" and "list_all2 enough waves scripts"
  shows "\<exists>f c d'. run_waves rid task environment nodes k scripts waves failed canceled signal d = (WavesDone f c, d')"
  using assms(5,1-4)
proof (induction arbitrary: failed canceled signal d rule: list_all2_induct)
  case (Cons items waves script scripts)
  show ?case
  proof (cases "failed \<or> canceled")
    case go: False
    obtain s1 d1 where g: "gap_cancels rid (ws_gap script) signal d = (s1, d1)" by fastforce
    have d1: "executing rid task d1" and st1: "unit_status rid d1 = unit_status rid d"
      using gap_cancels_keep [OF Cons.prems(1) g] by simp_all
    obtain requested where c: "cancellation_requested d1 rid = Inr requested"
      using executing_row [OF d1] by blast
    show ?thesis
    proof (cases requested)
      case True
      with go show ?thesis by (auto simp: g c)
    next
      case quiet: False
      obtain y w d2 where e: "execute_wave rid task environment nodes (ws_now script) items k s1
          (ws_events script) d1 = (y, w, d2)" by (metis surj_pair)
      have dis: "distinct (map item_unit_id items)" "distinct (map item_unit_id (concat waves))"
        and disj: "units_of items \<inter> units_of (concat waves) = {}" using Cons.prems(2) by auto
      have rest: "all_pending rid d1 (concat waves)" and items: "all_pending rid d1 items"
        using Cons.prems(3) by (simp_all add: st1)
      have ew: "executing rid task d2" "wave_inv k (units_of items) (unit_status rid d1) w (unit_status rid d2)"
        "y = Waiting \<longrightarrow> length (filter is_end (ws_events script)) < length items"
        "(\<exists>e. y = WaveError e) \<longrightarrow> (\<exists>e \<in> set (ws_events script). panics e)"
        using execute_wave_inv [OF d1 dis(1) items Cons.prems(4) e] by blast+
      then obtain oc where y: "y = WaveDone oc"
        using Cons.hyps(1) unfolding enough_def by (cases y) auto
      have p2: "all_pending rid d2 (concat waves)"
      proof
        fix i assume i: "i \<in> set (concat waves)"
        then have "item_unit_id i \<notin> units_of items" using disj by (metis IntI empty_iff image_eqI set_map)
        moreover have "unit_status rid d1 (item_unit_id i) = Some UnitPending" using rest i by blast
        ultimately show "unit_status rid d2 (item_unit_id i) = Some UnitPending"
          using ew(2) by (simp add: wave_sound_def units_ok_def)
      qed
      from Cons.IH [OF ew(1) dis(2) p2 Cons.prems(4)] show ?thesis
        using go quiet y by (simp add: g c e)
    qed
  qed simp
qed simp

section \<open>A whole execution\<close>

text \<open>
  A run as \<open>create_run\<close> leaves it: queued, with a task, its stored plan readable and of the
  stored hash, and one result per unit of the plan.
\<close>

definition ready_run :: "plan_env \<Rightarrow> int \<Rightarrow> deployment_plan \<Rightarrow> db \<Rightarrow> bool" where
  "ready_run env rid plan d \<longleftrightarrow> ids_ok d \<and> plan_items plan \<noteq> [] \<and>
     distinct (map item_unit_id (plan_items plan)) \<and>
     map (\<lambda>x. (res_unit x, res_status x)) (run_results d rid) =
       map (\<lambda>i. (item_unit_id i, if item_action i = Skip then UnitSkipped else UnitPending)) (plan_items plan) \<and>
     (\<exists>r \<in> set (runs d). run_id r = rid \<and> run_status r = RunQueued \<and> run_task r \<noteq> None \<and>
        plan_of_json env (run_plan_json r) = Some plan \<and> run_plan_hash r = plan_hash plan)"

lemma ready_units: "ready_run env rid plan d \<Longrightarrow>
   map res_unit (run_results d rid) = map item_unit_id (plan_items plan)"
proof -
  assume "ready_run env rid plan d"
  then have "map fst (map (\<lambda>x. (res_unit x, res_status x)) (run_results d rid)) =
    map fst (map (\<lambda>i. (item_unit_id i, if item_action i = Skip then UnitSkipped else UnitPending)) (plan_items plan))"
    by (simp only: ready_run_def)
  then show ?thesis by (simp add: o_def)
qed

lemma find_pair: "map (\<lambda>x. (k x, v x)) xs = map (\<lambda>y. (k' y, v' y)) ys \<Longrightarrow>
   map_option v (find (\<lambda>x. k x = u) xs) = map_option v' (find (\<lambda>y. k' y = u) ys)"
proof (induction xs arbitrary: ys)
  case (Cons x xs)
  then obtain y zs where "ys = y # zs" by (cases ys) auto
  with Cons show ?case by auto
qed auto

lemma ready_status:
  assumes "ready_run env rid plan d"
  shows "unit_status rid d u = map_option (\<lambda>i. if item_action i = Skip then UnitSkipped else UnitPending)
     (find (\<lambda>i. item_unit_id i = u) (plan_items plan))"
  unfolding unit_status_def by (rule find_pair) (use assms in \<open>simp add: ready_run_def\<close>)

lemma ready_item_status:
  assumes "ready_run env rid plan d" and "i \<in> set (plan_items plan)"
  shows "unit_status rid d (item_unit_id i) = Some (if item_action i = Skip then UnitSkipped else UnitPending)"
  using find_key [of item_unit_id "plan_items plan" i "item_unit_id i"] assms
  by (simp add: ready_status [OF assms(1)] ready_run_def)

lemma claim_ready:
  assumes "ready_run env rid plan d" and "claim_deployment_run now rid d = (Inr run, d1)"
  shows "executing rid (ex_task run) d1" and "run_results d1 rid = run_results d rid"
    and "plan_of_json env (ex_plan_json run) = Some plan" and "ex_plan_hash run = plan_hash plan"
proof -
  obtain q where q: "q \<in> set (runs d)" "run_id q = rid" "plan_of_json env (run_plan_json q) = Some plan"
    "run_plan_hash q = plan_hash plan"
    using assms(1) unfolding ready_run_def by blast
  have ids: "ids_ok d" using assms(1) by (simp add: ready_run_def)
  obtain r t and e :: env_row where r: "r \<in> set (runs d)" "run_id r = rid" "run_status r = RunQueued" "run_task r = Some t"
    and run: "run = \<lparr> ex_task = t, ex_environment = run_env r, ex_plan_hash = run_plan_hash r,
       ex_plan_json = run_plan_json r, ex_max_parallel = env_max_parallel e,
       ex_cancel_requested = run_cancel_requested r \<rparr>"
    and runs: "runs d1 = modify (\<lambda>r. run_id r = rid \<and> run_status r = RunQueued)
       (\<lambda>r. r\<lparr>run_status := RunRunning, run_started := Some now\<rparr>) (runs d)"
    and res: "results d1 = results d"
    by (rule claim_Inr [OF assms(2)]) (rule that)
  have "q = r" using ids q(1,2) r(1,2) unfolding ids_ok_def by (blast dest: distinct_map_inj)
  with q run show "plan_of_json env (ex_plan_json run) = Some plan" "ex_plan_hash run = plan_hash plan"
    by simp_all
  show rr: "run_results d1 rid = run_results d rid" by (simp add: run_results_def res)
  have "r\<lparr>run_status := RunRunning, run_started := Some now\<rparr> \<in> set (runs d1)"
    unfolding runs by (rule in_modify [OF r(1)]) (simp_all add: r)
  moreover have nonempty: "run_results d rid \<noteq> []" using assms(1) by (auto simp: ready_run_def)
  moreover have "ids_ok d1" using runs_advance_ids [OF claim_advances [of d now rid] ids] assms(2) by simp
  moreover have "distinct (map res_unit (run_results d rid))"
    unfolding ready_units [OF assms(1)] using assms(1) by (simp add: ready_run_def)
  ultimately show "executing rid (ex_task run) d1"
    unfolding executing_def rr using r(2,4) run nonempty by (intro conjI bexI) simp_all
qed

text \<open>The waves a claimed run goes through, and how they leave the database.\<close>

lemma execute_waves_inv:
  assumes "ready_run env rid plan d" and "claim_deployment_run now rid d = (Inr run, d1)"
    and "run_waves rid (ex_task run) e nodes (nat (max 1 n)) scripts (execution_waves (plan_items plan))
      False signal signal d1 = (x, d2)"
  shows "waves_inv rid (ex_task run) (execution_waves (plan_items plan)) (unit_status rid d) x d2"
proof -
  note c = claim_ready [OF assms(1,2)]
  have st: "unit_status rid d1 = unit_status rid d" by (simp add: fun_eq_iff unit_status_def c(2))
  have "distinct (map item_unit_id (concat (execution_waves (plan_items plan))))"
    using assms(1) by (simp add: concat_execution_waves ready_run_def distinct_map_filter)
  moreover have "all_pending rid d1 (concat (execution_waves (plan_items plan)))"
    using ready_item_status [OF assms(1)] by (auto simp: concat_execution_waves st)
  ultimately show ?thesis
    using run_waves_inv [OF c(1) _ _ _ assms(3)] by (simp add: st)
qed

lemma close_pending_results:
  "run_results (close_pending now rid kind m d) rid =
     modify (\<lambda>r. res_run r = rid \<and> res_status r = UnitPending)
       (\<lambda>r. r\<lparr>res_status := UnitNotStarted, res_failure_kind := kind,
              res_failure_summary := m, res_finished := Some now\<rparr>) (run_results d rid)"
  unfolding run_results_def close_pending_def update_sel by (rule filter_modify_inv) simp

lemma close_pending_units [simp]:
  "map res_unit (run_results (close_pending now rid kind m d) rid) = map res_unit (run_results d rid)"
  unfolding close_pending_results by (rule map_modify) simp

lemma close_pending_status:
  "unit_status rid (close_pending now rid kind m d) u =
     map_option (\<lambda>s. if s = UnitPending then UnitNotStarted else s) (unit_status rid d u)"
proof -
  let ?f = "\<lambda>r. r\<lparr>res_status := UnitNotStarted, res_failure_kind := kind,
              res_failure_summary := m, res_finished := Some now\<rparr>"
  have "find (\<lambda>r. res_unit r = u) (run_results (close_pending now rid kind m d) rid) =
      map_option (\<lambda>r. if res_run r = rid \<and> res_status r = UnitPending then ?f r else r)
        (find (\<lambda>r. res_unit r = u) (run_results d rid))"
    unfolding close_pending_results by (rule find_modify) simp
  moreover have "res_run r = rid" if "find (\<lambda>r. res_unit r = u) (run_results d rid) = Some r" for r
    using that by (auto dest!: find_SomeD simp: run_results_def)
  ultimately show ?thesis
    by (cases "find (\<lambda>r. res_unit r = u) (run_results d rid)") (auto simp: unit_status_def)
qed


text \<open>What \<open>execute_run\<close> did when it ended with a result.\<close>

lemma execute_run_done:
  assumes "ready_run env rid plan d" and "execute_run env script rid signal d = (Some (Inr (i, s, m)), d')"
  obtains run d1 d2 d3 f c where "claim_deployment_run (es_claim script) rid d = (Inr run, d1)"
    "waves_inv rid (ex_task run) (execution_waves (plan_items plan)) (unit_status rid d) (WavesDone f c) d2"
    "d3 = (if c then close_pending (es_end script) rid (lit ''canceled_before_start'') CanceledNotStarted d2
       else if f then close_pending (es_end script) rid (lit ''blocked_by_previous_failure'') BlockedByPreviousFailure d2
       else d2)"
    "finalize_deployment_run (es_end script) rid plan c d3 = (Inr (i, s, m), d')"
    "executing rid (ex_task run) d3"
    "unit_status rid d3 = (\<lambda>u. if f \<or> c then map_option (\<lambda>s. if s = UnitPending then UnitNotStarted else s)
        (unit_status rid d2 u) else unit_status rid d2 u)"
proof -
  obtain run d1 where cl: "claim_deployment_run (es_claim script) rid d = (Inr run, d1)"
    using assms(2) by (auto simp: execute_run_def split: prod.splits sum.splits)
  note c = claim_ready [OF assms(1) cl]
  define sig where "sig \<longleftrightarrow> signal \<or> ex_cancel_requested run \<noteq> None"
  obtain x d2 where w: "run_waves rid (ex_task run) (ex_environment run) (plan_nodes plan)
      (nat (max 1 (ex_max_parallel run))) (es_waves script) (execution_waves (plan_items plan)) False
      sig sig d1 = (x, d2)" by fastforce
  have inv: "waves_inv rid (ex_task run) (execution_waves (plan_items plan)) (unit_status rid d) x d2"
    by (rule execute_waves_inv [OF assms(1) cl w])
  note ex = assms(2) [unfolded execute_run_def cl, simplified prod.case sum.case Let_def c(3,4) option.case,
    folded sig_def]
  obtain f k where x: "x = WavesDone f k"
    using ex by (cases x) (simp_all add: w)
  define d3 where "d3 = (if k then close_pending (es_end script) rid (lit ''canceled_before_start'') CanceledNotStarted d2
       else if f then close_pending (es_end script) rid (lit ''blocked_by_previous_failure'') BlockedByPreviousFailure d2
       else d2)"
  have fin: "finalize_deployment_run (es_end script) rid plan k d3 = (Inr (i, s, m), d')"
    using ex by (auto simp: w x Let_def d3_def split: prod.splits)
  have "map res_unit (run_results d3 rid) = map res_unit (run_results d2 rid)"
    by (simp add: d3_def)
  then have ex: "executing rid (ex_task run) d3"
    using inv executing_keeps [of rid "ex_task run" d2 d3] by (simp add: waves_inv_def d3_def)
  have st: "unit_status rid d3 = (\<lambda>u. if f \<or> k then map_option (\<lambda>s. if s = UnitPending then UnitNotStarted else s)
        (unit_status rid d2 u) else unit_status rid d2 u)"
    by (rule ext) (simp add: d3_def close_pending_status)
  show thesis by (rule that [OF cl inv [unfolded x] d3_def fin ex st])
qed

lemma executing_result:
  assumes "executing rid task d" and "x \<in> set (run_results d rid)"
  shows "unit_status rid d (res_unit x) = Some (res_status x)"
  using assms find_key [of res_unit "run_results d rid" x "res_unit x"]
  by (simp add: executing_def unit_status_def)

lemma unit_status_result:
  "unit_status rid d u = Some s \<Longrightarrow> \<exists>x \<in> set (run_results d rid). res_unit x = u \<and> res_status x = s"
  by (auto simp: unit_status_def dest: find_SomeD)

text \<open>Every unit of a finished execution has an end, and it is good when nothing stopped the waves.\<close>

lemma finished_units:
  assumes "ready_run env rid plan d"
    and "waves_inv rid task (execution_waves (plan_items plan)) (unit_status rid d) (WavesDone f c) d2"
    and "st = (\<lambda>u. if f \<or> c then map_option (\<lambda>s. if s = UnitPending then UnitNotStarted else s)
        (unit_status rid d2 u) else unit_status rid d2 u)"
    and "i \<in> set (plan_items plan)"
  shows "if item_action i = Skip then st (item_unit_id i) = Some UnitSkipped
    else st (item_unit_id i) \<in> {Some UnitNotStarted, Some UnitSuccess, Some UnitFailed, Some UnitCanceledUnknown}"
    and "\<not> f \<Longrightarrow> \<not> c \<Longrightarrow> item_action i \<noteq> Skip \<Longrightarrow> st (item_unit_id i) = Some UnitSuccess"
proof -
  have w: "set (concat (execution_waves (plan_items plan))) = {j \<in> set (plan_items plan). item_action j \<noteq> Skip}"
    by (auto simp: concat_execution_waves)
  have dis: "distinct (map item_unit_id (plan_items plan))" using assms(1) by (simp add: ready_run_def)
  have state: "waves_state (WavesDone f c) (concat (execution_waves (plan_items plan))) (unit_status rid d2)"
    and out: "\<forall>u. u \<notin> units_of (concat (execution_waves (plan_items plan))) \<longrightarrow> unit_status rid d2 u = unit_status rid d u"
    using assms(2) by (simp_all add: waves_inv_def)
  show "if item_action i = Skip then st (item_unit_id i) = Some UnitSkipped
    else st (item_unit_id i) \<in> {Some UnitNotStarted, Some UnitSuccess, Some UnitFailed, Some UnitCanceledUnknown}"
  proof (cases "item_action i = Skip")
    case True
    have "item_unit_id i \<noteq> item_unit_id j" if "j \<in> set (plan_items plan)" "item_action j \<noteq> Skip" for j
      using distinct_map_inj [OF dis assms(4) that(1)] True that(2) by auto
    then have "item_unit_id i \<notin> units_of (concat (execution_waves (plan_items plan)))"
      unfolding set_map w by auto
    then show ?thesis using out ready_item_status [OF assms(1,4)] True by (simp add: assms(3))
  next
    case False
    then have "i \<in> set (concat (execution_waves (plan_items plan)))" using assms(4) unfolding w by simp
    with state have "unit_status rid d2 (item_unit_id i) \<in> {Some UnitPending, Some UnitSuccess, Some UnitFailed,
           Some UnitCanceledUnknown}" and "f \<or> c \<or> unit_status rid d2 (item_unit_id i) = Some UnitSuccess"
      by (simp_all add: waves_state_def) blast+
    with False show ?thesis by (auto simp: assms(3))
  qed
  assume "\<not> f" "\<not> c" "item_action i \<noteq> Skip"
  then have "i \<in> set (concat (execution_waves (plan_items plan)))" using assms(4) unfolding w by simp
  then have "unit_status rid d2 (item_unit_id i) = Some UnitSuccess"
    using state \<open>\<not> f\<close> \<open>\<not> c\<close> unfolding waves_state_def waves_status.case by blast
  then show "st (item_unit_id i) = Some UnitSuccess" using \<open>\<not> f\<close> \<open>\<not> c\<close> by (simp add: assms(3))
qed

end
