(* ===== verification/Execution_Properties.thy ===== *)
theory Execution_Properties
  imports Execution
begin

text \<open>
  What an execution of a run does: every unit is closed, the run is a success exactly when
  all its units are, a later wave waits for the earlier ones, and the execution ends whenever
  its units do, leaving the environment free.
\<close>

section \<open>Properties of an execution\<close>

lemma final_run_inactive: "final_run_status a b c x \<in> {RunSuccess, RunPartialFailed, RunAllFailed, RunCanceled}"
  by (simp add: final_run_status_def)

lemma finalized_runs:
  assumes "finalize_deployment_run now rid plan c d = (Inr (i, s, m), d')" and "executing rid task d"
  shows "\<forall>q \<in> set (runs d'). run_id q = rid \<longrightarrow> run_status q = s" and "\<not> active_run s"
    and "unit_status rid d' = unit_status rid d" and "run_results d' rid = run_results d rid"
    and "s = RunSuccess \<longleftrightarrow> (\<forall>x \<in> set (run_results d rid). \<not> unit_bad (res_status x))"
    and "\<exists>q \<in> set (runs d'). run_id q = rid \<and> run_status q = s"
proof -
  obtain ok failed unknown n where cn: "result_counts d rid = Some (ok, failed, unknown, n)"
    and s: "s = final_run_status ok failed unknown c"
    and runs: "runs d' = modify (\<lambda>r. run_id r = rid \<and> run_status r = RunRunning)
       (\<lambda>r. r\<lparr>run_status := s, run_summary := m, run_finished := Some now\<rparr>) (runs d)"
    and res: "results d' = results d"
    by (rule finalize_effect [OF assms(1)])
  obtain r where r: "r \<in> set (runs d)" "run_id r = rid" "run_status r = RunRunning" and ids: "ids_ok d"
    using assms(2) by (auto simp: executing_def)
  have "\<forall>q \<in> set (runs d). run_id q = rid \<longrightarrow> run_status q = RunRunning"
  proof (intro ballI impI)
    fix q assume "q \<in> set (runs d)" "run_id q = rid"
    then have "q = r" using r(1,2) ids unfolding ids_ok_def by (blast dest: distinct_map_inj)
    with r(3) show "run_status q = RunRunning" by simp
  qed
  then show "\<forall>q \<in> set (runs d'). run_id q = rid \<longrightarrow> run_status q = s"
    unfolding runs by (simp add: ball_modify)
  show "\<exists>q \<in> set (runs d'). run_id q = rid \<and> run_status q = s"
    unfolding runs by (rule bexI [OF _ in_modify [OF r(1) _ refl]]) (simp_all add: r(2,3))
  show "\<not> active_run s" using final_run_inactive [of ok failed unknown c] by (auto simp: s active_run_def)
  show rr: "run_results d' rid = run_results d rid" by (simp add: run_results_def res)
  then show "unit_status rid d' = unit_status rid d" by (simp add: fun_eq_iff unit_status_def)
  show "s = RunSuccess \<longleftrightarrow> (\<forall>x \<in> set (run_results d rid). \<not> unit_bad (res_status x))"
    unfolding s final_run_status_def counts_0(1) [OF cn, symmetric] by simp
qed

lemma executed_units:
  assumes "ready_run env rid plan d" and "executing rid task d3"
    and "waves_inv rid task' (execution_waves (plan_items plan)) (unit_status rid d) y d2"
    and "unit_status rid d3 = (\<lambda>u. if stop then map_option (\<lambda>s. if s = UnitPending then UnitNotStarted else s)
        (unit_status rid d2 u) else unit_status rid d2 u)"
    and "x \<in> set (run_results d3 rid)"
  shows "\<exists>i \<in> set (plan_items plan). item_unit_id i = res_unit x \<and>
    unit_status rid d3 (item_unit_id i) = Some (res_status x)"
proof -
  have st: "unit_status rid d3 (res_unit x) = Some (res_status x)"
    by (rule executing_result [OF assms(2,5)])
  have "res_unit x \<in> units_of (plan_items plan)"
  proof (rule ccontr)
    assume out: "res_unit x \<notin> units_of (plan_items plan)"
    then have "find (\<lambda>i. item_unit_id i = res_unit x) (plan_items plan) = None"
      unfolding find_None_iff by force
    then have "unit_status rid d (res_unit x) = None" by (simp add: ready_status [OF assms(1)])
    moreover have "res_unit x \<notin> units_of (concat (execution_waves (plan_items plan)))"
      using out by (auto simp: concat_execution_waves)
    ultimately have "unit_status rid d2 (res_unit x) = None" using assms(3) by (simp add: waves_inv_def)
    then have "unit_status rid d3 (res_unit x) = None" by (simp add: assms(4))
    with st show False by simp
  qed
  then obtain i where "i \<in> set (plan_items plan)" "item_unit_id i = res_unit x" by auto
  with st show ?thesis by (intro bexI [of _ i]) simp_all
qed

text \<open>A run whose execution returned a result is closed, with all its units.\<close>

lemma finished_execution_closes:
  assumes "ready_run env rid plan d"
    and "execute_run env script rid signal d = (Some (Inr (i, s, m)), d')"
  shows "i = rid \<and> \<not> active_run s \<and> (\<exists>q \<in> set (runs d'). run_id q = rid \<and> run_status q = s) \<and>
    (\<forall>q \<in> set (runs d'). run_id q = rid \<longrightarrow> run_status q = s) \<and>
    (\<forall>x \<in> set (results d'). res_run x = rid \<longrightarrow> \<not> open_unit (res_status x))"
proof -
  obtain run :: execution_run and d2 d3 f c where
    w: "waves_inv rid (ex_task run) (execution_waves (plan_items plan)) (unit_status rid d) (WavesDone f c) d2"
    and fin: "finalize_deployment_run (es_end script) rid plan c d3 = (Inr (i, s, m), d')"
    and ex: "executing rid (ex_task run) d3"
    and st: "unit_status rid d3 = (\<lambda>u. if f \<or> c then map_option (\<lambda>s. if s = UnitPending then UnitNotStarted else s)
        (unit_status rid d2 u) else unit_status rid d2 u)"
    by (rule execute_run_done [OF assms]) (rule that)
  note fr = finalized_runs [OF fin ex]
  have "\<not> open_unit (res_status x)" if x: "x \<in> set (run_results d3 rid)" for x
  proof -
    obtain j where j: "j \<in> set (plan_items plan)" "unit_status rid d3 (item_unit_id j) = Some (res_status x)"
      using executed_units [OF assms(1) ex w st x] by blast
    from finished_units(1) [OF assms(1) w st j(1)] j(2) show ?thesis
      by (auto simp: open_unit_def split: if_splits)
  qed
  then have closed: "\<forall>x \<in> set (run_results d' rid). \<not> open_unit (res_status x)"
    unfolding fr(4) by blast
  have "\<forall>x \<in> set (results d'). res_run x = rid \<longrightarrow> \<not> open_unit (res_status x)"
  proof (intro ballI impI)
    fix x assume "x \<in> set (results d')" "res_run x = rid"
    then have "x \<in> set (run_results d' rid)" by (simp add: run_results_def)
    with closed show "\<not> open_unit (res_status x)" by blast
  qed
  moreover have "i = rid" by (rule finalize_effect [OF fin])
  ultimately show ?thesis using fr(1,2,6) by blast
qed


lemma untouched_closed:
  "untouched s \<Longrightarrow> untouched (if b then map_option (\<lambda>s. if s = UnitPending then UnitNotStarted else s) s else s)"
  by (auto simp: untouched_def)

lemma in_order_weaken:
  assumes "\<And>s. untouched s \<Longrightarrow> untouched (g s)" and "g (Some UnitSuccess) = Some UnitSuccess"
  shows "in_order st waves \<Longrightarrow> in_order (\<lambda>u. g (st u)) waves"
proof (induction waves)
  case (Cons items waves)
  then have "(\<forall>i \<in> set items. g (st (item_unit_id i)) = Some UnitSuccess) \<or>
      (\<forall>i \<in> set (concat waves). untouched (g (st (item_unit_id i))))"
    using assms by (metis in_order.simps(2))
  with Cons show ?case by simp
qed simp

lemma in_order_closed:
  "in_order st waves \<Longrightarrow>
     in_order (\<lambda>u. if b then map_option (\<lambda>s. if s = UnitPending then UnitNotStarted else s) (st u) else st u) waves"
  by (rule in_order_weaken [OF untouched_closed]) simp_all

text \<open>The state of the units at any moment of an execution, ended or not.\<close>

lemma execute_run_in_order:
  assumes "ready_run env rid plan d" and "execute_run env script rid signal d = (result, d')"
  shows "in_order (unit_status rid d') (execution_waves (plan_items plan))"
proof (cases "claim_deployment_run (es_claim script) rid d")
  case (Pair res d1)
  have start: "in_order (unit_status rid e) (execution_waves (plan_items plan))"
    if "run_results e rid = run_results d rid" for e
  proof (rule in_order_untouched, intro ballI)
    fix i assume "i \<in> set (concat (execution_waves (plan_items plan)))"
    then show "untouched (unit_status rid e (item_unit_id i))"
      using ready_item_status [OF assms(1), of i] that
      by (simp add: concat_execution_waves untouched_def unit_status_def)
  qed
  show ?thesis
  proof (cases res)
    case (Inl err)
    then have "d1 = d" using Pair by (simp add: claim_deployment_run_def transaction_Inl)
    then have "d' = d" using assms(2) Pair Inl by (simp add: execute_run_def)
    then show ?thesis by (simp add: start)
  next
    case (Inr run)
    note cl = Pair [unfolded Inr]
    note c = claim_ready [OF assms(1) cl]
    define sig where "sig \<longleftrightarrow> signal \<or> ex_cancel_requested run \<noteq> None"
    obtain x d2 where w: "run_waves rid (ex_task run) (ex_environment run) (plan_nodes plan)
        (nat (max 1 (ex_max_parallel run))) (es_waves script) (execution_waves (plan_items plan)) False
        sig sig d1 = (x, d2)" by fastforce
    have o: "in_order (unit_status rid d2) (execution_waves (plan_items plan))"
      using execute_waves_inv [OF assms(1) cl w] by (simp add: waves_inv_def)
    note ex = assms(2) [unfolded execute_run_def cl, simplified prod.case sum.case Let_def c(3,4) option.case,
      folded sig_def]
    show ?thesis
    proof (cases x)
      case (WavesDone f k)
      define d3 where "d3 = (if k then close_pending (es_end script) rid (lit ''canceled_before_start'') CanceledNotStarted d2
         else if f then close_pending (es_end script) rid (lit ''blocked_by_previous_failure'') BlockedByPreviousFailure d2
         else d2)"
      obtain result' where fin: "finalize_deployment_run (es_end script) rid plan k d3 = (result', d')"
        using ex WavesDone by (auto simp: w Let_def d3_def split: prod.splits)
      have "results d' = results d3"
      proof (cases result')
        case (Inl e)
        then show ?thesis using fin by (auto simp: finalize_deployment_run_def Let_def split: option.splits)
      next
        case (Inr y)
        obtain i s m where "y = (i, s, m)" by (cases y)
        with Inr fin show ?thesis by (auto intro: finalize_effect)
      qed
      then have "unit_status rid d' = (\<lambda>u. if f \<or> k then map_option (\<lambda>s. if s = UnitPending then UnitNotStarted else s)
          (unit_status rid d2 u) else unit_status rid d2 u)"
        by (auto simp: fun_eq_iff d3_def unit_status_def run_results_def close_pending_status [unfolded unit_status_def run_results_def])
      with in_order_closed [OF o] show ?thesis by simp
    qed (use ex o in \<open>auto simp: w\<close>)
  qed
qed

lemma in_order_nth:
  "in_order st waves \<Longrightarrow> j < length waves \<Longrightarrow> i < j \<Longrightarrow> a \<in> set (waves ! i) \<Longrightarrow> b \<in> set (waves ! j) \<Longrightarrow>
     \<not> untouched (st (item_unit_id b)) \<Longrightarrow> st (item_unit_id a) = Some UnitSuccess"
proof (induction waves arbitrary: i j)
  case (Cons items waves)
  then obtain k where j: "j = Suc k" by (cases j) auto
  have k: "k < length waves" "b \<in> set (waves ! k)" using Cons.prems j by auto
  show ?case
  proof (cases i)
    case 0
    have "b \<in> set (concat waves)" using k by (auto intro: nth_mem)
    with Cons.prems 0 show ?thesis by auto
  next
    case (Suc l)
    with Cons.prems j k show ?thesis by (intro Cons.IH [of k l]) auto
  qed
qed simp

text \<open>
  C4. Later stages wait for earlier ones: at any moment of an execution, ended or not, failed,
  canceled or waiting, a unit of a later wave has been started only if every unit of every
  earlier wave has succeeded.
\<close>

theorem later_waves_wait_for_earlier:
  assumes "ready_run env rid plan d" and "execute_run env script rid signal d = (result, d')"
    and "i < j" and "j < length (execution_waves (plan_items plan))"
    and "a \<in> set (execution_waves (plan_items plan) ! i)" and "b \<in> set (execution_waves (plan_items plan) ! j)"
    and "unit_status rid d' (item_unit_id b) \<notin> {Some UnitPending, Some UnitNotStarted}"
  shows "unit_status rid d' (item_unit_id a) = Some UnitSuccess"
  using in_order_nth [OF execute_run_in_order [OF assms(1,2)], of j i a b] assms(3-7)
  by (simp add: untouched_def)

lemma ready_results: "ready_run env rid plan d \<Longrightarrow> run_results d rid \<noteq> []"
  by (auto simp: ready_run_def)

lemma finalize_total:
  "run_results d rid \<noteq> [] \<Longrightarrow> \<exists>s m d'. finalize_deployment_run now rid plan c d = (Inr (rid, s, m), d')"
  by (simp add: finalize_deployment_run_def result_counts_def Let_def)

text \<open>
  How an execution of a ready run goes on after its claim: the waves, and what follows each of their ends.
\<close>

lemma execute_run_claimed:
  assumes "ready_run env rid plan d" and cl: "claim_deployment_run (es_claim script) rid d = (Inr run, d1)"
  obtains x d2 where
    "run_waves rid (ex_task run) (ex_environment run) (plan_nodes plan)
      (nat (max 1 (ex_max_parallel run))) (es_waves script) (execution_waves (plan_items plan)) False
      (signal \<or> ex_cancel_requested run \<noteq> None) (signal \<or> ex_cancel_requested run \<noteq> None) d1 = (x, d2)"
    "executing rid (ex_task run) d2"
    "x = WavesWaiting \<Longrightarrow> execute_run env script rid signal d = (None, d2)"
    "\<And>e. x = WavesError e \<Longrightarrow> execute_run env script rid signal d = (Some (Inl e), d2)"
    "\<And>f k. x = WavesDone f k \<Longrightarrow> \<exists>s m d'. execute_run env script rid signal d = (Some (Inr (rid, s, m)), d')"
proof -
  note c = claim_ready [OF assms]
  define sig where "sig \<longleftrightarrow> signal \<or> ex_cancel_requested run \<noteq> None"
  obtain x d2 where w: "run_waves rid (ex_task run) (ex_environment run) (plan_nodes plan)
      (nat (max 1 (ex_max_parallel run))) (es_waves script) (execution_waves (plan_items plan)) False
      sig sig d1 = (x, d2)" by fastforce
  have ex2: "executing rid (ex_task run) d2"
    using execute_waves_inv [OF assms w] by (simp add: waves_inv_def)
  define body where "body = execute_run env script rid signal d"
  note ex = body_def [unfolded execute_run_def cl, simplified prod.case sum.case Let_def c(3,4) option.case,
    folded sig_def]
  have waiting: "x = WavesWaiting \<Longrightarrow> body = (None, d2)" by (simp add: ex w)
  have err: "x = WavesError e \<Longrightarrow> body = (Some (Inl e), d2)" for e by (simp add: ex w)
  have fin: "\<exists>s m d'. body = (Some (Inr (rid, s, m)), d')" if x: "x = WavesDone f k" for f k
  proof -
    define d3 where "d3 = (if k then close_pending (es_end script) rid (lit ''canceled_before_start'') CanceledNotStarted d2
         else if f then close_pending (es_end script) rid (lit ''blocked_by_previous_failure'') BlockedByPreviousFailure d2
         else d2)"
    have "map res_unit (run_results d3 rid) = map res_unit (run_results d2 rid)" by (simp add: d3_def)
    then have "run_results d3 rid \<noteq> []" using ex2 by (metis executing_def list.map_disc_iff)
    from finalize_total [OF this, of "es_end script" plan k] obtain s m d'
      where "finalize_deployment_run (es_end script) rid plan k d3 = (Inr (rid, s, m), d')" by blast
    then show ?thesis by (simp add: ex w x Let_def d3_def)
  qed
  show thesis
    by (rule that [OF w [unfolded sig_def] ex2 waiting [unfolded body_def] err [unfolded body_def]
          fin [unfolded body_def]])
qed

text \<open>
  C5. Executions come to an end: when every unit that is started ends some time (in each
  wave the executor reports as many ends as the wave has units, without a panic), the execution of a
  claimable run returns a result, and never an error. The run then has the status of that
  result, which is a final one, and none of its units is pending or running.
\<close>

theorem execution_comes_to_an_end:
  assumes "ready_run env rid plan d"
    and "isl (fst (claim_deployment_run (es_claim script) rid d)) = False"
    and "list_all2 enough (execution_waves (plan_items plan)) (es_waves script)"
  shows "\<exists>s m d'. execute_run env script rid signal d = (Some (Inr (rid, s, m)), d') \<and> \<not> active_run s \<and>
    (\<exists>q \<in> set (runs d'). run_id q = rid \<and> run_status q = s) \<and>
    (\<forall>q \<in> set (runs d'). run_id q = rid \<longrightarrow> run_status q = s) \<and>
    (\<forall>x \<in> set (results d'). res_run x = rid \<longrightarrow> \<not> open_unit (res_status x))"
proof -
  obtain run d1 where cl: "claim_deployment_run (es_claim script) rid d = (Inr run, d1)"
    using assms(2) by (cases "claim_deployment_run (es_claim script) rid d"; cases "fst (claim_deployment_run (es_claim script) rid d)") auto
  note c = claim_ready [OF assms(1) cl]
  have st: "unit_status rid d1 = unit_status rid d" by (simp add: fun_eq_iff unit_status_def c(2))
  have dis: "distinct (map item_unit_id (concat (execution_waves (plan_items plan))))"
    using assms(1) by (simp add: concat_execution_waves ready_run_def distinct_map_filter)
  have pend: "all_pending rid d1 (concat (execution_waves (plan_items plan)))"
    using ready_item_status [OF assms(1)] by (auto simp: concat_execution_waves st)
  let ?sig = "signal \<or> ex_cancel_requested run \<noteq> None"
  have k: "0 < nat (max 1 (ex_max_parallel run))" by simp
  obtain f g d3 where w: "run_waves rid (ex_task run) (ex_environment run) (plan_nodes plan)
      (nat (max 1 (ex_max_parallel run))) (es_waves script) (execution_waves (plan_items plan)) False
      ?sig ?sig d1 = (WavesDone f g, d3)"
    using run_waves_finishes [OF c(1) dis pend k assms(3)] by blast
  obtain x d2 where "run_waves rid (ex_task run) (ex_environment run) (plan_nodes plan)
      (nat (max 1 (ex_max_parallel run))) (es_waves script) (execution_waves (plan_items plan)) False
      ?sig ?sig d1 = (x, d2)"
    and fin: "\<And>f k. x = WavesDone f k \<Longrightarrow> \<exists>s m d'. execute_run env script rid signal d = (Some (Inr (rid, s, m)), d')"
    by (rule execute_run_claimed [OF assms(1) cl, of signal]) (rule that)
  with w have "x = WavesDone f g" by simp
  then obtain s m d' where e: "execute_run env script rid signal d = (Some (Inr (rid, s, m)), d')"
    using fin by blast
  from finished_execution_closes [OF assms(1) e] e show ?thesis by blast
qed

lemma claim_Inl: "claim_deployment_run now rid d = (Inl e, d') \<Longrightarrow> d' = d"
  by (simp add: claim_deployment_run_def transaction_Inl)

lemma fail_succeeds:
  assumes "ids_ok d" and "r \<in> set (runs d)" and "run_id r = rid" and "run_task r = Some t"
    and "run_status r \<in> {RunQueued, RunRunning}" and "run_results d rid \<noteq> []"
  obtains d' where "fail_run_on_internal_error now rid message d = (Inr True, d')"
proof -
  define m where "m = OrchestratorFailed (take 1000 (trim message))"
  have f: "find (\<lambda>r. run_id r = rid \<and> run_status r \<in> {RunQueued, RunRunning}) (runs d) = Some r"
  proof (rule find_unique)
    fix q assume "q \<in> set (runs d)" "run_id q = rid \<and> run_status q \<in> {RunQueued, RunRunning}"
    then show "q = r" using assms(1-3) unfolding ids_ok_def by (blast dest: distinct_map_inj)
  qed (use assms in blast)+
  have "run_results (close_open_units now rid k m m d) rid \<noteq> []" for k
  proof -
    have "map res_unit (run_results (close_open_units now rid k m m d) rid) = map res_unit (run_results d rid)"
      unfolding run_results_def close_open_units_def update_sel
      by (subst filter_modify_inv) (simp_all add: map_modify)
    then show ?thesis using assms(6) by (metis list.map_disc_iff)
  qed
  then obtain a b c n where cn: "result_counts (close_open_units now rid (lit ''orchestrator_internal_error'') m m d) rid
      = Some (a, b, c, n)" by (auto simp: result_counts_def Let_def)
  have "fst (fail_run_on_internal_error now rid message d) = Inr True"
    using f assms(4) cn
    by (simp add: fail_run_on_internal_error_def m_def [symmetric] transaction_def fail_run_tx_def Let_def)
  then show thesis using that by (metis prod.collapse)
qed

text \<open>An execution that returns an error leaves the run queued or running, with its task and results.\<close>

lemma execution_error:
  assumes "ready_run env rid plan d" and e: "execute_run env script rid signal d = (Some (Inl er), d1)"
  obtains r t where "ids_ok d1" "r \<in> set (runs d1)" "run_id r = rid" "run_task r = Some t"
    "run_status r \<in> {RunQueued, RunRunning}" "run_results d1 rid \<noteq> []"
proof (cases "claim_deployment_run (es_claim script) rid d")
  case (Pair c d2)
  obtain r where r: "ids_ok d" "r \<in> set (runs d)" "run_id r = rid" "run_status r = RunQueued" "run_task r \<noteq> None"
    using assms(1) by (auto simp: ready_run_def)
  show thesis
  proof (cases c)
    case (Inl ce)
    then have "d1 = d" using e Pair claim_Inl [of "es_claim script" rid d ce d2] by (simp add: execute_run_def)
    then show thesis using r ready_results [OF assms(1)] by (intro that [of r "the (run_task r)"]) auto
  next
    case (Inr run)
    obtain x d3 where ex: "executing rid (ex_task run) d3"
      and o: "x = WavesWaiting \<Longrightarrow> execute_run env script rid signal d = (None, d3)"
        "\<And>e. x = WavesError e \<Longrightarrow> execute_run env script rid signal d = (Some (Inl e), d3)"
        "\<And>f k. x = WavesDone f k \<Longrightarrow> \<exists>s m d'. execute_run env script rid signal d = (Some (Inr (rid, s, m)), d')"
      by (rule execute_run_claimed [OF assms(1) Pair [unfolded Inr], of signal]) (rule that)
    have "d1 = d3" using e o by (cases x) auto
    with ex obtain q where q: "ids_ok d1" "q \<in> set (runs d1)" "run_id q = rid" "run_task q = Some (ex_task run)"
      "run_status q = RunRunning" "run_results d1 rid \<noteq> []"
      unfolding executing_def by blast
    from q(5) have "run_status q \<in> {RunQueued, RunRunning}" by simp
    from that [OF q(1-4) this q(6)] show thesis .
  qed
qed

definition sample_exec_env :: plan_env where
  "sample_exec_env = sample_env\<lparr>plan_of_json := (\<lambda>_. Some sample_run_plan)\<rparr>"

definition sample_queued :: db where
  "sample_queued = sample_at RunQueued TaskQueued [UnitPending, UnitPending, UnitPending]"

lemma sample_waves: "execution_waves (plan_items sample_run_plan) =
   [[sample_item 3 1 Stop], [sample_item 1 1 Start], [sample_item 2 2 Start]]"
  by code_simp

lemma sample_item_sel [simp]: "item_unit_id (sample_item u st a) = u" "item_action (sample_item u st a) = a"
  "item_stage_no (sample_item u st a) = st"
  by (simp_all add: sample_item_def)

lemma sample_plan_items [simp]: "plan_items sample_run_plan = [sample_item 3 1 Stop, sample_item 1 1 Start, sample_item 2 2 Start]"
  by (simp add: sample_run_plan_def)

lemma sample_ready: "ready_run sample_exec_env 8 sample_run_plan sample_queued"
  using sample_results [of RunQueued TaskQueued UnitPending UnitPending UnitPending]
  by (simp add: ready_run_def sample_queued_def sample_at_ok sample_exec_env_def new_result_def)
     (simp add: sample_run_def sample_run_plan_def)

definition sample_end :: wave_script where
  "sample_end = \<lparr> ws_gap = [], ws_now = 5, ws_events = [UnitEnds 6 0 (Finished (UnitOk []))] \<rparr>"

definition sample_wait :: wave_script where
  "sample_wait = \<lparr> ws_gap = [], ws_now = 7, ws_events = [] \<rparr>"

definition sample_script :: "wave_script list \<Rightarrow> execution_script" where
  "sample_script waves = \<lparr> es_claim = 5, es_waves = waves, es_end = 9 \<rparr>"

abbreviation sample_execution :: "wave_script list \<Rightarrow> (orch_error + (int \<times> run_status \<times> memo)) option \<times> db" where
  "sample_execution waves \<equiv> execute_run sample_exec_env (sample_script waves) 8 False sample_queued"



lemma sample_running: "unit_status 8 (snd (sample_execution [sample_end, sample_wait])) 1 = Some UnitRunning"
  by code_simp

theorem later_waves_wait_for_earlier_witness:
  "unit_status 8 (snd (sample_execution [sample_end, sample_wait])) 1 = Some UnitRunning \<and>
   unit_status 8 (snd (sample_execution [sample_end, sample_wait])) 3 = Some UnitSuccess"
  using later_waves_wait_for_earlier [OF sample_ready surjective_pairing, where i = 0 and j = 1
      and script = "sample_script [sample_end, sample_wait]" and signal = False
      and a = "sample_item 3 1 Stop" and b = "sample_item 1 1 Start"] sample_running
  by (simp add: sample_waves [unfolded sample_plan_items])

theorem execution_comes_to_an_end_witness:
  "\<exists>s m d'. sample_execution [sample_end, sample_end, sample_end] = (Some (Inr (8, s, m)), d') \<and> \<not> active_run s \<and>
    (\<exists>q \<in> set (runs d'). run_id q = 8 \<and> run_status q = s) \<and>
    (\<forall>q \<in> set (runs d'). run_id q = 8 \<longrightarrow> run_status q = s) \<and>
    (\<forall>x \<in> set (results d'). res_run x = 8 \<longrightarrow> \<not> open_unit (res_status x))"
proof (rule execution_comes_to_an_end [OF sample_ready])
  show "isl (fst (claim_deployment_run (es_claim (sample_script [sample_end, sample_end, sample_end])) 8 sample_queued)) = False"
    by (simp add: sample_script_def sample_queued_def sample_claim)
  show "list_all2 enough (execution_waves (plan_items sample_run_plan))
      (es_waves (sample_script [sample_end, sample_end, sample_end]))"
    unfolding sample_waves
    by (simp add: sample_script_def sample_end_def enough_def is_end_def panics_def)
qed

definition sample_panic :: wave_script where
  "sample_panic = \<lparr> ws_gap = [], ws_now = 5, ws_events = [UnitEnds 6 0 Panicked] \<rparr>"

lemma sample_panicked: "fst (sample_execution [sample_panic]) = Some (Inl (DatabaseError UnitAborted))"
  by code_simp

definition sample_running_db :: db where
  "sample_running_db = sample_at RunRunning TaskRunning [UnitPending, UnitPending, UnitPending]"

lemma sample_executing: "executing 8 21 sample_running_db"
  using sample_results [of RunRunning TaskRunning UnitPending UnitPending UnitPending]
  by (simp add: executing_def sample_running_db_def sample_at_ok new_result_def)

abbreviation sample_wave :: "wave_event list \<Rightarrow> wave_status \<times> wave \<times> db" where
  "sample_wave events \<equiv> execute_wave 8 21 2 [5, 6] 7 [sample_item 1 1 Start, sample_item 2 1 Start] 1 False events
     sample_running_db"

lemma sample_statuses:
  "unit_status 8 sample_running_db u = (if u \<in> {1, 2, 3} then Some UnitPending else None)"
  using sample_results [of RunRunning TaskRunning UnitPending UnitPending UnitPending]
  by (simp add: unit_status_def sample_running_db_def new_result_def)

theorem wave_respects_parallel_limit_witness:
  "affected (\<lambda>r. res_run r = 8 \<and> res_status r = UnitRunning) (results (snd (snd (sample_wave [])))) \<le> 1"
  by (rule wave_respects_parallel_limit [OF sample_executing, where items = "[sample_item 1 1 Start, sample_item 2 1 Start]"
        and x = "fst (sample_wave [])" and w = "fst (snd (sample_wave []))"])
     (simp_all add: sample_statuses)







end
