(* ===== verification/Tasks.thy ===== *)
theory Tasks
  imports Execution_Properties
begin

text \<open>
  The task service \<open>src/api/src/tasks.rs\<close>: operation tasks with their phases, steps and logs,
  the queue, the filtered lists, the results of nodes and the deployment history. Foreign
  keys into the tables of the model are checked as SQLite does; the ones into tables that are
  not modelled (applications, nodes) are assumed to hold.
\<close>

section \<open>Errors and inputs\<close>

datatype task_message =
    ActiveTaskExists | TaskMissing | PhaseMissing | StepMissing
  | CannotRun task_status | EnvironmentDeployment | CannotCancelTask task_status
  | BadStatusFilter | BadKindFilter | BadPhase | BadNodeStatus ustr | BadStepStatus ustr
  | BadStream ustr | BadStepKey | PhaseTitleRequired | StepTitleRequired
  | ForeignKeyFailed | CheckFailed

datatype task_error =
  TaskNotFound task_message | InvalidState task_message | Internal task_message

type_synonym 'a task_op = "(db, task_error, 'a) operation"

record create_task_input =
  ct_kind :: ustr
  ct_title :: ustr
  ct_app :: "int option"
  ct_release :: "int option"
  ct_node :: "int option"
  ct_created_by :: ustr

record compose_output =
  co_success :: bool
  co_command :: ustr
  co_text :: ustr
  co_status_code :: "int option"

section \<open>Normalizing texts\<close>

fun task_status_name :: "task_status \<Rightarrow> ustr" where
  "task_status_name TaskQueued = lit ''queued''"
| "task_status_name TaskRunning = lit ''running''"
| "task_status_name TaskSuccess = lit ''success''"
| "task_status_name TaskFailed = lit ''failed''"
| "task_status_name TaskCanceled = lit ''canceled''"

definition task_phases_allowed :: "ustr list" where
  "task_phases_allowed = map lit [''queued'', ''preflight'', ''preparing_files'', ''executing'',
     ''healthchecking'', ''prepare'', ''render'', ''pre_deploy'', ''deploy'', ''post_deploy'',
     ''switch_traffic'', ''cleanup'', ''finalize'', ''completed'', ''failed'', ''canceled'']"

definition normalize_task_phase :: "ustr \<Rightarrow> task_error + ustr" where
  "normalize_task_phase phase =
    (if phase \<in> set task_phases_allowed then Inr phase else Inl (InvalidState BadPhase))"

text \<open>The accepted texts of a status column are the constructors of its datatype.\<close>

definition normalize_step_status :: "ustr \<Rightarrow> task_error + step_status" where
  "normalize_step_status status =
    (if status = lit ''pending'' then Inr StepPending
     else if status = lit ''running'' then Inr StepRunning
     else if status = lit ''success'' then Inr StepSuccess
     else if status = lit ''failed'' then Inr StepFailed
     else if status = lit ''skipped'' then Inr StepSkipped
     else Inl (InvalidState (BadStepStatus status)))"

definition normalize_log_stream :: "ustr \<Rightarrow> task_error + ustr" where
  "normalize_log_stream stream =
    (if stream \<in> {lit ''system'', lit ''stdout'', lit ''stderr'', lit ''combined''} then Inr stream
     else Inl (InvalidState (BadStream stream)))"

definition step_key_char :: "nat \<Rightarrow> bool" where
  "step_key_char c \<longleftrightarrow> is_alphanumeric c \<or> c \<in> {46, 45, 95}"

definition normalize_step_key :: "ustr \<Rightarrow> task_error + ustr" where
  "normalize_step_key value =
    (let value = trim value in
     if value = [] \<or> \<not> list_all step_key_char value then Inl (InvalidState BadStepKey)
     else Inr value)"

definition required_step_text :: "ustr \<Rightarrow> task_message \<Rightarrow> task_error + ustr" where
  "required_step_text value message =
    (let value = trim value in if value = [] then Inl (InvalidState message) else Inr value)"

text \<open>\<open>str::lines\<close>: a line ends at a line feed, with one carriage return before it dropped.\<close>

definition strip_cr :: "ustr \<Rightarrow> ustr" where
  "strip_cr line = (if line \<noteq> [] \<and> last line = 13 then butlast line else line)"

fun split_lines :: "ustr \<Rightarrow> ustr \<Rightarrow> ustr list" where
  "split_lines line [] = (if line = [] then [] else [line])"
| "split_lines line (c # s) =
    (if c = 10 then strip_cr line # split_lines [] s else split_lines (line @ [c]) s)"

fun join_lines :: "ustr list \<Rightarrow> ustr" where
  "join_lines [] = []"
| "join_lines [l] = l"
| "join_lines (l # m # ls) = l @ [10] @ join_lines (m # ls)"

definition first_lines :: "ustr \<Rightarrow> nat \<Rightarrow> memo" where
  "first_lines value limit =
    (let lines = join_lines (take limit (filter (\<lambda>l. trim l \<noteq> []) (split_lines [] value)))
     in if lines = [] then NoOutput else Told lines)"

section \<open>Logs\<close>

text \<open>A log line must name an existing task and, if any, an existing step (foreign keys).\<close>

definition task_exists :: "db \<Rightarrow> int \<Rightarrow> bool" where
  "task_exists d task \<longleftrightarrow> (\<exists>t \<in> set (tasks d). task_id t = task)"

definition step_exists :: "db \<Rightarrow> int \<Rightarrow> bool" where
  "step_exists d step \<longleftrightarrow> (\<exists>s \<in> set (steps d). step_id s = step)"

definition insert_log :: "int \<Rightarrow> int option \<Rightarrow> ustr \<Rightarrow> memo \<Rightarrow> unit task_op" where
  "insert_log task step stream content d =
    (if task_exists d task \<and> (case step of None \<Rightarrow> True | Some s \<Rightarrow> step_exists d s)
     then (Inr (), append_log task step stream content d)
     else (Inl (Internal ForeignKeyFailed), d))"

definition task_append_log :: "int \<Rightarrow> ustr \<Rightarrow> memo \<Rightarrow> unit task_op" where
  "task_append_log task stream content d =
    (case normalize_log_stream stream of Inl e \<Rightarrow> (Inl e, d)
     | Inr stream \<Rightarrow> insert_log task None stream content d)"

definition append_step_log :: "int \<Rightarrow> int \<Rightarrow> ustr \<Rightarrow> memo \<Rightarrow> unit task_op" where
  "append_step_log task step stream content d =
    (case normalize_log_stream stream of Inl e \<Rightarrow> (Inl e, d)
     | Inr stream \<Rightarrow> insert_log task (Some step) stream content d)"

section \<open>A task\<close>

definition create_task :: "create_task_input \<Rightarrow> int task_op" where
  "create_task inp d =
    (case insert_task d
        \<lparr> task_id = 0, task_kind = ct_kind inp, task_title = Told (ct_title inp),
          task_app = ct_app inp, task_release = ct_release inp, task_env = None,
          task_node = ct_node inp, task_status = TaskQueued, task_phase = lit ''queued'',
          task_command = [], task_summary = Told [], task_exit_code = None, task_started = None,
          task_finished = None, task_created_by = ct_created_by inp \<rparr> of
       None \<Rightarrow> (Inl (InvalidState ActiveTaskExists), d)
     | Some (i, d') \<Rightarrow> (Inr i, d'))"

definition raw_status :: "db \<Rightarrow> int \<Rightarrow> task_error + task_status" where
  "raw_status d task =
    (case find (\<lambda>t. task_id t = task) (tasks d) of
       None \<Rightarrow> Inl (TaskNotFound TaskMissing) | Some t \<Rightarrow> Inr (task_status t))"

definition mark_running :: "time \<Rightarrow> int \<Rightarrow> ustr \<Rightarrow> ustr \<Rightarrow> bool task_op" where
  "mark_running now task command phase d =
    (case normalize_task_phase phase of Inl e \<Rightarrow> (Inl e, d) | Inr phase \<Rightarrow>
     let p = (\<lambda>t. task_id t = task \<and> task_status t = TaskQueued) in
     if affected p (tasks d) = 0 then
       (case raw_status d task of Inl e \<Rightarrow> (Inl e, d)
        | Inr status \<Rightarrow> if status = TaskCanceled then (Inr False, d)
            else (Inl (InvalidState (CannotRun status)), d))
     else
       (let d1 = update_tasks p (\<lambda>t. t\<lparr>task_status := TaskRunning, task_phase := phase,
                   task_command := command, task_started := Some now\<rparr>) d
        in case task_append_log task (lit ''system'') (StartedCommand command) d1 of
             (Inl e, d2) \<Rightarrow> (Inl e, d2) | (Inr _, d2) \<Rightarrow> (Inr True, d2)))"

definition cancel_queued :: "time \<Rightarrow> int \<Rightarrow> ustr \<Rightarrow> unit task_op" where
  "cancel_queued now task actor d =
    (let deploying = (\<lambda>i. \<exists>r \<in> set (runs d). run_task r = Some i \<and> active_run (run_status r));
         p = (\<lambda>t. task_id t = task \<and> task_status t = TaskQueued \<and> \<not> deploying (task_id t))
     in if affected p (tasks d) = 0 then
          (if deploying task then (Inl (InvalidState EnvironmentDeployment), d)
           else (case raw_status d task of Inl e \<Rightarrow> (Inl e, d)
             | Inr status \<Rightarrow> (Inl (InvalidState (CannotCancelTask status)), d)))
        else task_append_log task (lit ''system'') (QueuedTaskCanceled actor)
          (update_tasks p (\<lambda>t. t\<lparr>task_status := TaskCanceled, task_phase := lit ''canceled'',
             task_summary := QueuedTaskCanceled actor, task_finished := Some now\<rparr>) d))"

definition coalesce :: "time option \<Rightarrow> time \<Rightarrow> time option" where
  "coalesce t now = (case t of None \<Rightarrow> Some now | _ \<Rightarrow> t)"

definition finish_open_phases :: "time \<Rightarrow> int \<Rightarrow> ustr \<Rightarrow> unit task_op" where
  "finish_open_phases now task status d =
    (case normalize_step_status status of Inl e \<Rightarrow> (Inl e, d)
     | Inr s \<Rightarrow> (Inr (), update_phases (\<lambda>p. phase_task p = task \<and> phase_status p = StepRunning)
         (\<lambda>p. p\<lparr>phase_status := s, phase_finished := coalesce (phase_finished p) now\<rparr>) d))"

text \<open>What the three ways to finish a task share: close its phases, then append to its log.\<close>

definition finish_task :: "time \<Rightarrow> int \<Rightarrow> ustr \<Rightarrow> ustr \<Rightarrow> memo \<Rightarrow> unit task_op" where
  "finish_task now task status stream content d =
    (case finish_open_phases now task status d of (Inl e, d1) \<Rightarrow> (Inl e, d1)
     | (Inr _, d1) \<Rightarrow> task_append_log task stream content d1)"

definition finish_with_compose_output :: "time \<Rightarrow> int \<Rightarrow> compose_output \<Rightarrow> unit task_op" where
  "finish_with_compose_output now task out d =
    (let summary = (if trim (co_text out) = [] then NoOutput else first_lines (co_text out) 3)
     in finish_task now task (if co_success out then lit ''success'' else lit ''failed'')
          (lit ''combined'') (Told (co_text out))
          (update_tasks (\<lambda>t. task_id t = task)
            (\<lambda>t. t\<lparr>task_status := (if co_success out then TaskSuccess else TaskFailed),
               task_phase := (if co_success out then lit ''completed'' else lit ''failed''),
               task_command := co_command out, task_summary := summary,
               task_exit_code := co_status_code out, task_finished := Some now\<rparr>) d))"

definition finish_success :: "time \<Rightarrow> int \<Rightarrow> ustr \<Rightarrow> ustr \<Rightarrow> unit task_op" where
  "finish_success now task command summary d =
     finish_task now task (lit ''success'') (lit ''system'') (Told summary)
       (update_tasks (\<lambda>t. task_id t = task)
         (\<lambda>t. t\<lparr>task_status := TaskSuccess, task_phase := lit ''completed'',
            task_command := command, task_summary := Told summary, task_exit_code := Some 0,
            task_finished := Some now\<rparr>) d)"

definition fail_task :: "time \<Rightarrow> int \<Rightarrow> ustr \<Rightarrow> unit task_op" where
  "fail_task now task message d =
     finish_task now task (lit ''failed'') (lit ''system'') (Told message)
       (update_tasks (\<lambda>t. task_id t = task)
         (\<lambda>t. t\<lparr>task_status := TaskFailed, task_phase := lit ''failed'',
            task_summary := Told message, task_finished := Some now\<rparr>) d)"

section \<open>Phases\<close>

definition phases_of :: "db \<Rightarrow> int \<Rightarrow> phase_row list" where
  "phases_of d task = filter (\<lambda>p. phase_task p = task) (phases d)"

definition steps_of :: "db \<Rightarrow> int \<Rightarrow> step_row list" where
  "steps_of d task = filter (\<lambda>s. step_task s = task) (steps d)"

definition running_phase :: "time \<Rightarrow> int \<Rightarrow> int \<Rightarrow> ustr \<Rightarrow> memo \<Rightarrow> phase_row" where
  "running_phase now task no key title =
    \<lparr> phase_id = 0, phase_task = task, phase_no = no, phase_key = key, phase_title = title,
      phase_status = StepRunning, phase_summary = Told [], phase_started = Some now,
      phase_finished = None \<rparr>"

definition update_phase_tx :: "time \<Rightarrow> int \<Rightarrow> ustr \<Rightarrow> unit task_op" where
  "update_phase_tx now task phase d =
    (let q = (\<lambda>t. task_id t = task \<and> task_status t = TaskRunning);
         d1 = update_tasks q (\<lambda>t. t\<lparr>task_phase := phase\<rparr>) d
     in if affected q (tasks d) = 0 then (Inr (), d1)
        else
         (let d2 = update_phases
                (\<lambda>p. phase_task p = task \<and> phase_key p \<noteq> phase \<and> phase_status p = StepRunning)
                (\<lambda>p. p\<lparr>phase_status := StepSuccess,
                       phase_finished := coalesce (phase_finished p) now\<rparr>) d1;
              r = (\<lambda>p. phase_task p = task \<and> phase_key p = phase);
              d3 = update_phases r
                (\<lambda>p. p\<lparr>phase_title := PhaseTitle phase, phase_status := StepRunning,
                       phase_started := coalesce (phase_started p) now,
                       phase_finished := None\<rparr>) d2
          in if affected r (phases d2) = 0
             then (Inr (), snd (insert_phase d3 (running_phase now task
                     (next_no phase_no (phases_of d3 task)) phase (PhaseTitle phase))))
             else (Inr (), d3)))"

definition update_phase :: "time \<Rightarrow> int \<Rightarrow> ustr \<Rightarrow> unit task_op" where
  "update_phase now task phase d =
    (case normalize_task_phase phase of Inl e \<Rightarrow> (Inl e, d)
     | Inr phase \<Rightarrow> transaction (update_phase_tx now task phase) d)"

text \<open>
  A phase is refused when its key is taken (\<open>UNIQUE(task_id, phase_key)\<close>), which
  \<open>From<sqlx::Error>\<close> turns into the message of the active-task constraint, and when its
  task does not exist.
\<close>

definition start_phase_tx :: "time \<Rightarrow> int \<Rightarrow> ustr \<Rightarrow> ustr \<Rightarrow> int task_op" where
  "start_phase_tx now task key title d =
    (if \<exists>p \<in> set (phases d). phase_task p = task \<and> phase_key p = key
       then (Inl (InvalidState ActiveTaskExists), d)
     else if \<not> task_exists d task then (Inl (Internal ForeignKeyFailed), d)
     else case insert_phase d (running_phase now task (next_no phase_no (phases_of d task)) key
            (Told title)) of
       (i, d1) \<Rightarrow> (case insert_log task None (lit ''system'') (StartedPhase title) d1 of
           (Inl e, d2) \<Rightarrow> (Inl e, d2) | (Inr _, d2) \<Rightarrow> (Inr i, d2)))"

definition start_phase :: "time \<Rightarrow> int \<Rightarrow> ustr \<Rightarrow> ustr \<Rightarrow> int task_op" where
  "start_phase now task key title d =
    (case normalize_step_key key of Inl e \<Rightarrow> (Inl e, d) | Inr key \<Rightarrow>
     (case required_step_text title PhaseTitleRequired of Inl e \<Rightarrow> (Inl e, d)
      | Inr title \<Rightarrow> transaction (start_phase_tx now task key title) d))"

definition finish_phase_tx :: "time \<Rightarrow> int \<Rightarrow> int \<Rightarrow> step_status \<Rightarrow> ustr \<Rightarrow> unit task_op" where
  "finish_phase_tx now task phase status summary d =
    (let q = (\<lambda>p. phase_task p = task \<and> phase_id p = phase);
         d1 = update_phases q (\<lambda>p. p\<lparr>phase_status := status, phase_summary := Told summary,
                phase_finished := Some now\<rparr>) d
     in if affected q (phases d) = 0 then (Inl (TaskNotFound PhaseMissing), d1)
        else if summary = [] then (Inr (), d1)
        else insert_log task None (lit ''system'') (Told summary) d1)"

definition finish_phase :: "time \<Rightarrow> int \<Rightarrow> int \<Rightarrow> ustr \<Rightarrow> ustr \<Rightarrow> unit task_op" where
  "finish_phase now task phase status summary d =
    (case normalize_step_status status of Inl e \<Rightarrow> (Inl e, d)
     | Inr status \<Rightarrow> transaction (finish_phase_tx now task phase status (trim summary)) d)"

section \<open>Steps\<close>

definition current_phase :: "db \<Rightarrow> int \<Rightarrow> int option" where
  "current_phase d task =
    (case sort_key (\<lambda>p. (- phase_no p, - phase_id p))
        (filter (\<lambda>p. phase_status p = StepRunning) (phases_of d task)) of
       [] \<Rightarrow> None | p # _ \<Rightarrow> Some (phase_id p))"

definition start_step_tx :: "time \<Rightarrow> int \<Rightarrow> int option \<Rightarrow> ustr \<Rightarrow> ustr \<Rightarrow> ustr \<Rightarrow> int task_op" where
  "start_step_tx now task node key title command d =
    (if \<not> task_exists d task then (Inl (Internal ForeignKeyFailed), d)
     else case insert_step d \<lparr> step_id = 0, step_task = task, step_phase = current_phase d task,
            step_node = node, step_no = next_no step_no (steps_of d task), step_key = key,
            step_title = Told title, step_command = command, step_status = StepRunning,
            step_exit_code = None, step_started = Some now, step_finished = None \<rparr> of
       (i, d1) \<Rightarrow> (case insert_log task (Some i) (lit ''system'') (StartedStep title) d1 of
           (Inl e, d2) \<Rightarrow> (Inl e, d2) | (Inr _, d2) \<Rightarrow> (Inr i, d2)))"

definition start_step :: "time \<Rightarrow> int \<Rightarrow> int option \<Rightarrow> ustr \<Rightarrow> ustr \<Rightarrow> ustr \<Rightarrow> int task_op" where
  "start_step now task node key title command d =
    (case normalize_step_key key of Inl e \<Rightarrow> (Inl e, d) | Inr key \<Rightarrow>
     (case required_step_text title StepTitleRequired of Inl e \<Rightarrow> (Inl e, d)
      | Inr title \<Rightarrow> transaction (start_step_tx now task node key title (trim command)) d))"

definition finish_step_tx ::
  "time \<Rightarrow> int \<Rightarrow> int \<Rightarrow> step_status \<Rightarrow> int option \<Rightarrow> ustr \<Rightarrow> unit task_op"
where
  "finish_step_tx now task step status code summary d =
    (let q = (\<lambda>s. step_task s = task \<and> step_id s = step);
         d1 = update_steps q (\<lambda>s. s\<lparr>step_status := status, step_exit_code := code,
                step_finished := Some now\<rparr>) d
     in if affected q (steps d) = 0 then (Inl (TaskNotFound StepMissing), d1)
        else if trim summary = [] then (Inr (), d1)
        else insert_log task (Some step) (lit ''system'') (Told (trim summary)) d1)"

definition finish_step_with_status ::
  "time \<Rightarrow> int \<Rightarrow> int \<Rightarrow> ustr \<Rightarrow> int option \<Rightarrow> ustr \<Rightarrow> unit task_op"
where
  "finish_step_with_status now task step status code summary d =
    (case normalize_step_status status of Inl e \<Rightarrow> (Inl e, d)
     | Inr status \<Rightarrow> transaction (finish_step_tx now task step status code summary) d)"

definition finish_step :: "time \<Rightarrow> int \<Rightarrow> int \<Rightarrow> int option \<Rightarrow> ustr \<Rightarrow> unit task_op" where
  "finish_step now task step code summary =
     finish_step_with_status now task step (lit ''success'') code summary"

definition fail_step :: "time \<Rightarrow> int \<Rightarrow> int \<Rightarrow> int option \<Rightarrow> ustr \<Rightarrow> unit task_op" where
  "fail_step now task step code summary =
     finish_step_with_status now task step (lit ''failed'') code summary"

definition skip_step :: "time \<Rightarrow> int \<Rightarrow> int \<Rightarrow> ustr \<Rightarrow> unit task_op" where
  "skip_step now task step summary =
     finish_step_with_status now task step (lit ''skipped'') None summary"

section \<open>Queue\<close>

definition queue_kinds :: "ustr list" where
  "queue_kinds = map lit [''compose.up'', ''compose.down'', ''compose.restart'', ''binary.restart'',
     ''binary.stop'', ''release.deploy'', ''release.rollback'', ''release.manual_apply'',
     ''node.install.docker'', ''node.install.compose'', ''node.install.caddy'',
     ''node.install.nginx'']"

definition queue_task :: "task_row \<Rightarrow> bool" where
  "queue_task t \<longleftrightarrow> active_task (task_status t) \<and> task_kind t \<in> set queue_kinds"

definition active_app_task :: "db \<Rightarrow> int \<Rightarrow> task_row option" where
  "active_app_task d app =
    (case sort_key (\<lambda>t. (if task_status t = TaskRunning then 0 else 1 :: int, task_id t))
        (filter (\<lambda>t. task_app t = Some app \<and> queue_task t) (tasks d)) of
       [] \<Rightarrow> None | t # _ \<Rightarrow> Some t)"

text \<open>\<open>TaskQueuePositionItem\<close>: queued before, running before.\<close>

definition task_queue_position :: "db \<Rightarrow> int \<Rightarrow> task_error + (nat \<times> nat)" where
  "task_queue_position d task =
    (case find (\<lambda>t. task_id t = task) (tasks d) of
       None \<Rightarrow> Inl (TaskNotFound TaskMissing)
     | Some current \<Rightarrow>
         let others = filter (\<lambda>t. queue_task t \<and> task_id t \<noteq> task_id current) (tasks d)
         in Inr (affected (\<lambda>t. task_status t = TaskQueued \<and> task_id t < task_id current) others,
                 affected (\<lambda>t. task_status t = TaskRunning) others))"

section \<open>Lists\<close>

record task_filter =
  tf_status :: "ustr option"
  tf_phase :: "ustr option"
  tf_app :: "int option"
  tf_kind :: "ustr option"
  tf_query :: "ustr option"

definition all_task_statuses :: "task_status list" where
  "all_task_statuses = [TaskCanceled, TaskFailed, TaskQueued, TaskRunning, TaskSuccess]"

definition normalize_task_filter :: "task_filter \<Rightarrow> task_error + task_filter" where
  "normalize_task_filter f =
    (let status = normalize_optional_filter (tf_status f);
         phase = normalize_optional_filter (tf_phase f);
         kind = normalize_optional_filter (tf_kind f)
     in if \<exists>s. status = Some s \<and> s \<notin> set (map task_status_name all_task_statuses)
        then Inl (InvalidState BadStatusFilter)
        else if \<exists>p. phase = Some p \<and> p \<notin> set task_phases_allowed then Inl (InvalidState BadPhase)
        else if \<exists>k. kind = Some k \<and> k \<notin> set queue_kinds then Inl (InvalidState BadKindFilter)
        else Inr (f\<lparr>tf_status := status, tf_phase := phase, tf_kind := kind,
          tf_query := map_option (take 80) (normalize_optional_filter (tf_query f))\<rparr>))"

text \<open>
  The names of the applications and nodes a task refers to, and the text a message shows,
  come from outside these tables.
\<close>

record task_view =
  view_app :: "int \<Rightarrow> ustr option"
  view_node :: "int \<Rightarrow> ustr option"
  view_text :: "memo \<Rightarrow> ustr"

definition task_app_name :: "task_view \<Rightarrow> task_row \<Rightarrow> ustr option" where
  "task_app_name v t = Option.bind (task_app t) (view_app v)"

definition task_node_name :: "task_view \<Rightarrow> task_row \<Rightarrow> ustr option" where
  "task_node_name v t = Option.bind (task_node t) (view_node v)"

definition task_filter_matches :: "task_view \<Rightarrow> task_filter \<Rightarrow> bool \<Rightarrow> task_row \<Rightarrow> bool" where
  "task_filter_matches v f include_status t \<longleftrightarrow>
     (include_status \<longrightarrow> opt_eq (tf_status f) (task_status_name (task_status t))) \<and>
     opt_eq (tf_phase f) (task_phase t) \<and>
     (case tf_app f of None \<Rightarrow> True | Some a \<Rightarrow> task_app t = Some a) \<and>
     opt_eq (tf_kind f) (task_kind t) \<and>
     (case tf_query f of None \<Rightarrow> True
      | Some q \<Rightarrow> let pattern = lit ''%'' @ q @ lit ''%'' in
          like pattern (view_text v (task_title t)) \<or> like pattern (task_command t) \<or>
          like pattern (view_text v (task_summary t)) \<or>
          (case task_app_name v t of None \<Rightarrow> False | Some n \<Rightarrow> like pattern n))"

definition list_tasks_filtered :: "task_view \<Rightarrow> db \<Rightarrow> task_filter \<Rightarrow>
    task_error + (task_row \<times> ustr option) list" where
  "list_tasks_filtered v d f =
    (case normalize_task_filter f of Inl e \<Rightarrow> Inl e | Inr f \<Rightarrow>
       Inr (map (\<lambda>t. (t, task_app_name v t))
         (take 100 (rev (sort_key task_id (filter (task_filter_matches v f True) (tasks d)))))))"

definition no_filter :: task_filter where
  "no_filter = \<lparr> tf_status = None, tf_phase = None, tf_app = None, tf_kind = None, tf_query = None \<rparr>"

definition list_tasks :: "task_view \<Rightarrow> db \<Rightarrow> task_error + (task_row \<times> ustr option) list" where
  "list_tasks v d = list_tasks_filtered v d no_filter"

text \<open>\<open>GROUP BY t.status\<close>: the groups come in the order of the status texts.\<close>

definition task_status_rank :: "task_status \<Rightarrow> nat" where
  "task_status_rank s = (case s of TaskCanceled \<Rightarrow> 0 | TaskFailed \<Rightarrow> 1 | TaskQueued \<Rightarrow> 2
     | TaskRunning \<Rightarrow> 3 | TaskSuccess \<Rightarrow> 4)"

instantiation task_status :: linorder
begin

definition less_eq_task_status :: "task_status \<Rightarrow> task_status \<Rightarrow> bool" where
  "less_eq_task_status s t \<longleftrightarrow> task_status_rank s \<le> task_status_rank t"

definition less_task_status :: "task_status \<Rightarrow> task_status \<Rightarrow> bool" where
  "less_task_status s t \<longleftrightarrow> task_status_rank s < task_status_rank t"

instance
proof
  fix s t :: task_status
  assume "s \<le> t" "t \<le> s"
  then show "s = t"
    by (cases s; cases t) (simp_all add: less_eq_task_status_def task_status_rank_def)
qed (auto simp: less_eq_task_status_def less_task_status_def)

end

definition task_status_counts :: "task_view \<Rightarrow> db \<Rightarrow> task_filter \<Rightarrow>
    task_error + (task_status \<times> nat) list" where
  "task_status_counts v d f =
    (case normalize_task_filter f of Inl e \<Rightarrow> Inl e | Inr f \<Rightarrow>
       let rows = filter (task_filter_matches v f False) (tasks d)
       in Inr (map (\<lambda>s. (s, affected (\<lambda>t. task_status t = s) rows))
            (remdups_adj (sort (map task_status rows)))))"

definition task_detail :: "task_view \<Rightarrow> db \<Rightarrow> int \<Rightarrow>
    task_error + (task_row \<times> ustr option \<times> ustr option)" where
  "task_detail v d task =
    (case find (\<lambda>t. task_id t = task) (tasks d) of
       None \<Rightarrow> Inl (TaskNotFound TaskMissing)
     | Some t \<Rightarrow> Inr (t, task_app_name v t, task_node_name v t))"

definition task_logs :: "db \<Rightarrow> int \<Rightarrow> log_row list" where
  "task_logs d task = take 1000 (filter (\<lambda>l. log_task l = task) (logs d))"

definition task_phase_rows :: "db \<Rightarrow> int \<Rightarrow> phase_row list" where
  "task_phase_rows d task = sort_key (\<lambda>p. (phase_no p, phase_id p)) (phases_of d task)"

definition task_step_rows :: "task_view \<Rightarrow> db \<Rightarrow> int \<Rightarrow> (step_row \<times> ustr option) list" where
  "task_step_rows v d task = map (\<lambda>s. (s, Option.bind (step_node s) (view_node v)))
     (sort_key (\<lambda>s. (step_no s, step_id s)) (steps_of d task))"

section \<open>Results of the nodes\<close>

datatype node_result_status = NodeSuccess | NodeFailed | NodeSkipped

record node_result =
  nr_id :: int
  nr_task :: int
  nr_node :: int
  nr_name :: ustr
  nr_key :: ustr
  nr_type :: ustr
  nr_status :: node_result_status
  nr_message :: ustr
  nr_commands :: int
  nr_started :: "time option"
  nr_finished :: time

record node_result_input =
  ni_task :: int
  ni_node :: int
  ni_name :: ustr
  ni_key :: ustr
  ni_type :: ustr
  ni_status :: ustr
  ni_message :: ustr
  ni_commands :: int

definition normalize_node_result_status :: "ustr \<Rightarrow> task_error + node_result_status" where
  "normalize_node_result_status status =
    (if status = lit ''success'' then Inr NodeSuccess
     else if status = lit ''failed'' then Inr NodeFailed
     else if status = lit ''skipped'' then Inr NodeSkipped
     else Inl (InvalidState (BadNodeStatus status)))"

text \<open>The table with its id counter; a second result of a node replaces the first in place.\<close>

definition record_node_result ::
  "db \<Rightarrow> time \<Rightarrow> node_result_input \<Rightarrow> (node_result list \<times> int, task_error, unit) operation"
where
  "record_node_result d now inp tbl =
    (case normalize_node_result_status (ni_status inp) of Inl e \<Rightarrow> (Inl e, tbl) | Inr status \<Rightarrow>
     if \<not> task_exists d (ni_task inp) then (Inl (Internal ForeignKeyFailed), tbl)
     else
      (let (rows, seq) = tbl;
           q = (\<lambda>r. nr_task r = ni_task inp \<and> nr_node r = ni_node inp)
       in if \<exists>r \<in> set rows. q r
          then (Inr (), (modify q (\<lambda>r. r\<lparr>nr_name := ni_name inp, nr_key := ni_key inp,
              nr_type := ni_type inp, nr_status := status, nr_message := ni_message inp,
              nr_commands := ni_commands inp, nr_finished := now\<rparr>) rows, seq))
          else (Inr (), (rows @ [\<lparr> nr_id = seq + 1, nr_task = ni_task inp, nr_node = ni_node inp,
              nr_name = ni_name inp, nr_key = ni_key inp, nr_type = ni_type inp,
              nr_status = status, nr_message = ni_message inp, nr_commands = ni_commands inp,
              nr_started = Some now, nr_finished = now \<rparr>], seq + 1))))"

definition task_node_results :: "node_result list \<times> int \<Rightarrow> int \<Rightarrow> node_result list" where
  "task_node_results tbl task = sort_key nr_id (filter (\<lambda>r. nr_task r = task) (fst tbl))"

section \<open>The deployment history\<close>

record history_row =
  h_app :: int
  h_task :: int
  h_release :: "int option"
  h_action :: ustr
  h_status :: ustr
  h_message :: ustr
  h_snapshot :: "int option"
  h_revision :: int
  h_version :: ustr
  h_finished :: time

definition history_actions :: "ustr list" where
  "history_actions = map lit [''compose_up'', ''compose_down'', ''compose_restart'',
     ''binary_restart'', ''binary_stop'']"

definition history_statuses :: "ustr list" where
  "history_statuses = map lit [''running'', ''success'', ''failed'']"

definition record_deployment_run ::
  "history_row \<Rightarrow> (history_row list, task_error, unit) operation"
where
  "record_deployment_run row rows =
    (if h_action row \<in> set history_actions \<and> h_status row \<in> set history_statuses
     then (Inr (), rows @ [row]) else (Inl (Internal CheckFailed), rows))"

datatype compose_task_action = ComposeUp | ComposeDown | ComposeRestart

fun compose_deploy_action :: "compose_task_action \<Rightarrow> ustr" where
  "compose_deploy_action ComposeUp = lit ''compose_up''"
| "compose_deploy_action ComposeDown = lit ''compose_down''"
| "compose_deploy_action ComposeRestart = lit ''compose_restart''"

definition job_deploy_action :: "int option \<Rightarrow> compose_task_action \<Rightarrow> ustr" where
  "job_deploy_action release action =
    (if release \<noteq> None then lit ''release_deploy'' else compose_deploy_action action)"

end
