(* ===== verification/Task_Board.thy ===== *)
theory Task_Board
  imports Tasks
begin

text \<open>
  What every operation of the task service and of the orchestrator keeps of the tasks: no task
  goes back into the queue, phases and steps stay numbered, and phase keys stay distinct.
\<close>

section \<open>Rows numbered per owner\<close>

definition numbered :: "('r \<Rightarrow> int) \<Rightarrow> ('r \<Rightarrow> int) \<Rightarrow> 'r list \<Rightarrow> bool" where
  "numbered owner no rows \<longleftrightarrow>
     (\<forall>i. let rs = filter (\<lambda>r. owner r = i) rows in map no rs = map int [1..<Suc (length rs)])"

lemma next_no_numbered:
  assumes "map no rs = map int [1..<Suc (length rs)]"
  shows "next_no no rs = int (Suc (length rs))"
proof -
  have "foldr max (map int [1..<Suc n]) m = max m (int n)" if "0 \<le> m" for n m
    using that by (induction n arbitrary: m) auto
  from this [of 0 "length rs"] assms show ?thesis by (simp add: next_no_def)
qed

lemma numbered_append:
  assumes "numbered owner no rows"
    and "no r = next_no no (filter (\<lambda>x. owner x = owner r) rows)"
  shows "numbered owner no (rows @ [r])"
proof -
  have "map no (filter (\<lambda>x. owner x = owner r) rows) =
      map int [1..<Suc (length (filter (\<lambda>x. owner x = owner r) rows))]"
    using assms(1) by (simp add: numbered_def Let_def)
  from next_no_numbered [OF this] assms show ?thesis by (simp add: numbered_def Let_def)
qed

lemma numbered_modify:
  assumes "\<And>r. p r \<Longrightarrow> owner (f r) = owner r \<and> no (f r) = no r"
  shows "numbered owner no (modify p f rows) = numbered owner no rows"
proof -
  have "filter (\<lambda>r. owner r = i) (modify p f rows) = modify p f (filter (\<lambda>r. owner r = i) rows)" for i
    by (rule filter_modify_inv) (simp add: assms)
  moreover have "map no (modify p f rs) = map no rs" for rs by (rule map_modify) (simp add: assms)
  ultimately show ?thesis by (simp add: numbered_def Let_def)
qed

section \<open>The board of tasks\<close>

text \<open>
  A service over a database that only adds tasks with fresh ids and never puts one back into
  the queue.
\<close>

definition left_queue :: "db \<Rightarrow> int \<Rightarrow> bool" where
  "left_queue d i \<longleftrightarrow> i \<le> task_seq d \<and> (\<forall>t \<in> set (tasks d). task_id t = i \<longrightarrow> task_status t \<noteq> TaskQueued)"

definition task_ids_ok :: "db \<Rightarrow> bool" where
  "task_ids_ok d \<longleftrightarrow> (\<forall>t \<in> set (tasks d). task_id t \<le> task_seq d)"

definition task_forward :: "task_row \<Rightarrow> task_row \<Rightarrow> bool" where
  "task_forward t t' \<longleftrightarrow> task_id t' = task_id t \<and> (task_status t' = TaskQueued \<longrightarrow> task_status t = TaskQueued)"

definition tasks_forward :: "db \<Rightarrow> db \<Rightarrow> bool" where
  "tasks_forward d d' \<longleftrightarrow> task_seq d \<le> task_seq d' \<and>
     (\<forall>t' \<in> set (tasks d'). (\<exists>t \<in> set (tasks d). task_forward t t') \<or>
        (task_seq d < task_id t' \<and> task_id t' \<le> task_seq d'))"

lemma task_forward_refl [simp]: "task_forward t t"
  by (simp add: task_forward_def)

lemma forward_self: "t \<in> set (tasks d) \<Longrightarrow> \<exists>t' \<in> set (tasks d). task_forward t' t"
  by (rule bexI [of _ t]) simp_all

lemma tasks_forward_same: "tasks d' = tasks d \<Longrightarrow> task_seq d' = task_seq d \<Longrightarrow> tasks_forward d d'"
  by (auto simp: tasks_forward_def intro: forward_self)

lemma tasks_forward_trans:
  assumes "tasks_forward d1 d2" and "tasks_forward d2 d3"
  shows "tasks_forward d1 d3"
  unfolding tasks_forward_def
proof (intro conjI ballI)
  show "task_seq d1 \<le> task_seq d3" using assms by (simp add: tasks_forward_def)
  fix t3 assume "t3 \<in> set (tasks d3)"
  then consider t2 where "t2 \<in> set (tasks d2)" "task_forward t2 t3"
    | "task_seq d2 < task_id t3" "task_id t3 \<le> task_seq d3"
    using assms(2) by (auto simp: tasks_forward_def)
  then show "(\<exists>t \<in> set (tasks d1). task_forward t t3) \<or> (task_seq d1 < task_id t3 \<and> task_id t3 \<le> task_seq d3)"
  proof cases
    case 1
    then show ?thesis using assms by (fastforce simp: tasks_forward_def task_forward_def)
  next
    case 2
    then show ?thesis using assms by (auto simp: tasks_forward_def)
  qed
qed

lemma tasks_forward_update [simp]:
  assumes "\<And>t. p t \<Longrightarrow> task_forward t (f t)"
  shows "tasks_forward d (update_tasks p f d)"
  unfolding tasks_forward_def
proof (intro conjI ballI disjI1)
  fix t' assume "t' \<in> set (tasks (update_tasks p f d))"
  then obtain t where "t \<in> set (tasks d)" "t' = (if p t then f t else t)"
    by (auto elim: in_set_modifyE)
  with assms show "\<exists>t \<in> set (tasks d). task_forward t t'" by (auto intro: forward_self)
qed simp

lemma left_queue_forward: "tasks_forward d d' \<Longrightarrow> left_queue d i \<Longrightarrow> left_queue d' i"
  by (fastforce simp: left_queue_def tasks_forward_def task_forward_def)

lemma task_ids_forward: "tasks_forward d d' \<Longrightarrow> task_ids_ok d \<Longrightarrow> task_ids_ok d'"
  by (fastforce simp: task_ids_ok_def tasks_forward_def task_forward_def)

text \<open>The numbers of phases and steps, and the keys of phases.\<close>

definition keys_ok :: "db \<Rightarrow> bool" where
  "keys_ok d \<longleftrightarrow> distinct (map (\<lambda>p. (phase_task p, phase_key p)) (phases d))"

definition numbers_ok :: "db \<Rightarrow> bool" where
  "numbers_ok d \<longleftrightarrow> numbered phase_task phase_no (phases d) \<and> numbered step_task step_no (steps d) \<and> keys_ok d"

text \<open>A phase belongs to a task that has been created.\<close>

definition board_ok :: "db \<Rightarrow> bool" where
  "board_ok d \<longleftrightarrow> task_ids_ok d \<and> numbers_ok d \<and> (\<forall>p \<in> set (phases d). phase_task p \<le> task_seq d)"

lemma numbers_ok_cong:
  "phases d' = phases d \<Longrightarrow> steps d' = steps d \<Longrightarrow> numbers_ok d' = numbers_ok d"
  by (simp add: numbers_ok_def keys_ok_def)

lemma numbers_ok_phases:
  assumes "\<And>r. p r \<Longrightarrow> phase_task (f r) = phase_task r \<and> phase_no (f r) = phase_no r \<and> phase_key (f r) = phase_key r"
  shows "numbers_ok (update_phases p f d) = numbers_ok d"
  using numbered_modify [of p phase_task f phase_no "phases d"]
    map_modify [of p "\<lambda>p. (phase_task p, phase_key p)" f "phases d"] assms
  by (simp add: numbers_ok_def keys_ok_def)

lemma numbers_ok_steps:
  assumes "\<And>r. p r \<Longrightarrow> step_task (f r) = step_task r \<and> step_no (f r) = step_no r"
  shows "numbers_ok (update_steps p f d) = numbers_ok d"
  using numbered_modify [of p step_task f step_no "steps d"] assms
  by (simp add: numbers_ok_def keys_ok_def)

lemma numbers_ok_insert_phase:
  assumes "numbers_ok d" "phase_no r = next_no phase_no (phases_of d (phase_task r))"
    and "\<forall>p \<in> set (phases d). phase_task p = phase_task r \<longrightarrow> phase_key p \<noteq> phase_key r"
  shows "numbers_ok (snd (insert_phase d r))"
  using assms numbered_append [of phase_task phase_no "phases d" "r\<lparr>phase_id := phase_seq d + 1\<rparr>"]
  by (auto simp: numbers_ok_def keys_ok_def insert_phase_def phases_of_def)

lemma numbers_ok_insert_step:
  assumes "numbers_ok d" "step_no r = next_no step_no (steps_of d (step_task r))"
  shows "numbers_ok (snd (insert_step d r))"
  using assms numbered_append [of step_task step_no "steps d" "r\<lparr>step_id := step_seq d + 1\<rparr>"]
  by (auto simp: numbers_ok_def keys_ok_def insert_step_def steps_of_def)

section \<open>The service keeps the board\<close>

definition kept :: "db \<Rightarrow> db \<Rightarrow> bool" where
  "kept d d' \<longleftrightarrow> tasks_forward d d' \<and> (board_ok d \<longrightarrow> board_ok d')"

lemma keptI:
  assumes "tasks_forward d d'" and "numbers_ok d \<Longrightarrow> numbers_ok d'"
    and "\<And>p. p \<in> set (phases d') \<Longrightarrow> phase_task p \<in> phase_task ` set (phases d) \<or> (board_ok d \<longrightarrow> phase_task p \<le> task_seq d')"
  shows "kept d d'"
proof -
  have "phase_task p \<le> task_seq d'" if "board_ok d" "p \<in> set (phases d')" for p
    using that assms(1) assms(3) [of p] by (fastforce simp: board_ok_def tasks_forward_def)
  then show ?thesis using assms task_ids_forward [OF assms(1)] by (auto simp: kept_def board_ok_def)
qed

lemma kept_refl [simp, intro]: "kept d d"
  by (simp add: kept_def tasks_forward_same)

lemma kept_trans: "kept d1 d2 \<Longrightarrow> kept d2 d3 \<Longrightarrow> kept d1 d3"
  using tasks_forward_trans by (auto simp: kept_def)

lemma kept_same:
  assumes "kept d0 d" and "tasks d' = tasks d" and "task_seq d' = task_seq d"
    and "phases d' = phases d" and "steps d' = steps d"
  shows "kept d0 d'"
  by (rule kept_trans [OF assms(1)], rule keptI)
     (use numbers_ok_cong [of d' d] assms in \<open>simp_all add: tasks_forward_same\<close>)

lemma kept_tasks:
  assumes "kept d0 d" and "\<And>t. p t \<Longrightarrow> task_forward t (f t)"
  shows "kept d0 (update_tasks p f d)"
  by (rule kept_trans [OF assms(1)], rule keptI)
     (use assms numbers_ok_cong [of "update_tasks p f d" d] in simp_all)

lemma kept_phases:
  assumes "kept d0 d"
    and "\<And>r. p r \<Longrightarrow> phase_task (f r) = phase_task r \<and> phase_no (f r) = phase_no r \<and> phase_key (f r) = phase_key r"
  shows "kept d0 (update_phases p f d)"
proof (rule kept_trans [OF assms(1)], rule keptI)
  fix q assume "q \<in> set (phases (update_phases p f d))"
  then obtain r where "r \<in> set (phases d)" "q = (if p r then f r else r)" by (auto elim: in_set_modifyE)
  then show "phase_task q \<in> phase_task ` set (phases d) \<or> (board_ok d \<longrightarrow> phase_task q \<le> task_seq (update_phases p f d))"
    using assms(2) by auto
qed (use numbers_ok_phases [of p f d, OF assms(2)] in \<open>simp_all add: tasks_forward_same\<close>)

lemma kept_steps:
  assumes "kept d0 d" and "\<And>r. p r \<Longrightarrow> step_task (f r) = step_task r \<and> step_no (f r) = step_no r"
  shows "kept d0 (update_steps p f d)"
  by (rule kept_trans [OF assms(1)], rule keptI)
     (use assms(1) numbers_ok_steps [of p f d, OF assms(2)] in \<open>simp_all add: tasks_forward_same\<close>)

lemma kept_insert_phase:
  assumes "kept d0 d" and "phase_no r = next_no phase_no (phases_of d (phase_task r))"
    and "\<forall>p \<in> set (phases d). phase_task p = phase_task r \<longrightarrow> phase_key p \<noteq> phase_key r"
    and "board_ok d \<Longrightarrow> phase_task r \<le> task_seq d"
  shows "kept d0 (snd (insert_phase d r))"
  by (rule kept_trans [OF assms(1)], rule keptI)
     (use numbers_ok_insert_phase [OF _ assms(2,3)] assms(4) in \<open>auto simp: tasks_forward_same insert_phase_def\<close>)

lemma kept_insert_step:
  assumes "kept d0 d" and "step_no r = next_no step_no (steps_of d (step_task r))"
  shows "kept d0 (snd (insert_step d r))"
  by (rule kept_trans [OF assms(1)], rule keptI)
     (use numbers_ok_insert_step [OF _ assms(2)] in \<open>auto simp: tasks_forward_same insert_step_def\<close>)

lemma kept_transaction: "kept d (snd (m d)) \<Longrightarrow> kept d (snd (transaction m d))"
  using transaction_snd [of m d] by auto

lemma insert_log_state [simp]:
  "tasks (snd (insert_log i s st c d)) = tasks d" "task_seq (snd (insert_log i s st c d)) = task_seq d"
  "phases (snd (insert_log i s st c d)) = phases d" "steps (snd (insert_log i s st c d)) = steps d"
  by (simp_all add: insert_log_def)

lemma task_append_log_state [simp]:
  "tasks (snd (task_append_log i st c d)) = tasks d" "task_seq (snd (task_append_log i st c d)) = task_seq d"
  "phases (snd (task_append_log i st c d)) = phases d" "steps (snd (task_append_log i st c d)) = steps d"
  by (simp_all add: task_append_log_def split: sum.split)

lemma append_step_log_state [simp]:
  "tasks (snd (append_step_log i s st c d)) = tasks d" "task_seq (snd (append_step_log i s st c d)) = task_seq d"
  "phases (snd (append_step_log i s st c d)) = phases d" "steps (snd (append_step_log i s st c d)) = steps d"
  by (simp_all add: append_step_log_def split: sum.split)

lemma kept_logs:
  "kept d0 d \<Longrightarrow> kept d0 (snd (insert_log i s st c d))"
  "kept d0 d \<Longrightarrow> kept d0 (snd (task_append_log i st c d))"
  "kept d0 d \<Longrightarrow> kept d0 (snd (append_step_log i j st c d))"
  by (rule kept_same; simp)+

text \<open>The state after passing on the error or the value of a step.\<close>

lemma snd_pass [simp]:
  "snd (case m of (Inl e, s) \<Rightarrow> (Inl e, s) | (Inr x, s) \<Rightarrow> (Inr (g x), s)) = snd m"
  by (simp split: prod.split sum.split)

lemmas kept_rules = kept_tasks kept_phases kept_steps kept_logs kept_refl

lemma kept_insert_task:
  assumes "kept d0 d" and "insert_task d row = Some (i, d')"
  shows "kept d0 d'"
  by (rule kept_trans [OF assms(1)], rule keptI)
     (use assms(2) in \<open>auto simp: insert_task_Some tasks_forward_def numbers_ok_def keys_ok_def intro: forward_self\<close>)

lemma kept_create_task: "kept d (snd (create_task inp d))"
  by (auto simp: create_task_def intro: kept_insert_task split: option.splits)

lemma kept_mark_running: "kept d (snd (mark_running now task command phase d))"
  unfolding mark_running_def Let_def
  by (auto split: sum.split intro!: kept_rules simp: task_forward_def)

lemma kept_cancel_queued: "kept d (snd (cancel_queued now task actor d))"
  unfolding cancel_queued_def Let_def
  by (auto split: sum.split intro!: kept_rules simp: task_forward_def)

lemma kept_finish_open_phases: "kept d0 d \<Longrightarrow> kept d0 (snd (finish_open_phases now task status d))"
  unfolding finish_open_phases_def
  by (auto split: sum.split intro!: kept_rules)

lemma kept_finish_task:
  assumes "kept d0 d"
  shows "kept d0 (snd (finish_task now task status stream content d))"
proof (cases "finish_open_phases now task status d")
  case (Pair r d1)
  then have "kept d0 d1" using kept_finish_open_phases [OF assms, of now task status] by simp
  then show ?thesis using Pair by (auto simp: finish_task_def split: sum.split intro!: kept_logs)
qed

lemma kept_finishing:
  "kept d (snd (finish_with_compose_output now task out d))"
  "kept d (snd (finish_success now task command summary d))"
  "kept d (snd (fail_task now task message d))"
  unfolding finish_with_compose_output_def finish_success_def fail_task_def Let_def
  by (auto intro!: kept_finish_task kept_rules simp: task_forward_def)

lemma untouched_modify: "affected p xs = 0 \<Longrightarrow> modify p f xs = xs"
  by (rule modify_id_when) (simp add: affected_0)

lemma kept_update_phase_tx: "kept d (snd (update_phase_tx now task phase d))"
proof -
  let ?d1 = "update_tasks (\<lambda>t. task_id t = task \<and> task_status t = TaskRunning) (\<lambda>t. t\<lparr>task_phase := phase\<rparr>) d"
  let ?d2 = "update_phases (\<lambda>p. phase_task p = task \<and> phase_key p \<noteq> phase \<and> phase_status p = StepRunning)
      (\<lambda>p. p\<lparr>phase_status := StepSuccess, phase_finished := coalesce (phase_finished p) now\<rparr>) ?d1"
  let ?r = "\<lambda>p. phase_task p = task \<and> phase_key p = phase"
  let ?d3 = "update_phases ?r (\<lambda>p. p\<lparr>phase_title := PhaseTitle phase, phase_status := StepRunning,
      phase_started := coalesce (phase_started p) now, phase_finished := None\<rparr>) ?d2"
  let ?row = "running_phase now task (next_no phase_no (phases_of ?d3 task)) phase (PhaseTitle phase)"
  have d1: "kept d ?d1" by (rule kept_tasks) (simp_all add: task_forward_def)
  then have "kept d ?d2" by (rule kept_phases) simp
  then have d3: "kept d ?d3" by (rule kept_phases) simp
  have new: "kept d (snd (insert_phase ?d3 ?row))"
    if z: "affected ?r (phases ?d2) = 0" and running: "affected (\<lambda>t. task_id t = task \<and> task_status t = TaskRunning) (tasks d) \<noteq> 0"
  proof (rule kept_insert_phase [OF d3])
    obtain t where "t \<in> set (tasks d)" "task_id t = task" using running affected_pos [of _ "tasks d"] by auto
    then have "\<exists>t \<in> set (tasks ?d3). task_id t = task" by (force simp: bex_modify)
    then show "phase_task ?row \<le> task_seq ?d3" if "board_ok ?d3"
      using that by (auto simp: board_ok_def task_ids_ok_def running_phase_def)
    have "phases ?d3 = phases ?d2" using untouched_modify [OF z] by simp
    then show "\<forall>p \<in> set (phases ?d3). phase_task p = phase_task ?row \<longrightarrow> phase_key p \<noteq> phase_key ?row"
      using z by (simp only:) (auto simp: affected_0 running_phase_def)
  qed (simp add: running_phase_def)
  show ?thesis using d1 d3 new by (simp add: update_phase_tx_def Let_def)
qed

lemma kept_update_phase: "kept d (snd (update_phase now task phase d))"
  by (auto simp: update_phase_def split: sum.split intro: kept_transaction kept_update_phase_tx)

lemma kept_start_phase: "kept d (snd (start_phase now task key title d))"
proof -
  have "kept d (snd (start_phase_tx now task key title d))" for key title
  proof -
    let ?row = "running_phase now task (next_no phase_no (phases_of d task)) key (Told title)"
    obtain i d1 where i: "insert_phase d ?row = (i, d1)" by (metis surj_pair)
    have "kept d (snd (insert_phase d ?row))"
      if "\<forall>p \<in> set (phases d). phase_task p = task \<longrightarrow> phase_key p \<noteq> key" "task_exists d task"
      using that
      by (intro kept_insert_phase) (auto simp: running_phase_def board_ok_def task_ids_ok_def task_exists_def)
    then show ?thesis using i by (auto simp: start_phase_tx_def intro!: kept_logs)
  qed
  then show ?thesis by (auto simp: start_phase_def split: sum.split intro: kept_transaction)
qed

lemma kept_finish_phase: "kept d (snd (finish_phase now task phase status summary d))"
  unfolding finish_phase_def
  by (auto split: sum.split intro!: kept_transaction)
     (auto simp: finish_phase_tx_def Let_def intro!: kept_rules)

lemma kept_start_step: "kept d (snd (start_step now task node key title command d))"
proof -
  have "kept d (snd (start_step_tx now task node key title command d))" for key title command
  proof -
    let ?row = "\<lparr> step_id = 0, step_task = task, step_phase = current_phase d task,
            step_node = node, step_no = next_no step_no (steps_of d task), step_key = key,
            step_title = Told title, step_command = command, step_status = StepRunning,
            step_exit_code = None, step_started = Some now, step_finished = None \<rparr>"
    obtain i d1 where i: "insert_step d ?row = (i, d1)" by (metis surj_pair)
    have "kept d (snd (insert_step d ?row))" by (rule kept_insert_step) simp_all
    then show ?thesis using i by (auto simp: start_step_tx_def intro!: kept_logs)
  qed
  then show ?thesis by (auto simp: start_step_def split: sum.split intro: kept_transaction)
qed

lemma kept_finish_step: "kept d (snd (finish_step_with_status now task step status code summary d))"
  unfolding finish_step_with_status_def
  by (auto split: sum.split intro!: kept_transaction)
     (auto simp: finish_step_tx_def Let_def intro!: kept_rules)

section \<open>Calls\<close>

datatype task_call =
    CreateTask create_task_input
  | MarkRunning time int ustr ustr
  | CancelQueued time int ustr
  | FinishCompose time int compose_output
  | FinishSuccess time int ustr ustr
  | FailTask time int ustr
  | UpdatePhase time int ustr
  | StartPhase time int ustr ustr
  | FinishPhase time int int ustr ustr
  | StartStep time int "int option" ustr ustr ustr
  | FinishStep time int int ustr "int option" ustr
  | AppendLog int ustr memo
  | AppendStepLog int int ustr memo

fun perform_task :: "task_call \<Rightarrow> db \<Rightarrow> db" where
  "perform_task (CreateTask inp) d = snd (create_task inp d)"
| "perform_task (MarkRunning now task command phase) d = snd (mark_running now task command phase d)"
| "perform_task (CancelQueued now task actor) d = snd (cancel_queued now task actor d)"
| "perform_task (FinishCompose now task out) d = snd (finish_with_compose_output now task out d)"
| "perform_task (FinishSuccess now task command summary) d = snd (finish_success now task command summary d)"
| "perform_task (FailTask now task message) d = snd (fail_task now task message d)"
| "perform_task (UpdatePhase now task phase) d = snd (update_phase now task phase d)"
| "perform_task (StartPhase now task key title) d = snd (start_phase now task key title d)"
| "perform_task (FinishPhase now task phase status summary) d = snd (finish_phase now task phase status summary d)"
| "perform_task (StartStep now task node key title command) d = snd (start_step now task node key title command d)"
| "perform_task (FinishStep now task step status code summary) d =
     snd (finish_step_with_status now task step status code summary d)"
| "perform_task (AppendLog task stream content) d = snd (task_append_log task stream content d)"
| "perform_task (AppendStepLog task step stream content) d = snd (append_step_log task step stream content d)"

lemma kept_perform_task: "kept d (perform_task call d)"
  by (cases call) (simp_all add: kept_create_task kept_mark_running kept_cancel_queued kept_finishing
      kept_update_phase kept_start_phase kept_finish_phase kept_start_step kept_finish_step kept_logs)

section \<open>The orchestrator keeps the board\<close>

lemma kept_runs: "kept d0 d \<Longrightarrow> kept d0 (update_runs p f d)"
  and kept_results: "kept d0 d \<Longrightarrow> kept d0 (update_results p' f' d)"
  and kept_envs: "kept d0 d \<Longrightarrow> kept d0 (update_envs p'' f'' d)"
  and kept_log: "kept d0 d \<Longrightarrow> kept d0 (append_log t s st c d)"
  by (rule kept_same; simp)+

lemma kept_upserts: "kept d0 d \<Longrightarrow> kept d0 (upsert_runtimes rows d)"
proof (induction rows arbitrary: d)
  case (Cons r rows)
  have "kept d0 (upsert_runtime r d)" by (rule kept_same [OF Cons.prems]) simp_all
  from Cons.IH [OF this] show ?case by simp
qed simp

lemmas orch_rules = kept_rules kept_runs kept_results kept_envs kept_log kept_upserts

lemma kept_insert_run:
  assumes "kept d0 d" and "insert_run d row = Some (i, d')"
  shows "kept d0 d'"
  by (rule kept_same [OF assms(1)]) (use assms(2) in \<open>auto simp: insert_run_Some\<close>)

lemma stage_phase_key_inject: "stage_phase_key i = stage_phase_key j \<longleftrightarrow> i = j"
  by (simp add: stage_phase_key_def dec_inject)

lemma kept_stage_phases:
  assumes "kept d0 d" and "distinct stages" and "task \<le> task_seq d"
    and "no = next_no phase_no (phases_of d task)"
    and "\<forall>p \<in> set (phases d). phase_task p = task \<longrightarrow> (\<forall>s \<in> set stages. phase_key p \<noteq> stage_phase_key s)"
    and "board_ok d"
  shows "kept d0 (insert_stage_phases task no stages d)"
  using assms
proof (induction stages arbitrary: no d)
  case (Cons stage stages)
  let ?row = "\<lparr> phase_id = 0, phase_task = task, phase_no = no,
         phase_key = stage_phase_key stage, phase_title = StageTitle stage,
         phase_status = StepPending, phase_summary = Told [], phase_started = None,
         phase_finished = None \<rparr>"
  let ?d = "snd (insert_phase d ?row)"
  have one: "kept d ?d"
    by (rule kept_insert_phase [OF kept_refl]) (use Cons.prems in simp_all)
  have all: "kept d0 ?d" by (rule kept_trans [OF Cons.prems(1) one])
  have ok: "board_ok ?d" using one Cons.prems(6) by (simp add: kept_def)
  have len: "map phase_no (phases_of x task) = map int [1..<Suc (length (phases_of x task))]" if "board_ok x" for x
    using that by (simp add: board_ok_def numbers_ok_def numbered_def phases_of_def Let_def)
  have "no + 1 = next_no phase_no (phases_of ?d task)"
    using next_no_numbered [OF len [OF ok]] next_no_numbered [OF len [OF Cons.prems(6)]] Cons.prems(4)
    by (simp add: insert_phase_def phases_of_def)
  then have "kept d0 (insert_stage_phases task (no + 1) stages ?d)"
    using Cons.prems all ok by (intro Cons.IH) (auto simp: insert_phase_def stage_phase_key_inject)
  then show ?case by simp
qed simp

lemma kept_create_run: "kept d (snd (create_run env inp d))"
proof -
  have "kept d d'" if "create_run_tx env inp d = (Inr x, d')" for x d'
  proof -
    from that obtain plan task d1 json rid d2 where
      t: "insert_task d (new_deploy_task inp plan) = Some (task, d1)"
      and r: "insert_run d1 (new_run inp plan task json) = Some (rid, d2)"
      and d': "d' = (let d3 = insert_stage_phases task 1 (sort_dedup (map item_stage_no (plan_items plan))) d2
          in d3\<lparr>results := results d3 @ map (new_result rid) (plan_items plan)\<rparr>)"
      by (auto simp: create_run_tx_def Let_def split: option.splits sum.splits if_splits)
    have k: "kept d d2" by (rule kept_insert_run [OF kept_insert_task [OF kept_refl t] r])
    show ?thesis
    proof (cases "board_ok d")
      case True
      then have none: "phases_of d2 task = []"
        using t r by (fastforce simp: board_ok_def phases_of_def insert_task_Some insert_run_Some filter_empty_conv)
      have "kept d (insert_stage_phases task 1 (sort_dedup (map item_stage_no (plan_items plan))) d2)"
      proof (rule kept_stage_phases [OF k])
        show "board_ok d2" using k True by (simp add: kept_def)
        show "task \<le> task_seq d2" using t r by (simp add: insert_task_Some insert_run_Some)
      qed (use none in \<open>auto simp: next_no_def phases_of_def filter_empty_conv\<close>)
      then show ?thesis unfolding d' Let_def by (rule kept_same) simp_all
    next
      case False
      have "tasks (insert_stage_phases i no ss e) = tasks e \<and> task_seq (insert_stage_phases i no ss e) = task_seq e" for i no ss e
        by (induction i no ss e rule: insert_stage_phases.induct) (simp_all add: insert_phase_def)
      then have "tasks d' = tasks d2" "task_seq d' = task_seq d2" by (simp_all add: d' Let_def)
      then show ?thesis using k False by (simp add: kept_def tasks_forward_def)
    qed
  qed
  then show ?thesis
    by (cases "create_run_tx env inp d") (auto simp: create_run_def transaction_def split: sum.split)
qed

lemma kept_claim: "kept d (snd (claim_deployment_run now rid d))"
  unfolding claim_deployment_run_def
  by (rule kept_transaction)
    (auto simp: claim_tx_def Let_def task_forward_def split: list.split prod.split intro!: orch_rules)

lemma kept_cancel: "kept d (snd (request_cancellation now rid actor d))"
proof -
  have "kept d (snd (request_cancellation_tx now rid actor d))" for actor
    by (auto simp: request_cancellation_tx_def cancel_queued_run_def close_pending_def skip_open_phases_def
        Let_def task_forward_def split: option.split intro!: orch_rules)
  then show ?thesis by (simp add: request_cancellation_def Let_def kept_transaction)
qed

lemma kept_start_unit: "kept d (snd (start_unit_result now rid task item d))"
  unfolding start_unit_result_def
  by (rule kept_transaction)
    (auto simp: start_unit_tx_def Let_def steps_of_def case_prod_beta intro!: orch_rules kept_insert_step)

lemma kept_persist: "kept d (persist_unit_outcome now rid task sid environment nodes item oc d)"
  by (auto simp: persist_unit_outcome_def Let_def split: unit_outcome.split prod.split intro!: orch_rules)

lemma final_task_status_done: "final_task_status s c \<noteq> TaskQueued"
  by (simp add: final_task_status_def)

lemma kept_finalize: "kept d (snd (finalize_deployment_run now rid plan canceled d))"
  by (auto simp: finalize_deployment_run_def Let_def task_forward_def final_task_status_done
      split: option.split prod.split intro!: orch_rules)

lemma kept_foldl: "(\<And>d i. kept d (f d i)) \<Longrightarrow> kept d (foldl f d is)"
  by (induction "is" arbitrary: d) (auto intro: kept_trans)

lemma kept_reconcile: "kept d (snd (reconcile_interrupted_runs now d))"
proof -
  have "kept e (cancel_run_after_restart now e i)" for e i
    by (auto simp: cancel_run_after_restart_def close_pending_def Let_def task_forward_def intro!: orch_rules)
  moreover have "kept e (interrupt_run_after_restart now e i)" for e i
    by (auto simp: interrupt_run_after_restart_def close_open_units_def fail_running_steps_def
        close_open_phases_def Let_def task_forward_def intro!: orch_rules)
  ultimately show ?thesis
    by (simp add: reconcile_interrupted_runs_def Let_def)
      (rule kept_trans; rule kept_foldl; assumption)
qed

lemma kept_confirm: "kept d (snd (confirm_interrupted_run_stopped now rid actor why d))"
proof -
  have "kept d (snd (confirm_tx now rid actor why d))" for actor why
    by (auto simp: confirm_tx_def Let_def task_forward_def split: option.split prod.split intro!: orch_rules)
  then show ?thesis by (simp add: confirm_interrupted_run_stopped_def Let_def kept_transaction)
qed

lemma kept_fail: "kept d (snd (fail_run_on_internal_error now rid message d))"
  unfolding fail_run_on_internal_error_def
  by (rule kept_transaction)
    (auto simp: fail_run_tx_def close_open_units_def fail_running_steps_def close_open_phases_def
      Let_def task_forward_def split: option.split prod.split intro!: orch_rules)

lemma kept_perform: "kept d (perform env call d)"
  by (cases call) (simp_all add: kept_create_run kept_claim kept_cancel kept_start_unit kept_persist
      kept_finalize kept_reconcile kept_confirm kept_fail close_pending_def kept_results)

end
