(* ===== verification/Task_Properties.thy ===== *)
theory Task_Properties
  imports Task_Board
begin

text \<open>
  The two services on one database, and the properties of tasks. The locale \<open>task_queue\<close> is
  what a worker that takes tasks from the queue relies on.
\<close>

section \<open>Both services on one database\<close>

datatype service_call = Orchestrator orch_call | TaskService task_call

fun serve :: "plan_env \<Rightarrow> service_call \<Rightarrow> db \<Rightarrow> db" where
  "serve env (Orchestrator call) d = perform env call d"
| "serve env (TaskService call) d = perform_task call d"

lemma kept_serve: "kept d (serve env call d)"
  by (cases call) (simp_all add: kept_perform kept_perform_task)

text \<open>What workers rely on when they start tasks from a queue that others change as well.\<close>

locale task_queue =
  fixes step :: "'c \<Rightarrow> 's \<Rightarrow> 's" and ok :: "'s \<Rightarrow> bool" and left :: "'s \<Rightarrow> int \<Rightarrow> bool"
    and start :: "'w \<Rightarrow> int \<Rightarrow> ('s, 'e, bool) operation"
  assumes ok_step: "ok s \<Longrightarrow> ok (step c s)"
    and left_step: "left s i \<Longrightarrow> left (step c s) i"
    and start_leaves: "ok s \<Longrightarrow> start w i s = (Inr True, s') \<Longrightarrow> left s' i"
    and start_needs: "left s i \<Longrightarrow> start w i s \<noteq> (Inr True, s')"
begin

lemma ok_fold: "ok s \<Longrightarrow> ok (fold step cs s)"
  by (induction cs arbitrary: s) (simp_all add: ok_step)

lemma left_fold: "left s i \<Longrightarrow> left (fold step cs s) i"
  by (induction cs arbitrary: s) (simp_all add: left_step)

lemma started_once:
  "ok s \<Longrightarrow> start w i s = (Inr True, s1) \<Longrightarrow> start w' i (fold step cs s1) \<noteq> (Inr True, s2)"
  by (intro start_needs left_fold) (rule start_leaves)

end

definition work :: "time \<times> ustr \<times> ustr \<Rightarrow> int \<Rightarrow> bool task_op" where
  "work w task = (case w of (now, command, phase) \<Rightarrow> mark_running now task command phase)"

lemma mark_running_True:
  assumes "mark_running now i command phase d = (Inr True, d')"
  shows "\<exists>t \<in> set (tasks d). task_id t = i \<and> task_status t = TaskQueued"
    and "\<exists>f. tasks d' = modify (\<lambda>t. task_id t = i \<and> task_status t = TaskQueued) f (tasks d) \<and>
       (\<forall>t. task_id (f t) = task_id t \<and> task_status (f t) = TaskRunning)"
    and "task_seq d' = task_seq d"
proof -
  let ?p = "\<lambda>t. task_id t = i \<and> task_status t = TaskQueued"
  have a: "affected ?p (tasks d) \<noteq> 0"
    using assms by (auto simp: mark_running_def Let_def split: sum.splits if_splits)
  then show "\<exists>t \<in> set (tasks d). ?p t" using affected_pos [of ?p "tasks d"] by simp
  obtain ph where n: "normalize_task_phase phase = Inr ph"
    using assms by (auto simp: mark_running_def split: sum.splits)
  let ?f = "\<lambda>t. t\<lparr>task_status := TaskRunning, task_phase := ph, task_command := command, task_started := Some now\<rparr>"
  have "snd (mark_running now i command phase d) =
      snd (task_append_log i (lit ''system'') (StartedCommand command) (update_tasks ?p ?f d))"
    using n a by (simp add: mark_running_def Let_def)
  then have d': "d' = snd (task_append_log i (lit ''system'') (StartedCommand command) (update_tasks ?p ?f d))"
    using assms by simp
  show "\<exists>f. tasks d' = modify ?p f (tasks d) \<and> (\<forall>t. task_id (f t) = task_id t \<and> task_status (f t) = TaskRunning)"
    unfolding d' by (rule exI [of _ ?f]) simp
  show "task_seq d' = task_seq d" unfolding d' by simp
qed

interpretation board: task_queue "serve env" board_ok left_queue work
proof
  fix d call i
  show "board_ok d \<Longrightarrow> board_ok (serve env call d)" using kept_serve by (simp add: kept_def)
  show "left_queue d i \<Longrightarrow> left_queue (serve env call d) i"
    using left_queue_forward kept_serve [of d env call] by (auto simp: kept_def)
next
  fix d w i d'
  assume ok: "board_ok d" and w: "work w i d = (Inr True, d')"
  obtain now command phase where "mark_running now i command phase d = (Inr True, d')"
    using w by (auto simp: work_def split: prod.splits)
  note m = mark_running_True [OF this]
  obtain f where f: "tasks d' = modify (\<lambda>t. task_id t = i \<and> task_status t = TaskQueued) f (tasks d)"
    "\<And>t. task_id (f t) = task_id t" "\<And>t. task_status (f t) = TaskRunning" using m(2) by blast
  have "i \<le> task_seq d" using m(1) ok by (auto simp: board_ok_def task_ids_ok_def)
  then show "left_queue d' i" using m(3) f by (auto simp: left_queue_def ball_modify)
next
  fix d i w d'
  assume "left_queue d i"
  then show "work w i d \<noteq> (Inr True, d')"
    using mark_running_True(1) by (fastforce simp: work_def left_queue_def split: prod.splits)
qed

lemma modified_row:
  assumes "x \<in> set xs" and "p x" and "\<And>y. p y \<Longrightarrow> q (f y)"
  shows "\<exists>y \<in> set (modify p f xs). q y"
  using assms by (force simp: set_modify)

section \<open>Properties of tasks\<close>

text \<open>
  C18. A task is started at most once: after a worker's \<open>mark_running\<close> has succeeded, no
  later one succeeds for the same task, whatever the task service and the orchestrator do
  in between.
\<close>

theorem task_starts_at_most_once:
  assumes "board_ok d" and "mark_running now i command phase d = (Inr True, d1)"
  shows "mark_running now' i command' phase' (fold (serve env) calls d1) \<noteq> (Inr True, d2)"
  using board.started_once [of d "(now, command, phase)" i d1 "(now', command', phase')" env calls d2] assms
  by (simp add: work_def)

text \<open>
  C19. Whatever calls the two services make, the phases of every task stay numbered from 1
  without gaps, in the order they were added and with distinct keys, and so do its steps.
\<close>

theorem phases_and_steps_stay_numbered:
  assumes "board_ok d" and "d' = fold (serve env) calls d"
  shows "map phase_no (phases_of d' i) = map int [1..<Suc (length (phases_of d' i))] \<and>
     map step_no (steps_of d' i) = map int [1..<Suc (length (steps_of d' i))] \<and>
     distinct (map phase_key (phases_of d' i))"
proof -
  have ok: "numbers_ok d'" using board.ok_fold [OF assms(1)] assms(2) by (simp add: board_ok_def)
  then have "inj_on (\<lambda>p. (phase_task p, phase_key p)) (set (phases d'))" "distinct (phases d')"
    by (simp_all add: numbers_ok_def keys_ok_def distinct_map)
  then have "distinct (map phase_key (phases_of d' i))"
    by (auto simp: distinct_map phases_of_def inj_on_def)
  then show ?thesis using ok by (simp add: numbers_ok_def numbered_def Let_def phases_of_def steps_of_def)
qed

text \<open>
  Moving a running task to a phase makes that phase, and no other one of the task, the
  running one.
\<close>

theorem update_phase_leaves_one_running:
  assumes "update_phase now i phase d = (Inr (), d')"
    and "\<exists>t \<in> set (tasks d). task_id t = i \<and> task_status t = TaskRunning"
  shows "(\<forall>p \<in> set (phases_of d' i). phase_status p = StepRunning \<longleftrightarrow> phase_key p = phase) \<and>
     (\<exists>p \<in> set (phases_of d' i). phase_key p = phase)"
proof -
  let ?q = "\<lambda>t. task_id t = i \<and> task_status t = TaskRunning"
  let ?d1 = "update_tasks ?q (\<lambda>t. t\<lparr>task_phase := phase\<rparr>) d"
  let ?d2 = "update_phases (\<lambda>p. phase_task p = i \<and> phase_key p \<noteq> phase \<and> phase_status p = StepRunning)
      (\<lambda>p. p\<lparr>phase_status := StepSuccess, phase_finished := coalesce (phase_finished p) now\<rparr>) ?d1"
  let ?r = "\<lambda>p. phase_task p = i \<and> phase_key p = phase"
  let ?d3 = "update_phases ?r (\<lambda>p. p\<lparr>phase_title := PhaseTitle phase, phase_status := StepRunning,
      phase_started := coalesce (phase_started p) now, phase_finished := None\<rparr>) ?d2"
  let ?row = "running_phase now i (next_no phase_no (phases_of ?d3 i)) phase (PhaseTitle phase)"
  have "affected ?q (tasks d) \<noteq> 0" using assms(2) affected_pos [of ?q "tasks d"] by simp
  moreover have "d' = snd (update_phase_tx now i phase d)"
    using assms(1) by (auto simp: update_phase_def normalize_task_phase_def transaction_Inr split: if_splits)
  ultimately have d': "d' = (if affected ?r (phases ?d2) = 0 then snd (insert_phase ?d3 ?row) else ?d3)"
    by (simp add: update_phase_tx_def Let_def)
  have all: "\<forall>p \<in> set (phases ?d3). phase_task p = i \<longrightarrow> (phase_status p = StepRunning \<longleftrightarrow> phase_key p = phase)"
    by (simp add: ball_modify)
  show ?thesis
  proof (cases "affected ?r (phases ?d2) = 0")
    case True
    then have "phases d' = phases ?d3 @ [?row\<lparr>phase_id := phase_seq ?d3 + 1\<rparr>]"
      using d' by (simp add: insert_phase_def)
    with all show ?thesis by (auto simp: phases_of_def running_phase_def)
  next
    case False
    then obtain p where p: "p \<in> set (phases ?d2)" "?r p" using affected_pos [of ?r "phases ?d2"] by auto
    have "\<exists>p \<in> set (phases ?d3). ?r p"
      unfolding update_sel by (rule modified_row [where p = ?r and x = p]) (use p in simp_all)
    with all False show ?thesis unfolding d' by (auto simp: phases_of_def)
  qed
qed

text \<open>
  C20. A task that was canceled while it waited is never run: the worker that picks it up is
  told so, and changes nothing.
\<close>

theorem canceled_task_is_not_run:
  assumes "distinct (map task_id (tasks d))" and "cancel_queued now i actor d = (Inr (), d1)"
    and "phase \<in> set task_phases_allowed"
  shows "mark_running now' i command phase d1 = (Inr False, d1)"
proof -
  let ?p = "\<lambda>t. task_id t = i \<and> task_status t = TaskQueued \<and>
      \<not> (\<exists>r \<in> set (runs d). run_task r = Some (task_id t) \<and> active_run (run_status r))"
  let ?f = "\<lambda>t. t\<lparr>task_status := TaskCanceled, task_phase := lit ''canceled'',
             task_summary := QueuedTaskCanceled actor, task_finished := Some now\<rparr>"
  have a: "affected ?p (tasks d) \<noteq> 0"
    using assms(2) by (auto simp: cancel_queued_def Let_def split: if_splits sum.splits)
  have "snd (cancel_queued now i actor d) = snd (task_append_log i (lit ''system'') (QueuedTaskCanceled actor)
      (update_tasks ?p ?f d))"
    using a by (simp add: cancel_queued_def Let_def)
  then have ts: "tasks d1 = modify ?p ?f (tasks d)" using assms(2) by simp
  obtain t where t: "t \<in> set (tasks d)" "?p t" using a affected_pos [of ?p "tasks d"] by auto
  have only: "u = t" if "u \<in> set (tasks d)" "task_id u = i" for u
    using distinct_map_inj [OF assms(1) that(1) t(1)] that(2) t(2) by simp
  have "find (\<lambda>t. task_id t = i) (tasks d) = Some t"
  proof (rule find_unique [OF t(1)])
    show "task_id t = i" using t(2) by simp
  qed (rule only)
  then have "raw_status d1 i = Inr TaskCanceled"
    using t by (simp add: raw_status_def ts find_modify)
  moreover have "affected (\<lambda>t. task_id t = i \<and> task_status t = TaskQueued) (tasks d1) = 0"
    unfolding affected_0 ts ball_modify using only t(2) by auto
  ultimately show ?thesis using assms(3) by (simp add: mark_running_def normalize_task_phase_def)
qed

text \<open>
  Positions in the queue follow the order of the task ids: of two waiting tasks that a
  worker can take, the one created later always has more waiting tasks before it, and both
  see the same running ones.
\<close>

theorem queue_positions_follow_ids:
  assumes "distinct (map task_id (tasks d))" and "a \<in> set (tasks d)" and "b \<in> set (tasks d)"
    and "queue_task a" and "task_status a = TaskQueued" and "task_status b = TaskQueued"
    and "task_id a < task_id b"
    and "task_queue_position d (task_id a) = Inr (qa, ra)" and "task_queue_position d (task_id b) = Inr (qb, rb)"
  shows "qa < qb \<and> ra = rb"
proof -
  let ?before = "\<lambda>i t. queue_task t \<and> task_status t = TaskQueued \<and> task_id t < i"
  let ?running = "\<lambda>t. queue_task t \<and> task_status t = TaskRunning"
  have pos: "task_queue_position d (task_id x) =
      Inr (affected (?before (task_id x)) (tasks d), affected ?running (tasks d))"
    if x: "x \<in> set (tasks d)" "task_status x = TaskQueued" for x
  proof -
    have f: "find (\<lambda>t. task_id t = task_id x) (tasks d) = Some x" by (rule find_key [OF assms(1) x(1) refl])
    have "affected p (filter (\<lambda>t. queue_task t \<and> task_id t \<noteq> task_id x) ts) =
        affected (\<lambda>t. queue_task t \<and> task_id t \<noteq> task_id x \<and> p t) ts" for p and ts :: "task_row list"
      by (induction ts) auto
    moreover have "affected (\<lambda>t. queue_task t \<and> task_id t \<noteq> task_id x \<and> task_status t = TaskRunning) (tasks d) =
        affected ?running (tasks d)"
      by (rule affected_cong) (use x distinct_map_inj [OF assms(1) x(1)] in force)
    moreover have "affected (\<lambda>t. queue_task t \<and> task_id t \<noteq> task_id x \<and> task_status t = TaskQueued \<and> task_id t < task_id x)
        (tasks d) = affected (?before (task_id x)) (tasks d)"
      by (rule affected_cong) auto
    ultimately show ?thesis by (simp add: task_queue_position_def f)
  qed
  have "affected (?before (task_id a)) ts < affected (?before (task_id b)) ts"
    if mem: "a \<in> set ts" for ts
  proof -
    obtain us vs where ts: "ts = us @ a # vs" using split_list [OF mem] by blast
    have "affected (?before (task_id a)) xs \<le> affected (?before (task_id b)) xs" for xs
      using assms(7) by (induction xs) auto
    from add_le_mono [OF this this, of us vs] show ?thesis using assms(4,5,7) by (simp add: ts)
  qed
  from this [OF assms(2)] show ?thesis using assms pos [of a] pos [of b] by simp
qed

lemma sorted_wrt_take_drop:
  "sorted_wrt R xs \<Longrightarrow> a \<in> set (take n xs) \<Longrightarrow> b \<in> set (drop n xs) \<Longrightarrow> R a b"
  by (metis append_take_drop_id sorted_wrt_append)

text \<open>
  The task list is complete: a task that passes the filter is on the page, or the page is
  full of tasks that are at least as new. Everything on the page passes the filter.
\<close>

theorem task_page_is_complete:
  assumes "normalize_task_filter f = Inr g" and "list_tasks_filtered v d f = Inr page"
    and "t \<in> set (tasks d)" and "task_filter_matches v g True t"
  shows "(t \<in> fst ` set page \<or> length page = 100 \<and> (\<forall>u \<in> fst ` set page. task_id t \<le> task_id u)) \<and>
     (\<forall>u \<in> fst ` set page. u \<in> set (tasks d) \<and> task_filter_matches v g True u)"
proof -
  let ?xs = "rev (sort_key task_id (filter (task_filter_matches v g True) (tasks d)))"
  have page: "page = map (\<lambda>t. (t, task_app_name v t)) (take 100 ?xs)"
    using assms(1,2) by (simp add: list_tasks_filtered_def)
  then have on: "fst ` set page = set (take 100 ?xs)" by (simp add: image_image)
  have "sorted_wrt (\<lambda>a b. task_id a \<ge> task_id b) ?xs"
    using sorted_sort_key [of task_id "filter (task_filter_matches v g True) (tasks d)"]
    by (simp add: sorted_wrt_rev sorted_map)
  then have older: "task_id b \<le> task_id a" if "a \<in> set (take 100 ?xs)" "b \<in> set (drop 100 ?xs)" for a b
    using sorted_wrt_take_drop [OF _ that] by blast
  have "t \<in> set ?xs" using assms(3,4) by simp
  then have "t \<in> set (take 100 ?xs) \<or> t \<in> set (drop 100 ?xs)"
    by (metis Un_iff append_take_drop_id set_append)
  moreover have "length page = 100" if "t \<in> set (drop 100 ?xs)"
  proof -
    have "drop 100 ?xs \<noteq> []" using that by (metis empty_iff empty_set)
    then show ?thesis by (simp add: page)
  qed
  moreover have "u \<in> set (tasks d) \<and> task_filter_matches v g True u" if "u \<in> set (take 100 ?xs)" for u
    using set_take_subset [of 100 ?xs] that by auto
  ultimately show ?thesis using older unfolding on by blast
qed

text \<open>
  A phase is never added twice to a task: the second attempt fails and changes nothing.
  The error it gets is that of another active deployment of the application, whether there is
  one or not.
\<close>

theorem second_phase_is_refused:
  assumes "normalize_step_key key = Inr k" and "trim title \<noteq> []"
    and "\<exists>p \<in> set (phases_of d i). phase_key p = k"
  shows "start_phase now i key title d = (Inl (InvalidState ActiveTaskExists), d)"
  using assms
  by (auto simp: start_phase_def required_step_text_def start_phase_tx_def transaction_Inl phases_of_def)

text \<open>
  C21. Of the jobs that finish, exactly those that deploy no release get a row in the
  deployment history: the action recorded for a release is not one the table accepts.
\<close>

theorem only_jobs_without_release_are_recorded:
  assumes "h_action row = job_deploy_action release action" and "h_status row \<in> set history_statuses"
  shows "record_deployment_run row rows =
     (if release = None then (Inr (), rows @ [row]) else (Inl (Internal CheckFailed), rows))"
  using assms
  by (cases action) (auto simp: record_deployment_run_def job_deploy_action_def history_actions_def)

section \<open>Samples\<close>

definition sample_wait_task :: "int \<Rightarrow> task_row" where
  "sample_wait_task i = \<lparr> task_id = i, task_kind = lit ''compose.up'', task_title = Told [],
     task_app = Some i, task_release = None, task_env = None, task_node = None,
     task_status = TaskQueued, task_phase = lit ''queued'', task_command = [],
     task_summary = Told [], task_exit_code = None, task_started = None, task_finished = None,
     task_created_by = [] \<rparr>"

definition sample_queue :: db where
  "sample_queue = sample_db\<lparr> tasks := [sample_wait_task 1, sample_wait_task 2], task_seq := 2 \<rparr>"

lemma sample_wait_task_sel [simp]:
  "task_id (sample_wait_task i) = i" "task_status (sample_wait_task i) = TaskQueued"
  "task_kind (sample_wait_task i) = lit ''compose.up''"
  by (simp_all add: sample_wait_task_def)

lemma sample_queue_sel [simp]:
  "tasks sample_queue = [sample_wait_task 1, sample_wait_task 2]" "task_seq sample_queue = 2"
  "phases sample_queue = []" "steps sample_queue = []" "runs sample_queue = []" "logs sample_queue = []"
  by (simp_all add: sample_queue_def sample_db_def)

lemma sample_queue_ok: "board_ok sample_queue"
  by (simp add: board_ok_def task_ids_ok_def numbers_ok_def numbered_def keys_ok_def)

lemma sample_started: "\<exists>d1. mark_running 5 1 [] (lit ''executing'') sample_queue = (Inr True, d1)"
  by (simp add: mark_running_def normalize_task_phase_def task_phases_allowed_def task_append_log_def
      normalize_log_stream_def insert_log_def task_exists_def)

theorem task_starts_at_most_once_witness:
  "\<exists>d1. mark_running 5 1 [] (lit ''executing'') sample_queue = (Inr True, d1) \<and>
     fst (mark_running 9 1 [] (lit ''executing'')
       (fold (serve sample_env) [TaskService (FailTask 6 1 [])] d1)) \<noteq> Inr True"
proof -
  obtain d1 where d1: "mark_running 5 1 [] (lit ''executing'') sample_queue = (Inr True, d1)"
    using sample_started by blast
  let ?m = "mark_running 9 1 [] (lit ''executing'') (fold (serve sample_env) [TaskService (FailTask 6 1 [])] d1)"
  have "?m \<noteq> (Inr True, snd ?m)" by (rule task_starts_at_most_once [OF sample_queue_ok d1])
  then show ?thesis using d1 by (metis prod.collapse)
qed

theorem phases_and_steps_stay_numbered_witness:
  "map phase_no (phases_of (fold (serve sample_env) [TaskService (StartPhase 5 1 (lit ''a'') (lit ''A'')),
     TaskService (StartPhase 6 1 (lit ''b'') (lit ''B''))] sample_queue) 1) = [1, 2]"
proof -
  let ?d = "fold (serve sample_env) [TaskService (StartPhase 5 1 (lit ''a'') (lit ''A'')),
     TaskService (StartPhase 6 1 (lit ''b'') (lit ''B''))] sample_queue"
  have "length (phases_of ?d 1) = 2"
    by (simp add: start_phase_def normalize_step_key_def required_step_text_def trim_def trim_start_def is_white_def
        lit_def step_key_char_def is_alphanumeric_def start_phase_tx_def transaction_def insert_phase_def
        running_phase_def phases_of_def next_no_def insert_log_def task_exists_def Let_def)
  then show ?thesis
    using phases_and_steps_stay_numbered [OF sample_queue_ok refl, of sample_env
      "[TaskService (StartPhase 5 1 (lit ''a'') (lit ''A'')), TaskService (StartPhase 6 1 (lit ''b'') (lit ''B''))]" 1]
    by (simp add: upt_rec)
qed

definition sample_working :: db where
  "sample_working = sample_queue\<lparr>tasks := [(sample_wait_task 1)\<lparr>task_status := TaskRunning\<rparr>]\<rparr>"

theorem update_phase_leaves_one_running_witness:
  "\<exists>d'. update_phase 5 1 (lit ''deploy'') sample_working = (Inr (), d') \<and>
     (\<exists>p \<in> set (phases_of d' 1). phase_status p = StepRunning)"
proof -
  have "\<exists>d'. update_phase 5 1 (lit ''deploy'') sample_working = (Inr (), d')"
    by (simp add: update_phase_def normalize_task_phase_def task_phases_allowed_def transaction_def
        update_phase_tx_def Let_def)
  then obtain d' where d': "update_phase 5 1 (lit ''deploy'') sample_working = (Inr (), d')" by blast
  have "\<exists>t \<in> set (tasks sample_working). task_id t = 1 \<and> task_status t = TaskRunning"
    by (simp add: sample_working_def)
  from update_phase_leaves_one_running [OF d' this] d' show ?thesis by blast
qed

theorem canceled_task_is_not_run_witness:
  "\<exists>d1. cancel_queued 5 1 [] sample_queue = (Inr (), d1) \<and>
     mark_running 6 1 [] (lit ''executing'') d1 = (Inr False, d1)"
proof -
  have "\<exists>d1. cancel_queued 5 1 [] sample_queue = (Inr (), d1)"
    by (simp add: cancel_queued_def task_append_log_def normalize_log_stream_def insert_log_def task_exists_def)
  then obtain d1 where d1: "cancel_queued 5 1 [] sample_queue = (Inr (), d1)" by blast
  from canceled_task_is_not_run [OF _ d1, of "lit ''executing''" 6 "[]"] d1 show ?thesis
    by (auto simp: task_phases_allowed_def)
qed

theorem queue_positions_follow_ids_witness:
  "task_queue_position sample_queue 1 = Inr (0, 0) \<and> task_queue_position sample_queue 2 = Inr (1, 0) \<and> (0::nat) < 1"
proof -
  have p: "task_queue_position sample_queue 1 = Inr (0, 0)" "task_queue_position sample_queue 2 = Inr (1, 0)"
    by (simp_all add: task_queue_position_def queue_task_def active_task_def queue_kinds_def)
  from queue_positions_follow_ids [of sample_queue "sample_wait_task 1" "sample_wait_task 2" 0 0 1 0] p
  show ?thesis by (simp add: queue_task_def active_task_def queue_kinds_def)
qed

definition sample_view :: task_view where
  "sample_view = \<lparr> view_app = (\<lambda>_. None), view_node = (\<lambda>_. None), view_text = (\<lambda>_. []) \<rparr>"

theorem task_page_is_complete_witness:
  "\<exists>page. list_tasks sample_view sample_queue = Inr page \<and> sample_wait_task 1 \<in> fst ` set page"
proof -
  have n: "normalize_task_filter no_filter = Inr no_filter"
    by (simp add: normalize_task_filter_def no_filter_def normalize_optional_filter_def)
  have m: "task_filter_matches sample_view no_filter True t" for t
    by (simp add: task_filter_matches_def no_filter_def opt_eq_def)
  obtain page where p: "list_tasks_filtered sample_view sample_queue no_filter = Inr page"
    and len: "length page = 2"
    by (simp add: list_tasks_filtered_def n m)
  from task_page_is_complete [OF n p _ m, of "sample_wait_task 1"] p len show ?thesis
    by (auto simp: list_tasks_def)
qed

theorem second_phase_is_refused_witness:
  "start_phase 9 1 (lit ''a'') (lit ''A'') (sample_queue\<lparr>phases := [running_phase 5 1 1 (lit ''a'') (Told [])]\<rparr>) =
     (Inl (InvalidState ActiveTaskExists), sample_queue\<lparr>phases := [running_phase 5 1 1 (lit ''a'') (Told [])]\<rparr>)"
  by (rule second_phase_is_refused [of _ "lit ''a''"])
     (simp_all add: normalize_step_key_def trim_def trim_start_def is_white_def lit_def step_key_char_def
       is_alphanumeric_def phases_of_def running_phase_def)

definition sample_history_row :: history_row where
  "sample_history_row = \<lparr> h_app = 1, h_task = 1, h_release = Some 4, h_action = lit ''release_deploy'',
     h_status = lit ''success'', h_message = [], h_snapshot = None, h_revision = 100, h_version = lit ''1.0'',
     h_finished = 5 \<rparr>"

theorem only_jobs_without_release_are_recorded_witness:
  "record_deployment_run sample_history_row [] = (Inl (Internal CheckFailed), [])"
  using only_jobs_without_release_are_recorded [of sample_history_row "Some 4" ComposeUp "[]"]
  by (simp add: sample_history_row_def job_deploy_action_def history_statuses_def)

end
