(* ===== verification/Permissions.thy ===== *)
theory Permissions
  imports Prelude
begin

text \<open>
  The permission registry \<open>src/api/src/auth/permissions.rs\<close> with the dependencies of its keys,
  the pages they guard, and the keys of the built-in roles from \<open>auth/service.rs\<close>.
\<close>

section \<open>Permissions\<close>

datatype permission_resource = Page | Action

text \<open>The registry: key, kind and resource key; names and descriptions are display texts.\<close>

record permission_def =
  pd_key :: ustr
  pd_resource :: permission_resource
  pd_resource_key :: ustr

definition make_permission :: "string \<times> permission_resource \<times> string \<Rightarrow> permission_def" where
  "make_permission p = (case p of (key, resource, resource_key) \<Rightarrow>
     \<lparr> pd_key = lit key, pd_resource = resource, pd_resource_key = lit resource_key \<rparr>)"

definition permission_registry :: "(string \<times> permission_resource \<times> string) list" where
  "permission_registry =
    [(''dashboard.view'', Page, ''dashboard''),
     (''apps.view'', Page, ''apps''),
     (''apps.create'', Action, ''apps.create''),
     (''apps.update'', Action, ''apps.update''),
     (''apps.status'', Action, ''apps.status''),
     (''services.view'', Page, ''services''),
     (''services.deploy'', Action, ''services.deploy''),
     (''services.deploy.force'', Action, ''services.deploy.force''),
     (''services.deploy.cancel'', Action, ''services.deploy.cancel''),
     (''services.deploy.reconcile'', Action, ''services.deploy.reconcile''),
     (''deployments.cleanup'', Action, ''deployments.cleanup''),
     (''services.logs'', Action, ''services.logs''),
     (''services.rollback'', Action, ''services.rollback''),
     (''nodes.view'', Page, ''nodes''),
     (''nodes.manage'', Action, ''nodes.manage''),
     (''nodes.install'', Action, ''nodes.install''),
     (''node_credentials.view'', Page, ''node_credentials''),
     (''node_credentials.manage'', Action, ''node_credentials.manage''),
     (''tasks.view'', Page, ''tasks''),
     (''tasks.cancel'', Action, ''tasks.cancel''),
     (''tasks.retry'', Action, ''tasks.retry''),
     (''templates.view'', Page, ''templates''),
     (''artifacts.view'', Page, ''artifacts''),
     (''artifacts.upload'', Action, ''artifacts.upload''),
     (''rbac.accounts.view'', Page, ''rbac.accounts''),
     (''rbac.accounts.manage'', Action, ''rbac.accounts.manage''),
     (''rbac.roles.view'', Page, ''rbac.roles''),
     (''rbac.permissions.view'', Page, ''rbac.permissions''),
     (''rbac.roles.manage'', Action, ''rbac.roles.manage''),
     (''profile.view'', Page, ''profile''),
     (''profile.password.change'', Action, ''profile.password.change''),
     (''settings.view'', Page, ''settings''),
     (''settings.update'', Action, ''settings.update''),
     (''audit.view'', Page, ''audit''),
     (''rbac.sessions.view'', Page, ''rbac.sessions''),
     (''rbac.sessions.manage'', Action, ''rbac.sessions.manage''),
     (''api_tokens.view'', Page, ''api_tokens''),
     (''api_tokens.manage'', Action, ''api_tokens.manage'')]"

definition all_permissions :: "permission_def list" where
  "all_permissions = map make_permission permission_registry"

text \<open>The arms of the \<open>match\<close>, in order; a key of no arm depends on nothing.\<close>

definition dependency_arms :: "(string list \<times> string list) list" where
  "dependency_arms =
    [([''apps.create'', ''apps.update'', ''apps.status''], [''apps.view'']),
     ([''services.deploy'', ''services.deploy.force'', ''services.deploy.cancel'',
      ''services.deploy.reconcile'', ''services.rollback''],
      [''apps.view'', ''services.view'', ''tasks.view'']),
     ([''deployments.cleanup''], [''apps.view'', ''tasks.view'', ''artifacts.view'']),
     ([''services.logs''], [''services.view'']),
     ([''nodes.manage''], [''nodes.view'']),
     ([''nodes.install''], [''nodes.view'', ''tasks.view'']),
     ([''node_credentials.manage''], [''node_credentials.view'']),
     ([''tasks.cancel'', ''tasks.retry''], [''tasks.view'']),
     ([''artifacts.upload''], [''artifacts.view'']),
     ([''rbac.accounts.manage''], [''rbac.accounts.view'']),
     ([''rbac.roles.manage''], [''rbac.roles.view'', ''rbac.permissions.view'']),
     ([''rbac.sessions.manage''], [''rbac.sessions.view'']),
     ([''api_tokens.manage''], [''api_tokens.view'']),
     ([''profile.password.change''], [''profile.view'']),
     ([''settings.update''], [''settings.view''])]"

definition permission_dependencies :: "ustr \<Rightarrow> ustr list" where
  "permission_dependencies key =
    (case find (\<lambda>(keys, _). key \<in> set (map lit keys)) dependency_arms of
       None \<Rightarrow> [] | Some (_, deps) \<Rightarrow> map lit deps)"

definition nav_pages :: "(string \<times> string) list" where
  "nav_pages =
    [(''/'', ''dashboard.view''),
     (''/apps'', ''apps.view''),
     (''/services'', ''services.view''),
     (''/nodes'', ''nodes.view''),
     (''/node-credentials'', ''node_credentials.view''),
     (''/tasks'', ''tasks.view''),
     (''/templates'', ''templates.view''),
     (''/artifacts'', ''artifacts.view''),
     (''/admin/accounts'', ''rbac.accounts.view''),
     (''/admin/roles'', ''rbac.roles.view''),
     (''/admin/permissions'', ''rbac.permissions.view''),
     (''/admin/sessions'', ''rbac.sessions.view''),
     (''/admin/api-tokens'', ''api_tokens.view''),
     (''/deployment-access'', ''api_tokens.view''),
     (''/profile'', ''profile.view''),
     (''/settings'', ''settings.view''),
     (''/audit'', ''audit.view''),
     (''/events'', ''audit.view'')]"

definition nav_permission :: "ustr \<Rightarrow> ustr option" where
  "nav_permission path = map_option (\<lambda>(_, key). lit key)
     (find (\<lambda>(page, _). lit page = path) nav_pages)"

definition deployer_keys :: "string list" where
  "deployer_keys = [''dashboard.view'', ''apps.view'', ''services.view'', ''services.deploy'',
     ''services.deploy.force'', ''services.deploy.cancel'', ''deployments.cleanup'',
     ''services.logs'', ''services.rollback'', ''nodes.view'', ''node_credentials.view'',
     ''tasks.view'', ''tasks.cancel'', ''tasks.retry'', ''templates.view'', ''artifacts.view'',
     ''profile.view'', ''profile.password.change'']"

definition operator_keys :: "string list" where
  "operator_keys = [''dashboard.view'', ''apps.view'', ''apps.create'', ''apps.update'',
     ''apps.status'', ''services.view'', ''services.logs'', ''nodes.view'', ''nodes.manage'',
     ''nodes.install'', ''node_credentials.view'', ''node_credentials.manage'', ''tasks.view'',
     ''templates.view'', ''artifacts.view'', ''artifacts.upload'', ''settings.view'',
     ''profile.view'', ''profile.password.change'']"

definition viewer_keys :: "string list" where
  "viewer_keys = [''dashboard.view'', ''apps.view'', ''services.view'', ''nodes.view'',
     ''node_credentials.view'', ''tasks.view'', ''templates.view'', ''artifacts.view'',
     ''settings.view'', ''profile.view'', ''profile.password.change'']"

definition auditor_keys :: "string list" where
  "auditor_keys = [''dashboard.view'', ''apps.view'', ''services.view'', ''nodes.view'',
     ''node_credentials.view'', ''tasks.view'', ''audit.view'', ''profile.view'',
     ''profile.password.change'']"

datatype permission_scope = AllCurrent | Explicit "string list"

definition builtin_role_policies :: "(string \<times> permission_scope) list" where
  "builtin_role_policies = [(''super_admin'', AllCurrent), (''admin'', AllCurrent),
     (''deployer'', Explicit deployer_keys), (''operator'', Explicit operator_keys),
     (''viewer'', Explicit viewer_keys), (''auditor'', Explicit auditor_keys)]"

end
