(* ===== verification/Session_Store.thy ===== *)
theory Session_Store
  imports Permissions "HOL-Library.AList"
begin

text \<open>
  The session store \<open>src/api/src/auth/session_store.rs\<close>: snapshots of sessions in memory with
  two indexes of token hashes, the contract \<open>session_contract\<close> of the trait \<open>SessionStore\<close> and
  its interpretation on the memory store.
\<close>

section \<open>Sessions in memory\<close>

datatype account_status = AccountActive | AccountDisabled | AccountLocked

record auth_account =
  aa_id :: int
  aa_username :: ustr
  aa_display :: ustr
  aa_status :: account_status
  aa_super :: bool

record snapshot =
  sn_id :: int
  sn_account :: auth_account
  sn_roles :: "ustr list"
  sn_permissions :: "ustr list"
  sn_super :: bool
  sn_access :: ustr
  sn_refresh :: ustr
  sn_csrf :: ustr

record current_session =
  cs_id :: int
  cs_account :: auth_account
  cs_roles :: "ustr list"
  cs_permissions :: "ustr list"
  cs_super :: bool
  cs_csrf :: ustr
  cs_access :: ustr

definition snapshot_session :: "snapshot \<Rightarrow> current_session" where
  "snapshot_session s = \<lparr> cs_id = sn_id s, cs_account = sn_account s, cs_roles = sn_roles s,
     cs_permissions = sn_permissions s, cs_super = sn_super s, cs_csrf = sn_csrf s,
     cs_access = sn_access s \<rparr>"

text \<open>The three hash maps of \<open>MemorySessionStore\<close>, as association lists.\<close>

record memory_store =
  access_index :: "(ustr \<times> int) list"
  refresh_index :: "(ustr \<times> int) list"
  snapshots :: "(int \<times> snapshot) list"

definition empty_store :: memory_store where
  "empty_store = \<lparr> access_index = [], refresh_index = [], snapshots = [] \<rparr>"

definition store_save :: "snapshot \<Rightarrow> memory_store \<Rightarrow> memory_store" where
  "store_save s st = st\<lparr> access_index := AList.update (sn_access s) (sn_id s) (access_index st),
     refresh_index := AList.update (sn_refresh s) (sn_id s) (refresh_index st),
     snapshots := AList.update (sn_id s) s (snapshots st) \<rparr>"

definition get_by_access_hash :: "memory_store \<Rightarrow> ustr \<Rightarrow> snapshot option" where
  "get_by_access_hash st h = (case map_of (access_index st) h of
     None \<Rightarrow> None | Some i \<Rightarrow> map_of (snapshots st) i)"

definition get_by_refresh_hash :: "memory_store \<Rightarrow> ustr \<Rightarrow> snapshot option" where
  "get_by_refresh_hash st h = (case map_of (refresh_index st) h of
     None \<Rightarrow> None | Some i \<Rightarrow> map_of (snapshots st) i)"

definition drop_hashes :: "snapshot \<Rightarrow> memory_store \<Rightarrow> memory_store" where
  "drop_hashes s st = st\<lparr> access_index := AList.delete (sn_access s) (access_index st),
     refresh_index := AList.delete (sn_refresh s) (refresh_index st) \<rparr>"

definition delete_session :: "snapshot \<Rightarrow> memory_store \<Rightarrow> memory_store" where
  "delete_session s st =
     (drop_hashes s st)\<lparr>snapshots := AList.delete (sn_id s) (snapshots st)\<rparr>"

definition delete_session_by_id :: "int \<Rightarrow> memory_store \<Rightarrow> memory_store" where
  "delete_session_by_id i st =
    (let st1 = st\<lparr>snapshots := AList.delete i (snapshots st)\<rparr>
     in case map_of (snapshots st) i of None \<Rightarrow> st1 | Some s \<Rightarrow> drop_hashes s st1)"

definition delete_sessions_by_account :: "int \<Rightarrow> memory_store \<Rightarrow> memory_store" where
  "delete_sessions_by_account account st =
    (let removed = filter (\<lambda>s. aa_id (sn_account s) = account) (map snd (snapshots st));
         st1 = st\<lparr>snapshots := fold (\<lambda>s. AList.delete (sn_id s)) removed (snapshots st)\<rparr>
     in fold drop_hashes removed st1)"

section \<open>What a session store promises\<close>

text \<open>
  The trait \<open>SessionStore\<close> as a set of sessions in which ids and hashes are unique: lookups
  find the session with the hash, and each deletion removes what its name says.
\<close>

definition clashes :: "snapshot \<Rightarrow> snapshot \<Rightarrow> bool" where
  "clashes s t \<longleftrightarrow> sn_id s = sn_id t \<or> sn_access s = sn_access t \<or> sn_refresh s = sn_refresh t"

locale session_contract =
  fixes ok :: "'st \<Rightarrow> bool" and held :: "'st \<Rightarrow> snapshot set"
    and by_access by_refresh :: "'st \<Rightarrow> ustr \<Rightarrow> snapshot option"
    and save remove :: "snapshot \<Rightarrow> 'st \<Rightarrow> 'st" and remove_id remove_account :: "int \<Rightarrow> 'st \<Rightarrow> 'st"
  assumes by_access: "ok st \<Longrightarrow> by_access st h = Some s \<longleftrightarrow> s \<in> held st \<and> sn_access s = h"
    and by_refresh: "ok st \<Longrightarrow> by_refresh st h = Some s \<longleftrightarrow> s \<in> held st \<and> sn_refresh s = h"
    and save: "ok st \<Longrightarrow> \<forall>t \<in> held st. \<not> clashes s t \<Longrightarrow> ok (save s st) \<and> held (save s st) = insert s (held st)"
    and remove: "ok st \<Longrightarrow> s \<in> held st \<Longrightarrow> ok (remove s st) \<and> held (remove s st) = held st - {s}"
    and remove_id: "ok st \<Longrightarrow> ok (remove_id i st) \<and> held (remove_id i st) = {s \<in> held st. sn_id s \<noteq> i}"
    and remove_account: "ok st \<Longrightarrow> ok (remove_account a st) \<and>
      held (remove_account a st) = {s \<in> held st. aa_id (sn_account s) \<noteq> a}"
begin

lemma access_unique: "ok st \<Longrightarrow> s \<in> held st \<Longrightarrow> t \<in> held st \<Longrightarrow> sn_access s = sn_access t \<Longrightarrow> s = t"
  using by_access [of st "sn_access s" s] by_access [of st "sn_access s" t] by simp

lemma refresh_unique: "ok st \<Longrightarrow> s \<in> held st \<Longrightarrow> t \<in> held st \<Longrightarrow> sn_refresh s = sn_refresh t \<Longrightarrow> s = t"
  using by_refresh [of st "sn_refresh s" s] by_refresh [of st "sn_refresh s" t] by simp

lemma saved_is_found: "ok st \<Longrightarrow> \<forall>t \<in> held st. \<not> clashes s t \<Longrightarrow> by_access (save s st) (sn_access s) = Some s"
  using save [of st s] by_access by blast

lemma removed_is_gone: "ok st \<Longrightarrow> by_access (remove_id i st) h = Some s \<Longrightarrow> sn_id s \<noteq> i"
  using remove_id [of st i] by_access by blast

lemma account_is_gone: "ok st \<Longrightarrow> by_access (remove_account a st) h = Some s \<Longrightarrow> aa_id (sn_account s) \<noteq> a"
  using remove_account [of st a] by_access by blast

lemma account_refresh_is_gone:
  "ok st \<Longrightarrow> by_refresh (remove_account a st) h = Some s \<Longrightarrow> aa_id (sn_account s) \<noteq> a"
  using remove_account [of st a] by_refresh by blast

end

section \<open>The memory store keeps the promise\<close>

text \<open>The three maps agree on which session has which id and hashes.\<close>

definition index_ok :: "(ustr \<rightharpoonup> int) \<Rightarrow> (ustr \<rightharpoonup> int) \<Rightarrow> (int \<rightharpoonup> snapshot) \<Rightarrow> bool" where
  "index_ok A R S \<longleftrightarrow>
     (\<forall>i s. S i = Some s \<longrightarrow> sn_id s = i \<and> A (sn_access s) = Some i \<and> R (sn_refresh s) = Some i) \<and>
     (\<forall>h i. A h = Some i \<longrightarrow> (\<exists>s. S i = Some s \<and> sn_access s = h)) \<and>
     (\<forall>h i. R h = Some i \<longrightarrow> (\<exists>s. S i = Some s \<and> sn_refresh s = h))"

definition store_ok :: "memory_store \<Rightarrow> bool" where
  "store_ok st \<longleftrightarrow> index_ok (map_of (access_index st)) (map_of (refresh_index st)) (map_of (snapshots st)) \<and>
     distinct (map fst (snapshots st))"

lemma index_okD:
  assumes "index_ok A R S"
  shows "S i = Some s \<Longrightarrow> sn_id s = i" and "S i = Some s \<Longrightarrow> A (sn_access s) = Some i"
    and "S i = Some s \<Longrightarrow> R (sn_refresh s) = Some i"
    and "A h = Some i \<Longrightarrow> \<exists>s. S i = Some s \<and> sn_access s = h"
    and "R h = Some i \<Longrightarrow> \<exists>s. S i = Some s \<and> sn_refresh s = h"
  using assms by (simp_all add: index_ok_def)

lemma index_ok_insert:
  assumes ok: "index_ok A R S"
    and new: "\<And>i t. S i = Some t \<Longrightarrow> i \<noteq> sn_id s \<and> sn_access t \<noteq> sn_access s \<and> sn_refresh t \<noteq> sn_refresh s"
  shows "index_ok (A(sn_access s \<mapsto> sn_id s)) (R(sn_refresh s \<mapsto> sn_id s)) (S(sn_id s \<mapsto> s))"
  unfolding index_ok_def
proof (intro conjI allI impI)
  fix i t assume "(S(sn_id s \<mapsto> s)) i = Some t"
  then show "sn_id t = i" "(A(sn_access s \<mapsto> sn_id s)) (sn_access t) = Some i"
    "(R(sn_refresh s \<mapsto> sn_id s)) (sn_refresh t) = Some i"
    using index_okD(1-3) [OF ok, of i t] new [of i t] by (auto split: if_splits)
next
  fix h i assume "(A(sn_access s \<mapsto> sn_id s)) h = Some i"
  then show "\<exists>t. (S(sn_id s \<mapsto> s)) i = Some t \<and> sn_access t = h"
    using index_okD(4) [OF ok, of h i] new [of i] by (auto split: if_splits)
next
  fix h i assume "(R(sn_refresh s \<mapsto> sn_id s)) h = Some i"
  then show "\<exists>t. (S(sn_id s \<mapsto> s)) i = Some t \<and> sn_refresh t = h"
    using index_okD(5) [OF ok, of h i] new [of i] by (auto split: if_splits)
qed

lemma index_ok_delete:
  assumes ok: "index_ok A R S" and s: "S (sn_id s) = Some s"
  shows "index_ok (A(sn_access s := None)) (R(sn_refresh s := None)) (S(sn_id s := None))"
  unfolding index_ok_def
proof (intro conjI allI impI)
  fix i t assume "(S(sn_id s := None)) i = Some t"
  then show "sn_id t = i" "(A(sn_access s := None)) (sn_access t) = Some i"
    "(R(sn_refresh s := None)) (sn_refresh t) = Some i"
    using index_okD(1-3) [OF ok, of i t] index_okD(2,3) [OF ok s] by (auto split: if_splits)
next
  fix h i assume "(A(sn_access s := None)) h = Some i"
  then show "\<exists>t. (S(sn_id s := None)) i = Some t \<and> sn_access t = h"
    using index_okD(4) [OF ok, of h i] s by (auto split: if_splits)
next
  fix h i assume "(R(sn_refresh s := None)) h = Some i"
  then show "\<exists>t. (S(sn_id s := None)) i = Some t \<and> sn_refresh t = h"
    using index_okD(5) [OF ok, of h i] s by (auto split: if_splits)
qed

definition store_held :: "memory_store \<Rightarrow> snapshot set" where
  "store_held st = snd ` set (snapshots st)"

lemma store_held_iff: "store_ok st \<Longrightarrow> s \<in> store_held st \<longleftrightarrow> map_of (snapshots st) (sn_id s) = Some s"
proof -
  assume ok: "store_ok st"
  have d: "distinct (map fst (snapshots st))" using ok by (simp add: store_ok_def)
  show ?thesis
  proof
    assume "s \<in> store_held st"
    then obtain i where "(i, s) \<in> set (snapshots st)" by (auto simp: store_held_def)
    then have m: "map_of (snapshots st) i = Some s" using d by simp
    then have "sn_id s = i" using ok index_okD(1) by (auto simp: store_ok_def simp del: map_of_eq_Some_iff)
    with m show "map_of (snapshots st) (sn_id s) = Some s" by simp
  next
    assume "map_of (snapshots st) (sn_id s) = Some s"
    then show "s \<in> store_held st" by (force simp: store_held_def dest: map_of_SomeD)
  qed
qed

lemma store_okD:
  assumes "store_ok st"
  shows "map_of (snapshots st) i = Some s \<Longrightarrow> sn_id s = i"
    and "map_of (snapshots st) i = Some s \<Longrightarrow> map_of (access_index st) (sn_access s) = Some i"
    and "map_of (snapshots st) i = Some s \<Longrightarrow> map_of (refresh_index st) (sn_refresh s) = Some i"
    and "map_of (access_index st) h = Some i \<Longrightarrow> \<exists>s. map_of (snapshots st) i = Some s \<and> sn_access s = h"
    and "map_of (refresh_index st) h = Some i \<Longrightarrow> \<exists>s. map_of (snapshots st) i = Some s \<and> sn_refresh s = h"
proof -
  have "index_ok (map_of (access_index st)) (map_of (refresh_index st)) (map_of (snapshots st))"
    using assms by (simp add: store_ok_def)
  note * = index_okD [OF this]
  show "map_of (snapshots st) i = Some s \<Longrightarrow> sn_id s = i" by (rule *(1))
  show "map_of (snapshots st) i = Some s \<Longrightarrow> map_of (access_index st) (sn_access s) = Some i" by (rule *(2))
  show "map_of (snapshots st) i = Some s \<Longrightarrow> map_of (refresh_index st) (sn_refresh s) = Some i" by (rule *(3))
  show "map_of (access_index st) h = Some i \<Longrightarrow> \<exists>s. map_of (snapshots st) i = Some s \<and> sn_access s = h" by (rule *(4))
  show "map_of (refresh_index st) h = Some i \<Longrightarrow> \<exists>s. map_of (snapshots st) i = Some s \<and> sn_refresh s = h" by (rule *(5))
qed

lemma store_by_access:
  assumes "store_ok st"
  shows "get_by_access_hash st h = Some s \<longleftrightarrow> s \<in> store_held st \<and> sn_access s = h"
proof
  assume "get_by_access_hash st h = Some s"
  then obtain i where i: "map_of (access_index st) h = Some i" "map_of (snapshots st) i = Some s"
    by (auto simp: get_by_access_hash_def split: option.splits)
  moreover obtain t where "map_of (snapshots st) i = Some t" "sn_access t = h"
    using store_okD(4) [OF assms i(1)] by blast
  ultimately show "s \<in> store_held st \<and> sn_access s = h"
    using store_okD(1) [OF assms i(2)] by (simp add: store_held_iff [OF assms])
next
  assume "s \<in> store_held st \<and> sn_access s = h"
  then show "get_by_access_hash st h = Some s"
    using store_okD(2) [OF assms, of "sn_id s" s] by (simp add: store_held_iff [OF assms] get_by_access_hash_def)
qed

lemma store_by_refresh:
  assumes "store_ok st"
  shows "get_by_refresh_hash st h = Some s \<longleftrightarrow> s \<in> store_held st \<and> sn_refresh s = h"
proof
  assume "get_by_refresh_hash st h = Some s"
  then obtain i where i: "map_of (refresh_index st) h = Some i" "map_of (snapshots st) i = Some s"
    by (auto simp: get_by_refresh_hash_def split: option.splits)
  moreover obtain t where "map_of (snapshots st) i = Some t" "sn_refresh t = h"
    using store_okD(5) [OF assms i(1)] by blast
  ultimately show "s \<in> store_held st \<and> sn_refresh s = h"
    using store_okD(1) [OF assms i(2)] by (simp add: store_held_iff [OF assms])
next
  assume "s \<in> store_held st \<and> sn_refresh s = h"
  then show "get_by_refresh_hash st h = Some s"
    using store_okD(3) [OF assms, of "sn_id s" s] by (simp add: store_held_iff [OF assms] get_by_refresh_hash_def)
qed

lemma saved_maps:
  "map_of (access_index (store_save s st)) = (map_of (access_index st))(sn_access s \<mapsto> sn_id s)"
  "map_of (refresh_index (store_save s st)) = (map_of (refresh_index st))(sn_refresh s \<mapsto> sn_id s)"
  "map_of (snapshots (store_save s st)) = (map_of (snapshots st))(sn_id s \<mapsto> s)"
  "distinct (map fst (snapshots st)) \<Longrightarrow> distinct (map fst (snapshots (store_save s st)))"
  by (simp_all add: store_save_def update_conv' distinct_update)

lemma deleted_maps:
  "map_of (access_index (delete_session s st)) = (map_of (access_index st))(sn_access s := None)"
  "map_of (refresh_index (delete_session s st)) = (map_of (refresh_index st))(sn_refresh s := None)"
  "map_of (snapshots (delete_session s st)) = (map_of (snapshots st))(sn_id s := None)"
  "distinct (map fst (snapshots st)) \<Longrightarrow> distinct (map fst (snapshots (delete_session s st)))"
  by (simp_all add: delete_session_def drop_hashes_def delete_conv' distinct_delete)

lemma store_held_map: "store_ok st \<Longrightarrow> store_held st = {s. map_of (snapshots st) (sn_id s) = Some s}"
  by (auto simp: store_held_iff)

lemma store_save_law:
  assumes ok: "store_ok st" and new: "\<forall>t \<in> store_held st. \<not> clashes s t"
  shows "store_ok (store_save s st) \<and> store_held (store_save s st) = insert s (store_held st)"
proof -
  have fresh: "i \<noteq> sn_id s \<and> sn_access t \<noteq> sn_access s \<and> sn_refresh t \<noteq> sn_refresh s"
    if m: "map_of (snapshots st) i = Some t" for i t
  proof -
    have id: "sn_id t = i" by (rule store_okD(1) [OF ok m])
    then have "t \<in> store_held st" using m by (simp only: store_held_iff [OF ok])
    then have "\<not> clashes s t" using new by blast
    then show ?thesis using id by (auto simp: clashes_def)
  qed
  have ok': "store_ok (store_save s st)"
    using ok saved_maps(4) [of st s] index_ok_insert [of _ _ "map_of (snapshots st)" s, OF _ fresh]
    by (simp add: store_ok_def saved_maps del: map_of_eq_Some_iff)
  moreover have "t \<in> store_held (store_save s st) \<longleftrightarrow> t \<in> insert s (store_held st)" for t
    using fresh [of "sn_id t" t]
    by (auto simp: store_held_iff [OF ok'] store_held_iff [OF ok] saved_maps simp del: map_of_eq_Some_iff split: if_splits)
  ultimately show ?thesis by blast
qed

lemma store_remove_law:
  assumes ok: "store_ok st" and s: "s \<in> store_held st"
  shows "store_ok (delete_session s st) \<and> store_held (delete_session s st) = store_held st - {s}"
proof -
  have m: "map_of (snapshots st) (sn_id s) = Some s" using s by (simp only: store_held_iff [OF ok])
  have ok': "store_ok (delete_session s st)"
    using ok deleted_maps(4) [of st s] index_ok_delete [of _ _ "map_of (snapshots st)" s, OF _ m]
    by (simp add: store_ok_def deleted_maps del: map_of_eq_Some_iff)
  moreover have "t \<in> store_held (delete_session s st) \<longleftrightarrow> t \<in> store_held st - {s}" for t
    using m
    by (auto simp: store_held_iff [OF ok'] store_held_iff [OF ok] deleted_maps simp del: map_of_eq_Some_iff split: if_splits)
  ultimately show ?thesis by blast
qed

lemma delete_by_id_eq:
  assumes "store_ok st" and "map_of (snapshots st) i = Some s"
  shows "delete_session_by_id i st = delete_session s st"
  using assms store_okD(1) [OF assms]
  by (simp add: delete_session_by_id_def delete_session_def drop_hashes_def)

lemma store_remove_id_law:
  assumes ok: "store_ok st"
  shows "store_ok (delete_session_by_id i st) \<and>
    store_held (delete_session_by_id i st) = {s \<in> store_held st. sn_id s \<noteq> i}"
proof (cases "map_of (snapshots st) i")
  case None
  then have "AList.delete i (snapshots st) = snapshots st"
    by (simp add: delete_id map_of_eq_None_iff)
  then have "delete_session_by_id i st = st" using None by (simp add: delete_session_by_id_def)
  moreover have "sn_id s \<noteq> i" if "s \<in> store_held st" for s
    using that None by (auto simp: store_held_iff [OF ok])
  ultimately show ?thesis using ok by auto
next
  case (Some s)
  have id: "sn_id s = i" by (rule store_okD(1) [OF ok Some])
  then have "s \<in> store_held st" using Some by (simp add: store_held_iff [OF ok])
  note law = store_remove_law [OF ok this]
  have "t = s" if "t \<in> store_held st" "sn_id t = i" for t
  proof -
    have "map_of (snapshots st) (sn_id t) = Some t" using that(1) by (simp only: store_held_iff [OF ok])
    with Some that(2) show ?thesis by (simp del: map_of_eq_Some_iff)
  qed
  then have "store_held st - {s} = {t \<in> store_held st. sn_id t \<noteq> i}" using id by blast
  with law show ?thesis by (simp only: delete_by_id_eq [OF ok Some] simp_thms)
qed

lemma delete_account_eq:
  "delete_sessions_by_account a st =
     fold delete_session (filter (\<lambda>s. aa_id (sn_account s) = a) (map snd (snapshots st))) st"
proof -
  have "fold drop_hashes ss (st\<lparr>snapshots := fold (\<lambda>s. AList.delete (sn_id s)) ss (snapshots st)\<rparr>) =
      fold delete_session ss st" for ss :: "snapshot list"
  proof (induction ss arbitrary: st)
    case (Cons s ss)
    have commute: "drop_hashes s (st\<lparr>snapshots := x\<rparr>) = (delete_session s st)\<lparr>snapshots := x\<rparr>" for x
      by (cases st) (simp add: delete_session_def drop_hashes_def)
    have shots: "snapshots (delete_session s st) = AList.delete (sn_id s) (snapshots st)"
      by (simp add: delete_session_def)
    show ?case using Cons [of "delete_session s st"] by (simp only: fold.simps comp_apply commute shots)
  qed simp
  then show ?thesis by (simp add: delete_sessions_by_account_def)
qed

lemma delete_sessions_law:
  "store_ok st \<Longrightarrow> set ss \<subseteq> store_held st \<Longrightarrow> distinct ss \<Longrightarrow>
     store_ok (fold delete_session ss st) \<and> store_held (fold delete_session ss st) = store_held st - set ss"
proof (induction ss arbitrary: st)
  case (Cons s ss)
  have "store_ok (delete_session s st)" "store_held (delete_session s st) = store_held st - {s}"
    using store_remove_law [of st s] Cons.prems by auto
  with Cons.IH [of "delete_session s st"] Cons.prems show ?case by auto
qed simp

lemma store_remove_account_law:
  assumes ok: "store_ok st"
  shows "store_ok (delete_sessions_by_account a st) \<and>
    store_held (delete_sessions_by_account a st) = {s \<in> store_held st. aa_id (sn_account s) \<noteq> a}"
proof -
  have d: "distinct (map fst (snapshots st))" using ok by (simp add: store_ok_def)
  have "fst p = sn_id (snd p)" if "p \<in> set (snapshots st)" for p
    using store_okD(1) [OF ok map_of_is_SomeI [OF d, of "fst p" "snd p"]] that by simp
  then have "map fst (snapshots st) = map sn_id (map snd (snapshots st))" by simp
  then have "distinct (map snd (snapshots st))"
    using d distinct_map by metis
  then show ?thesis
    using delete_sessions_law [OF ok, of "filter (\<lambda>s. aa_id (sn_account s) = a) (map snd (snapshots st))"]
    by (auto simp: delete_account_eq store_held_def)
qed

interpretation memory: session_contract store_ok store_held get_by_access_hash get_by_refresh_hash store_save
    delete_session delete_session_by_id delete_sessions_by_account
  by unfold_locales (simp_all only: store_by_access store_by_refresh store_save_law store_remove_law
      store_remove_id_law store_remove_account_law)

end
