(* ===== verification/Accounts.thy ===== *)
theory Accounts
  imports Session_Store "HOL-Library.List_Lexorder"
begin

text \<open>
  The tables of \<open>src/api/src/auth/service.rs\<close> (migrations 0002, 0014, 0028, 0053), its errors, the
  normalization of its inputs, its queries, and the closure of a set of permissions under the
  dependencies of the registry.
\<close>

section \<open>Errors\<close>

datatype auth_message =
    EnterUsername | UsernameTooShort | EnterPassword | PasswordTooShort | WrongCredentials
  | AccountLockedOut | AccountNotEnabled | LoginExpired | RenewalFailed | AlreadyInitialised
  | UsernameTaken | BadAccountStatus | OwnAccountStatus | OwnPasswordReset | OwnRoles
  | AccountMissing | NoRoleGiven | RoleNotUsable | RoleMissing | RoleNameRequired | RoleCodeRequired
  | BadRoleCode | RoleCodeTaken | BadRoleStatus | SystemRole | PermissionMissing
  | CurrentPasswordWrong | SourceRequired | SourceTooLong | TokenNotActive | TokenNotRevoked
  | TokenInvalid | AppScopeBroken | UnitScopeBroken | QuotaExceeded | OwnSession
  | HashingFailed | BadPasswordHash | RandomFailed | DatabaseFailed

datatype auth_error =
    AuthInvalid auth_message | AuthUnauthorized auth_message | AuthForbidden auth_message
  | AuthConflict auth_message | AuthRateLimited auth_message | AuthInternal auth_message

fun auth_message_of :: "auth_error \<Rightarrow> auth_message" where
  "auth_message_of (AuthInvalid m) = m"
| "auth_message_of (AuthUnauthorized m) = m"
| "auth_message_of (AuthForbidden m) = m"
| "auth_message_of (AuthConflict m) = m"
| "auth_message_of (AuthRateLimited m) = m"
| "auth_message_of (AuthInternal m) = m"

fun auth_status_code :: "auth_error \<Rightarrow> nat" where
  "auth_status_code (AuthInvalid _) = 400"
| "auth_status_code (AuthUnauthorized _) = 401"
| "auth_status_code (AuthForbidden _) = 403"
| "auth_status_code (AuthConflict _) = 409"
| "auth_status_code (AuthRateLimited _) = 429"
| "auth_status_code (AuthInternal _) = 500"

section \<open>Tables\<close>

datatype lock_reason = NoLockReason | LockedByAdmin | LockedByFailures

record account_row =
  acc_id :: int
  acc_username :: ustr
  acc_password :: ustr
  acc_display :: ustr
  acc_status :: account_status
  acc_super :: bool
  acc_failed :: int
  acc_locked_at :: "time option"
  acc_locked_reason :: lock_reason
  acc_last_login :: "time option"
  acc_last_ip :: ustr
  acc_password_changed :: time

datatype role_status = RoleActive | RoleDisabled

record role_row =
  role_id :: int
  role_code :: ustr
  role_name :: ustr
  role_description :: ustr
  role_status :: role_status
  role_system :: bool

record permission_row =
  perm_id :: int
  perm_key :: ustr
  perm_resource :: permission_resource
  perm_resource_key :: ustr

datatype session_status = SessionActive | SessionRevoked | SessionExpired

datatype revoke_reason =
    NotRevoked | LoggedOut | RefreshRotated | RevokedByAdmin | RevokedLocked | RevokedDisabled
  | RevokedPasswordReset | RevokedPasswordChanged | RevokedRoleChanged | RevokedRoleStatus
  | RevokedRolePermissions

record session_row =
  ses_id :: int
  ses_account :: int
  ses_status :: session_status
  ses_access :: ustr
  ses_refresh :: ustr
  ses_access_expires :: time
  ses_refresh_expires :: time
  ses_ip :: ustr
  ses_agent :: ustr
  ses_revoked_at :: "time option"
  ses_reason :: revoke_reason

datatype token_status = TokenActive | TokenRevoked

record token_row =
  tok_id :: int
  tok_account :: int
  tok_hash :: ustr
  tok_prefix :: ustr
  tok_source :: ustr
  tok_status :: token_status
  tok_apps :: ustr
  tok_units :: ustr
  tok_expires :: "time option"
  tok_rate :: int
  tok_max :: int
  tok_window_start :: "time option"
  tok_window_count :: int
  tok_active :: int
  tok_last_used :: "time option"
  tok_last_ip :: ustr
  tok_revoked_at :: "time option"

text \<open>The messages of the audit log, with the values they show.\<close>

datatype audit_memo =
    AuditText ustr | AuditBootstrap | AuditNoAccount | AuditNotActive auth_message
  | AuditWrongPassword int bool | AuditLogin | AuditLogout
  | AuditAccountCreated ustr ustr ustr | AuditAccountStatus ustr account_status nat
  | AuditPasswordReset ustr nat | AuditAccountRoles ustr ustr ustr nat
  | AuditRoleCreated ustr ustr nat | AuditRoleStatus ustr role_status
  | AuditRolePermissions ustr nat nat | AuditPasswordChanged
  | AuditTokenCreated ustr ustr | AuditTokenRevoked ustr ustr | AuditTokenDeleted ustr ustr
  | AuditSessionRevoked

record audit_row =
  aud_actor :: "int option"
  aud_username :: ustr
  aud_action :: ustr
  aud_target_type :: ustr
  aud_target :: ustr
  aud_message :: audit_memo
  aud_ip :: ustr
  aud_agent :: ustr

text \<open>
  The service: its tables, the sequence counters of those whose ids it chooses, and the
  session store.
\<close>

record auth =
  accounts :: "account_row list"
  roles :: "role_row list"
  permissions :: "permission_row list"
  account_roles :: "(int \<times> int) list"
  role_permissions :: "(int \<times> int) list"
  sessions :: "session_row list"
  api_tokens :: "token_row list"
  audits :: "audit_row list"
  account_seq :: int
  role_seq :: int
  permission_seq :: int
  session_seq :: int
  token_seq :: int
  session_store :: memory_store

type_synonym 'a auth_op = "(auth, auth_error, 'a) operation"

text \<open>
  What the service takes from the crates \<open>sha2\<close>, \<open>argon2\<close> and \<open>serde_json\<close>: the digest of a
  token, a new password hash under a salt, the comparison with a stored hash and the
  reading of a list of ids; \<open>None\<close> where the crate reports an error.
\<close>

record crates =
  token_digest :: "ustr \<Rightarrow> ustr"
  new_password_hash :: "ustr \<Rightarrow> ustr \<Rightarrow> ustr option"
  matches_hash :: "ustr \<Rightarrow> ustr \<Rightarrow> bool option"
  parse_ids :: "ustr \<Rightarrow> int list option"

definition account_of :: "account_row \<Rightarrow> auth_account" where
  "account_of a = \<lparr> aa_id = acc_id a, aa_username = acc_username a, aa_display = acc_display a,
     aa_status = acc_status a, aa_super = acc_super a \<rparr>"

section \<open>Inputs\<close>

definition normalize_username :: "ustr \<Rightarrow> auth_error + ustr" where
  "normalize_username username = (let u = map ascii_lower (trim username) in
     if u = [] then Inl (AuthInvalid EnterUsername)
     else if length u < 3 then Inl (AuthInvalid UsernameTooShort) else Inr u)"

definition role_code_char :: "nat \<Rightarrow> bool" where
  "role_code_char c \<longleftrightarrow> (97 \<le> c \<and> c \<le> 122) \<or> is_digit c \<or> c = 95 \<or> c = 45"

definition normalize_role_code :: "ustr \<Rightarrow> auth_error + ustr" where
  "normalize_role_code code = (let c = map ascii_lower (trim code) in
     if c = [] then Inl (AuthInvalid RoleCodeRequired)
     else if \<not> list_all role_code_char c then Inl (AuthInvalid BadRoleCode) else Inr c)"

definition normalize_api_token_source :: "ustr \<Rightarrow> auth_error + ustr" where
  "normalize_api_token_source source = (let s = trim source in
     if s = [] then Inl (AuthInvalid SourceRequired)
     else if 80 < length s then Inl (AuthInvalid SourceTooLong) else Inr s)"

definition token_prefix :: "ustr \<Rightarrow> ustr" where
  "token_prefix token = take 10 token"

definition validate_password :: "ustr \<Rightarrow> auth_error + unit" where
  "validate_password password =
     (if length password < 8 then Inl (AuthInvalid PasswordTooShort) else Inr ())"

definition hash_password :: "crates \<Rightarrow> ustr \<Rightarrow> ustr \<Rightarrow> auth_error + ustr" where
  "hash_password E salt password = (case validate_password password of
     Inl e \<Rightarrow> Inl e
   | Inr _ \<Rightarrow> (case new_password_hash E salt password of
       None \<Rightarrow> Inl (AuthInternal HashingFailed) | Some h \<Rightarrow> Inr h))"

definition verify_password :: "crates \<Rightarrow> ustr \<Rightarrow> ustr \<Rightarrow> auth_error + bool" where
  "verify_password E password stored = (case matches_hash E password stored of
     None \<Rightarrow> Inl (AuthInternal BadPasswordHash) | Some ok \<Rightarrow> Inr ok)"

definition unique_ids :: "int list \<Rightarrow> int list" where
  "unique_ids ids = remdups_adj (sort ids)"

definition format_account_label :: "ustr \<Rightarrow> ustr \<Rightarrow> ustr" where
  "format_account_label username display = (let d = trim display in
     if d = [] \<or> d = username then username else d @ lit '' ('' @ username @ lit '')'')"

text \<open>The text for no role (three ideographs) and the ideographic comma between roles.\<close>

fun join_names :: "ustr list \<Rightarrow> ustr" where
  "join_names [] = []"
| "join_names [n] = n"
| "join_names (n # ns) = n @ 0x3001 # join_names ns"

definition role_summary :: "ustr list \<Rightarrow> ustr" where
  "role_summary names = (if names = [] then [0x672A, 0x5206, 0x914D] else join_names names)"

section \<open>Queries\<close>

definition active_role :: "role_row \<Rightarrow> bool" where
  "active_role r \<longleftrightarrow> role_status r = RoleActive"

text \<open>The pairs of the two link tables are primary keys, so joining them is membership.\<close>

definition held_roles :: "auth \<Rightarrow> int \<Rightarrow> role_row list" where
  "held_roles st account =
     filter (\<lambda>r. active_role r \<and> (account, role_id r) \<in> set (account_roles st)) (roles st)"

definition role_codes :: "auth \<Rightarrow> int \<Rightarrow> ustr list" where
  "role_codes st account = sort (map role_code (held_roles st account))"

definition permission_keys :: "auth \<Rightarrow> int \<Rightarrow> ustr list" where
  "permission_keys st account = sort (remdups (map perm_key (filter (\<lambda>p.
     \<exists>r \<in> set (held_roles st account). (role_id r, perm_id p) \<in> set (role_permissions st))
     (permissions st))))"

definition account_label :: "auth \<Rightarrow> int \<Rightarrow> auth_error + ustr" where
  "account_label st account = (case find (\<lambda>a. acc_id a = account) (accounts st) of
     None \<Rightarrow> Inl (AuthInvalid AccountMissing)
   | Some a \<Rightarrow> Inr (format_account_label (acc_username a) (acc_display a)))"

definition role_label :: "auth \<Rightarrow> int \<Rightarrow> auth_error + ustr" where
  "role_label st role = (case find (\<lambda>r. role_id r = role) (roles st) of
     None \<Rightarrow> Inl (AuthInvalid RoleMissing)
   | Some r \<Rightarrow> Inr (role_name r @ lit '' ('' @ role_code r @ lit '')''))"

definition valid_active_role_ids :: "auth \<Rightarrow> int list \<Rightarrow> auth_error + int list" where
  "valid_active_role_ids st ids = (let us = unique_ids ids in
     if us = [] then Inl (AuthInvalid NoRoleGiven)
     else if \<exists>i \<in> set us. affected (\<lambda>r. role_id r = i \<and> active_role r) (roles st) = 0
     then Inl (AuthInvalid RoleNotUsable) else Inr us)"

definition account_role_names_summary :: "auth \<Rightarrow> int \<Rightarrow> ustr" where
  "account_role_names_summary st account = role_summary (map role_name
     (filter (\<lambda>r. (account, role_id r) \<in> set (account_roles st)) (roles st)))"

fun active_role_names :: "auth \<Rightarrow> int list \<Rightarrow> auth_error + ustr list" where
  "active_role_names st [] = Inr []"
| "active_role_names st (i # is) =
    (case find (\<lambda>r. role_id r = i \<and> active_role r) (roles st) of
       None \<Rightarrow> Inl (AuthInvalid RoleNotUsable)
     | Some r \<Rightarrow> (case active_role_names st is of
         Inl e \<Rightarrow> Inl e | Inr names \<Rightarrow> Inr (role_name r # names)))"

definition role_names_summary :: "auth \<Rightarrow> int list \<Rightarrow> auth_error + ustr" where
  "role_names_summary st ids = map_sum id role_summary (active_role_names st (unique_ids ids))"

definition role_permission_count :: "auth \<Rightarrow> int \<Rightarrow> nat" where
  "role_permission_count st role = affected (\<lambda>(r, _). r = role) (role_permissions st)"

definition ensure_custom_role :: "auth \<Rightarrow> int \<Rightarrow> auth_error + unit" where
  "ensure_custom_role st role = (case find (\<lambda>r. role_id r = role) (roles st) of
     None \<Rightarrow> Inl (AuthInvalid RoleMissing)
   | Some r \<Rightarrow> if role_system r then Inl (AuthInvalid SystemRole) else Inr ())"

section \<open>The closure of a set of permissions\<close>

definition key_of_id :: "permission_row list \<Rightarrow> int \<Rightarrow> ustr option" where
  "key_of_id ps i = map_option perm_key (find (\<lambda>p. perm_id p = i) ps)"

definition id_of_key :: "permission_row list \<Rightarrow> ustr \<Rightarrow> int option" where
  "id_of_key ps k = map_option perm_id (find (\<lambda>p. perm_key p = k) ps)"

text \<open>One turn of the loop: the registered dependencies of an id are pushed when missing.\<close>

definition push_missing :: "permission_row list \<Rightarrow> ustr \<Rightarrow> int list \<Rightarrow> int list" where
  "push_missing ps k ids = (case id_of_key ps k of
     None \<Rightarrow> ids | Some i \<Rightarrow> if i \<in> set ids then ids else ids @ [i])"

definition push_dependencies :: "permission_row list \<Rightarrow> int \<Rightarrow> int list \<Rightarrow> int list" where
  "push_dependencies ps i ids = (case key_of_id ps i of
     None \<Rightarrow> ids | Some key \<Rightarrow> fold (push_missing ps) (permission_dependencies key) ids)"

lemma push_missing_measure:
  "card (set (map perm_id ps) - set (push_missing ps k ids)) + length (push_missing ps k ids)
     \<le> card (set (map perm_id ps) - set ids) + length ids" (is "?l \<le> ?r")
  and push_missing_length: "length ids \<le> length (push_missing ps k ids)"
proof -
  show "?l \<le> ?r"
  proof (cases "id_of_key ps k")
    case (Some i)
    then have i: "i \<in> set (map perm_id ps)"
      by (auto simp: id_of_key_def dest!: find_SomeD)
    have "card (set (map perm_id ps) - insert i (set ids)) < card (set (map perm_id ps) - set ids)"
      if "i \<notin> set ids" using i that by (intro psubset_card_mono) auto
    with Some show ?thesis by (auto simp: push_missing_def Suc_le_eq)
  qed (simp add: push_missing_def)
  show "length ids \<le> length (push_missing ps k ids)" by (auto simp: push_missing_def split: option.split)
qed

lemma fold_push_measure:
  "card (set (map perm_id ps) - set (fold (push_missing ps) ks ids)) + length (fold (push_missing ps) ks ids)
     \<le> card (set (map perm_id ps) - set ids) + length ids \<and> length ids \<le> length (fold (push_missing ps) ks ids)"
proof (induction ks arbitrary: ids)
  case (Cons k ks)
  from Cons [of "push_missing ps k ids"] push_missing_measure [of ps k ids] push_missing_length [of ids ps k]
  show ?case by (simp del: set_map)
qed simp

lemma push_dependencies_measure:
  "card (set (map perm_id ps) - set (push_dependencies ps i ids)) + length (push_dependencies ps i ids)
     \<le> card (set (map perm_id ps) - set ids) + length ids"
  "length ids \<le> length (push_dependencies ps i ids)"
  using fold_push_measure [of ps _ ids] by (auto simp: push_dependencies_def split: option.split)

function close_loop :: "permission_row list \<Rightarrow> nat \<Rightarrow> int list \<Rightarrow> int list" where
  "close_loop ps cursor ids =
    (if cursor < length ids
     then close_loop ps (Suc cursor) (push_dependencies ps (ids ! cursor) ids) else ids)"
  by pat_completeness auto
termination
proof (relation "measure (\<lambda>(ps, cursor, ids). card (set (map perm_id ps) - set ids) + length ids - cursor)")
  fix ps cursor and ids :: "int list"
  assume "cursor < length ids"
  then show "((ps, Suc cursor, push_dependencies ps (ids ! cursor) ids), (ps, cursor, ids)) \<in>
      measure (\<lambda>(ps, cursor, ids). card (set (map perm_id ps) - set ids) + length ids - cursor)"
    using push_dependencies_measure [where ps = ps and i = "ids ! cursor" and ids = ids] by (simp del: set_map)
qed simp

declare close_loop.simps [simp del]

definition normalized_permission_ids :: "auth \<Rightarrow> int list \<Rightarrow> auth_error + int list" where
  "normalized_permission_ids st ids = (let us = unique_ids ids in
     if us = [] then Inr []
     else if \<exists>i \<in> set us. key_of_id (permissions st) i = None then Inl (AuthInvalid PermissionMissing)
     else Inr (unique_ids (close_loop (permissions st) 0 us)))"

end
