(* ===== verification/Auth_Service.thy ===== *)
theory Auth_Service
  imports Accounts
begin

text \<open>
  The operations of \<open>AuthService\<close> in \<open>src/api/src/auth/service.rs\<close>: logging in, sessions, accounts,
  roles, API tokens, the start of the service and the lists. Each operation takes effect as one
  step; a failure of the database other than a violated \<open>UNIQUE\<close> is not modelled.
\<close>

section \<open>Audit log\<close>

definition record_audit ::
  "int option \<Rightarrow> ustr \<Rightarrow> string \<Rightarrow> string \<Rightarrow> ustr \<Rightarrow> audit_memo \<Rightarrow> ustr \<Rightarrow> ustr \<Rightarrow> auth \<Rightarrow> auth" where
  "record_audit actor username action kind target message ip agent st = st\<lparr>audits := audits st @
     [\<lparr> aud_actor = actor, aud_username = username, aud_action = lit action,
        aud_target_type = lit kind, aud_target = target, aud_message = message,
        aud_ip = ip, aud_agent = agent \<rparr>]\<rparr>"

text \<open>The record of what the owner of a session does, with no address.\<close>

definition audit_by :: "current_session \<Rightarrow> string \<Rightarrow> string \<Rightarrow> int \<Rightarrow> audit_memo \<Rightarrow> auth \<Rightarrow> auth" where
  "audit_by actor action kind target message =
     record_audit (Some (aa_id (cs_account actor))) (aa_username (cs_account actor)) action kind
       (dec target) message [] []"

definition record_system_audit ::
  "current_session \<Rightarrow> string \<Rightarrow> string \<Rightarrow> ustr \<Rightarrow> ustr \<Rightarrow> auth \<Rightarrow> auth" where
  "record_system_audit actor action kind target message =
     record_audit (Some (aa_id (cs_account actor))) (aa_username (cs_account actor)) action kind
       target (AuditText message) [] []"

section \<open>Sessions\<close>

definition revoke_sessions :: "(session_row \<Rightarrow> bool) \<Rightarrow> time \<Rightarrow> revoke_reason \<Rightarrow> auth \<Rightarrow> auth" where
  "revoke_sessions p now reason st = st\<lparr>sessions := modify p
     (\<lambda>s. s\<lparr> ses_status := SessionRevoked, ses_revoked_at := Some now, ses_reason := reason \<rparr>)
     (sessions st)\<rparr>"

definition active_session_of :: "int \<Rightarrow> session_row \<Rightarrow> bool" where
  "active_session_of account s \<longleftrightarrow> ses_account s = account \<and> ses_status s = SessionActive"

definition revoke_sessions_by_account :: "time \<Rightarrow> int \<Rightarrow> revoke_reason \<Rightarrow> auth \<Rightarrow> nat \<times> auth" where
  "revoke_sessions_by_account now account reason st =
     (affected (active_session_of account) (sessions st),
      (revoke_sessions (active_session_of account) now reason st)
        \<lparr>session_store := delete_sessions_by_account account (session_store st)\<rparr>)"

definition revoke_session_record :: "time \<Rightarrow> int \<Rightarrow> revoke_reason \<Rightarrow> auth \<Rightarrow> auth" where
  "revoke_session_record now i reason = revoke_sessions (\<lambda>s. ses_id s = i) now reason"

definition forget_session :: "int \<Rightarrow> auth \<Rightarrow> auth" where
  "forget_session i st = st\<lparr>session_store := delete_session_by_id i (session_store st)\<rparr>"

definition forget_snapshot :: "snapshot \<Rightarrow> auth \<Rightarrow> auth" where
  "forget_snapshot s st = st\<lparr>session_store := delete_session s (session_store st)\<rparr>"

definition revoke_sessions_by_role :: "time \<Rightarrow> int \<Rightarrow> revoke_reason \<Rightarrow> auth \<Rightarrow> auth" where
  "revoke_sessions_by_role now role reason st =
     fold (\<lambda>a st. snd (revoke_sessions_by_account now a reason st))
       (map fst (filter (\<lambda>(_, r). r = role) (account_roles st))) st"

text \<open>Three new tokens from the random number generator; \<open>None\<close> when it fails.\<close>

record new_tokens =
  new_access :: ustr
  new_refresh :: ustr
  new_csrf :: ustr

record auth_result =
  ar_session :: current_session
  ar_access :: ustr
  ar_refresh :: ustr

definition access_ttl :: nat where "access_ttl = 2 * 60 * 60 * 1000"
definition refresh_ttl :: nat where "refresh_ttl = 14 * 24 * 60 * 60 * 1000"

definition new_snapshot :: "crates \<Rightarrow> auth \<Rightarrow> auth_account \<Rightarrow> new_tokens \<Rightarrow> snapshot" where
  "new_snapshot E st account t = \<lparr> sn_id = session_seq st + 1, sn_account = account,
     sn_roles = role_codes st (aa_id account), sn_permissions = permission_keys st (aa_id account),
     sn_super = aa_super account, sn_access = token_digest E (new_access t),
     sn_refresh = token_digest E (new_refresh t), sn_csrf = new_csrf t \<rparr>"

definition new_session_row :: "time \<Rightarrow> snapshot \<Rightarrow> ustr \<Rightarrow> ustr \<Rightarrow> session_row" where
  "new_session_row now s ip agent = \<lparr> ses_id = sn_id s, ses_account = aa_id (sn_account s),
     ses_status = SessionActive, ses_access = sn_access s, ses_refresh = sn_refresh s,
     ses_access_expires = now + access_ttl, ses_refresh_expires = now + refresh_ttl,
     ses_ip = ip, ses_agent = agent, ses_revoked_at = None, ses_reason = NotRevoked \<rparr>"

definition issue_session ::
  "crates \<Rightarrow> time \<Rightarrow> auth_account \<Rightarrow> ustr \<Rightarrow> ustr \<Rightarrow> new_tokens option \<Rightarrow> auth_result auth_op" where
  "issue_session E now account ip agent fresh st = (case fresh of
     None \<Rightarrow> (Inl (AuthInternal RandomFailed), st)
   | Some t \<Rightarrow>
       let s = new_snapshot E st account t
       in if \<exists>r \<in> set (sessions st). ses_access r = sn_access s \<or> ses_refresh r = sn_refresh s
          then (Inl (AuthInternal DatabaseFailed), st)
          else (Inr \<lparr> ar_session = snapshot_session s, ar_access = new_access t,
                     ar_refresh = new_refresh t \<rparr>,
                st\<lparr> sessions := sessions st @ [new_session_row now s ip agent],
                    session_seq := session_seq st + 1,
                    session_store := store_save s (session_store st) \<rparr>))"

section \<open>Logging in\<close>

record login_input =
  li_username :: ustr
  li_password :: ustr
  li_display :: "ustr option"
  li_ip :: ustr
  li_agent :: ustr

definition max_failed_logins :: int where "max_failed_logins = 5"

definition record_failed_login :: "time \<Rightarrow> int \<Rightarrow> int \<Rightarrow> bool \<Rightarrow> auth \<Rightarrow> auth" where
  "record_failed_login now account failed locked st = st\<lparr>accounts := modify (\<lambda>a. acc_id a = account)
     (\<lambda>a. a\<lparr> acc_failed := failed,
             acc_status := (if locked then AccountLocked else acc_status a),
             acc_locked_at := (if locked then Some now else acc_locked_at a),
             acc_locked_reason := (if locked then LockedByFailures else acc_locked_reason a) \<rparr>)
     (accounts st)\<rparr>"

definition login_failed :: "login_input \<Rightarrow> account_row \<Rightarrow> audit_memo \<Rightarrow> auth \<Rightarrow> auth" where
  "login_failed input a message = record_audit (Some (acc_id a)) (acc_username a) ''auth.login_failed''
     ''account'' (dec (acc_id a)) message (li_ip input) (li_agent input)"

definition wrong_password :: "time \<Rightarrow> login_input \<Rightarrow> account_row \<Rightarrow> auth \<Rightarrow> auth" where
  "wrong_password now input a st =
    (let failed = acc_failed a + 1;
         locked = max_failed_logins \<le> failed;
         st1 = login_failed input a (AuditWrongPassword failed locked)
                 (record_failed_login now (acc_id a) failed locked st)
     in if locked then snd (revoke_sessions_by_account now (acc_id a) RevokedLocked st1) else st1)"

definition record_login :: "time \<Rightarrow> int \<Rightarrow> ustr \<Rightarrow> auth \<Rightarrow> auth" where
  "record_login now account ip st = st\<lparr>accounts := modify (\<lambda>a. acc_id a = account)
     (\<lambda>a. a\<lparr> acc_last_login := Some now, acc_last_ip := ip, acc_failed := 0,
             acc_locked_at := None, acc_locked_reason := NoLockReason \<rparr>) (accounts st)\<rparr>"

definition login :: "crates \<Rightarrow> time \<Rightarrow> login_input \<Rightarrow> new_tokens option \<Rightarrow> auth_result auth_op" where
  "login E now input fresh st = (case normalize_username (li_username input) of
     Inl e \<Rightarrow> (Inl e, st)
   | Inr username \<Rightarrow>
     if trim (li_password input) = [] then (Inl (AuthInvalid EnterPassword), st)
     else case find (\<lambda>a. acc_username a = username) (accounts st) of
       None \<Rightarrow> (Inl (AuthUnauthorized WrongCredentials),
         record_audit None username ''auth.login_failed'' ''account'' [] AuditNoAccount
           (li_ip input) (li_agent input) st)
     | Some a \<Rightarrow>
       if acc_status a \<noteq> AccountActive then
         let message = (if acc_status a = AccountLocked then AccountLockedOut else AccountNotEnabled)
         in (Inl (AuthForbidden message), login_failed input a (AuditNotActive message) st)
       else case verify_password E (li_password input) (acc_password a) of
         Inl e \<Rightarrow> (Inl e, st)
       | Inr False \<Rightarrow> (Inl (AuthUnauthorized WrongCredentials), wrong_password now input a st)
       | Inr True \<Rightarrow> (case issue_session E now (account_of a) (li_ip input) (li_agent input) fresh st of
           (Inl e, st1) \<Rightarrow> (Inl e, st1)
         | (Inr r, st1) \<Rightarrow> (Inr r,
             record_audit (Some (acc_id a)) (acc_username a) ''auth.login'' ''account''
               (dec (acc_id a)) AuditLogin (li_ip input) (li_agent input)
               (record_login now (acc_id a) (li_ip input) st1))))"

definition bootstrap_required :: "auth \<Rightarrow> bool" where
  "bootstrap_required st \<longleftrightarrow> accounts st = []"

definition new_account :: "auth \<Rightarrow> ustr \<Rightarrow> ustr \<Rightarrow> ustr \<Rightarrow> bool \<Rightarrow> time \<Rightarrow> account_row" where
  "new_account st username hash display super now = \<lparr> acc_id = account_seq st + 1,
     acc_username = username, acc_password = hash, acc_display = display,
     acc_status = AccountActive, acc_super = super, acc_failed = 0, acc_locked_at = None,
     acc_locked_reason = NoLockReason, acc_last_login = None, acc_last_ip = [],
     acc_password_changed = now \<rparr>"

text \<open>\<open>INSERT OR IGNORE\<close> into a link table.\<close>

definition insert_link :: "int \<times> int \<Rightarrow> (int \<times> int) list \<Rightarrow> (int \<times> int) list" where
  "insert_link l ls = (if l \<in> set ls then ls else ls @ [l])"

definition display_name_of :: "ustr option \<Rightarrow> ustr \<Rightarrow> ustr" where
  "display_name_of display username = (case map_option trim display of
     None \<Rightarrow> username | Some d \<Rightarrow> if d = [] then username else d)"

definition bootstrap_init ::
  "crates \<Rightarrow> time \<Rightarrow> ustr \<Rightarrow> login_input \<Rightarrow> new_tokens option \<Rightarrow> auth_result auth_op" where
  "bootstrap_init E now salt input fresh st = (case validate_password (li_password input) of
     Inl e \<Rightarrow> (Inl e, st)
   | Inr _ \<Rightarrow>
     if \<not> bootstrap_required st then (Inl (AuthConflict AlreadyInitialised), st)
     else case hash_password E salt (li_password input) of
       Inl e \<Rightarrow> (Inl e, st)
     | Inr hash \<Rightarrow>
       let username = lit ''admin'';
           row = new_account st username hash (display_name_of (li_display input) username) True now
       in case find (\<lambda>r. role_code r = lit ''super_admin'') (roles st) of
            None \<Rightarrow> (Inl (AuthInternal DatabaseFailed), st)
          | Some r \<Rightarrow> login E now (input\<lparr>li_username := username, li_display := None\<rparr>) fresh
              (record_audit (Some (acc_id row)) username ''auth.bootstrap'' ''account''
                (dec (acc_id row)) AuditBootstrap (li_ip input) (li_agent input)
                (st\<lparr> accounts := accounts st @ [row], account_seq := account_seq st + 1,
                     account_roles := insert_link (acc_id row, role_id r) (account_roles st) \<rparr>)))"

section \<open>Using a session\<close>

definition account_active :: "auth \<Rightarrow> int \<Rightarrow> bool" where
  "account_active st i \<longleftrightarrow> (\<exists>a \<in> set (accounts st). acc_id a = i \<and> acc_status a = AccountActive)"

definition authenticate_access_token :: "crates \<Rightarrow> time \<Rightarrow> ustr \<Rightarrow> current_session auth_op" where
  "authenticate_access_token E now token st =
    (let hash = token_digest E token
     in case get_by_access_hash (session_store st) hash of
          None \<Rightarrow> (Inl (AuthUnauthorized LoginExpired), st)
        | Some s \<Rightarrow>
            if affected (\<lambda>r. ses_id r = sn_id s \<and> ses_status r = SessionActive \<and>
                 account_active st (ses_account r) \<and> ses_access r = hash \<and>
                 now < ses_access_expires r) (sessions st) = 0
            then (Inl (AuthUnauthorized LoginExpired), forget_snapshot s st)
            else (Inr (snapshot_session s), st))"

definition refresh :: "crates \<Rightarrow> time \<Rightarrow> ustr \<Rightarrow> new_tokens option \<Rightarrow> auth_result auth_op" where
  "refresh E now token fresh st =
    (let hash = token_digest E token
     in case get_by_refresh_hash (session_store st) hash of
          None \<Rightarrow> (Inl (AuthUnauthorized RenewalFailed), st)
        | Some s \<Rightarrow>
          (case find (\<lambda>r. ses_refresh r = hash \<and> ses_id r = sn_id s \<and>
                   ses_status r = SessionActive \<and> now < ses_refresh_expires r) (sessions st) of
             None \<Rightarrow> (Inl (AuthUnauthorized RenewalFailed), forget_snapshot s st)
           | Some r \<Rightarrow>
             (case find (\<lambda>a. acc_id a = ses_account r) (accounts st) of
                None \<Rightarrow> (Inl (AuthUnauthorized RenewalFailed), forget_snapshot s st)
              | Some a \<Rightarrow>
                if acc_status a \<noteq> AccountActive
                then (Inl (AuthForbidden AccountNotEnabled), forget_snapshot s st)
                else case issue_session E now (account_of a) [] [] fresh st of
                       (Inl e, st1) \<Rightarrow> (Inl e, st1)
                     | (Inr x, st1) \<Rightarrow> (Inr x, forget_session (ses_id r)
                         (revoke_session_record now (ses_id r) RefreshRotated st1)))))"

definition logout :: "time \<Rightarrow> current_session \<Rightarrow> unit auth_op" where
  "logout now session st = (Inr (), audit_by session ''auth.logout'' ''account''
     (aa_id (cs_account session)) AuditLogout
     (forget_session (cs_id session) (revoke_session_record now (cs_id session) LoggedOut st)))"

definition can :: "current_session \<Rightarrow> ustr \<Rightarrow> bool" where
  "can s key \<longleftrightarrow> cs_super s \<or> key \<in> set (cs_permissions s)"

definition revoke_admin_session :: "time \<Rightarrow> current_session \<Rightarrow> int \<Rightarrow> unit auth_op" where
  "revoke_admin_session now actor i st =
    (if i = cs_id actor then (Inl (AuthInvalid OwnSession), st)
     else (Inr (), audit_by actor ''rbac.session_revoke'' ''session'' i AuditSessionRevoked
            (forget_session i (revoke_session_record now i RevokedByAdmin st))))"

section \<open>Accounts\<close>

text \<open>
  The operations of an administrator. The actor is a session that authentication returned, so
  its account is a row of the table and the foreign keys of what it writes hold.
\<close>

definition replace_account_roles :: "int \<Rightarrow> int list \<Rightarrow> auth \<Rightarrow> auth" where
  "replace_account_roles account ids st = st\<lparr>account_roles :=
     fold (\<lambda>r. insert_link (account, r)) (unique_ids ids)
       (filter (\<lambda>(a, _). a \<noteq> account) (account_roles st))\<rparr>"

definition create_account ::
  "crates \<Rightarrow> time \<Rightarrow> ustr \<Rightarrow> current_session \<Rightarrow> ustr \<Rightarrow> ustr \<Rightarrow> ustr \<Rightarrow> int list \<Rightarrow> unit auth_op" where
  "create_account E now salt actor name display password ids st = (case normalize_username name of
     Inl e \<Rightarrow> (Inl e, st)
   | Inr username \<Rightarrow> (case hash_password E salt password of
       Inl e \<Rightarrow> (Inl e, st)
     | Inr hash \<Rightarrow> (case valid_active_role_ids st ids of
         Inl e \<Rightarrow> (Inl e, st)
       | Inr role_ids \<Rightarrow> (case role_names_summary st role_ids of
           Inl e \<Rightarrow> (Inl e, st)
         | Inr summary \<Rightarrow>
           let shown = display_name_of (Some display) username;
               row = new_account st username hash shown False now
           in if \<exists>a \<in> set (accounts st). acc_username a = username
              then (Inl (AuthConflict UsernameTaken), st)
              else (Inr (), audit_by actor ''rbac.account_create'' ''account'' (acc_id row)
                     (AuditAccountCreated shown username summary)
                     (replace_account_roles (acc_id row) role_ids
                       (st\<lparr> accounts := accounts st @ [row],
                            account_seq := account_seq st + 1 \<rparr>)))))))"

definition read_account_status :: "ustr \<Rightarrow> account_status option" where
  "read_account_status text =
    (if text = lit ''active'' then Some AccountActive
     else if text = lit ''disabled'' then Some AccountDisabled
     else if text = lit ''locked'' then Some AccountLocked else None)"

definition update_account_status :: "time \<Rightarrow> account_status \<Rightarrow> account_row \<Rightarrow> account_row" where
  "update_account_status now status a = a\<lparr>
     acc_status := status,
     acc_failed := (if status = AccountActive then 0 else acc_failed a),
     acc_locked_at :=
       (if status = AccountLocked \<and> acc_locked_at a = None then Some now
        else if status = AccountActive then None else acc_locked_at a),
     acc_locked_reason :=
       (if status = AccountLocked then LockedByAdmin
        else if status = AccountActive then NoLockReason else acc_locked_reason a) \<rparr>"

definition set_account_status :: "time \<Rightarrow> current_session \<Rightarrow> int \<Rightarrow> ustr \<Rightarrow> unit auth_op" where
  "set_account_status now actor account text st = (case read_account_status text of
     None \<Rightarrow> (Inl (AuthInvalid BadAccountStatus), st)
   | Some status \<Rightarrow>
     if account = aa_id (cs_account actor) \<and> status \<noteq> AccountActive
     then (Inl (AuthInvalid OwnAccountStatus), st)
     else case account_label st account of
       Inl e \<Rightarrow> (Inl e, st)
     | Inr label \<Rightarrow>
       let st1 = st\<lparr>accounts := modify (\<lambda>a. acc_id a = account) (update_account_status now status)
                      (accounts st)\<rparr>;
           (revoked, st2) =
             (if status \<noteq> AccountActive
              then revoke_sessions_by_account now account
                     (if status = AccountLocked then RevokedLocked else RevokedDisabled) st1
              else (0, st1))
       in (Inr (), audit_by actor ''rbac.account_status'' ''account'' account
             (AuditAccountStatus label status revoked) st2))"

definition set_password :: "time \<Rightarrow> int \<Rightarrow> ustr \<Rightarrow> auth \<Rightarrow> auth" where
  "set_password now account hash st = st\<lparr>accounts := modify (\<lambda>a. acc_id a = account)
     (\<lambda>a. a\<lparr> acc_password := hash, acc_password_changed := now \<rparr>) (accounts st)\<rparr>"

definition reset_account_password ::
  "crates \<Rightarrow> time \<Rightarrow> ustr \<Rightarrow> current_session \<Rightarrow> int \<Rightarrow> ustr \<Rightarrow> unit auth_op" where
  "reset_account_password E now salt actor account password st =
    (if account = aa_id (cs_account actor) then (Inl (AuthInvalid OwnPasswordReset), st)
     else case account_label st account of
       Inl e \<Rightarrow> (Inl e, st)
     | Inr label \<Rightarrow> (case hash_password E salt password of
         Inl e \<Rightarrow> (Inl e, st)
       | Inr hash \<Rightarrow>
         let (revoked, st1) = revoke_sessions_by_account now account RevokedPasswordReset
                                (set_password now account hash st)
         in (Inr (), audit_by actor ''rbac.account_reset_password'' ''account'' account
               (AuditPasswordReset label revoked) st1)))"

definition update_account_roles :: "time \<Rightarrow> current_session \<Rightarrow> int \<Rightarrow> int list \<Rightarrow> unit auth_op" where
  "update_account_roles now actor account ids st =
    (if account = aa_id (cs_account actor) then (Inl (AuthInvalid OwnRoles), st)
     else case account_label st account of
       Inl e \<Rightarrow> (Inl e, st)
     | Inr label \<Rightarrow> (case valid_active_role_ids st ids of
         Inl e \<Rightarrow> (Inl e, st)
       | Inr role_ids \<Rightarrow> (case role_names_summary st role_ids of
           Inl e \<Rightarrow> (Inl e, st)
         | Inr summary \<Rightarrow>
           let (revoked, st1) = revoke_sessions_by_account now account RevokedRoleChanged
                                  (replace_account_roles account role_ids st)
           in (Inr (), audit_by actor ''rbac.account_roles'' ''account'' account
                 (AuditAccountRoles label (account_role_names_summary st account) summary revoked)
                 st1))))"

definition change_own_password ::
  "crates \<Rightarrow> time \<Rightarrow> ustr \<Rightarrow> current_session \<Rightarrow> ustr \<Rightarrow> ustr \<Rightarrow> unit auth_op" where
  "change_own_password E now salt actor current new st = (case validate_password new of
     Inl e \<Rightarrow> (Inl e, st)
   | Inr _ \<Rightarrow> (case find (\<lambda>a. acc_id a = aa_id (cs_account actor)) (accounts st) of
       None \<Rightarrow> (Inl (AuthInternal DatabaseFailed), st)
     | Some a \<Rightarrow> (case verify_password E current (acc_password a) of
         Inl e \<Rightarrow> (Inl e, st)
       | Inr False \<Rightarrow> (Inl (AuthUnauthorized CurrentPasswordWrong), st)
       | Inr True \<Rightarrow> (case hash_password E salt new of
           Inl e \<Rightarrow> (Inl e, st)
         | Inr hash \<Rightarrow> (Inr (), audit_by actor ''profile.password_change'' ''account''
             (aa_id (cs_account actor)) AuditPasswordChanged
             (revoke_sessions (\<lambda>s. active_session_of (aa_id (cs_account actor)) s \<and> ses_id s \<noteq> cs_id actor)
               now RevokedPasswordChanged (set_password now (aa_id (cs_account actor)) hash st)))))))"

section \<open>Roles\<close>

definition replace_role_permissions :: "int \<Rightarrow> int list \<Rightarrow> auth \<Rightarrow> auth" where
  "replace_role_permissions role ids st = st\<lparr>role_permissions :=
     fold (\<lambda>p. insert_link (role, p)) (unique_ids ids)
       (filter (\<lambda>(r, _). r \<noteq> role) (role_permissions st))\<rparr>"

definition create_role ::
  "current_session \<Rightarrow> ustr \<Rightarrow> ustr \<Rightarrow> ustr \<Rightarrow> int list \<Rightarrow> unit auth_op" where
  "create_role actor code_text name_text description ids st = (case normalize_role_code code_text of
     Inl e \<Rightarrow> (Inl e, st)
   | Inr code \<Rightarrow>
     let name = trim name_text in
     if name = [] then (Inl (AuthInvalid RoleNameRequired), st)
     else case normalized_permission_ids st ids of
       Inl e \<Rightarrow> (Inl e, st)
     | Inr permission_ids \<Rightarrow>
       if \<exists>r \<in> set (roles st). role_code r = code then (Inl (AuthConflict RoleCodeTaken), st)
       else let row = \<lparr> role_id = role_seq st + 1, role_code = code, role_name = name,
                        role_description = trim description, role_status = RoleActive,
                        role_system = False \<rparr>
            in (Inr (), audit_by actor ''rbac.role_create'' ''role'' (role_id row)
                  (AuditRoleCreated name code (length permission_ids))
                  (replace_role_permissions (role_id row) permission_ids
                    (st\<lparr> roles := roles st @ [row], role_seq := role_seq st + 1 \<rparr>))))"

definition read_role_status :: "ustr \<Rightarrow> role_status option" where
  "read_role_status text =
    (if text = lit ''active'' then Some RoleActive
     else if text = lit ''disabled'' then Some RoleDisabled else None)"

definition set_role_status :: "time \<Rightarrow> current_session \<Rightarrow> int \<Rightarrow> ustr \<Rightarrow> unit auth_op" where
  "set_role_status now actor role text st = (case read_role_status text of
     None \<Rightarrow> (Inl (AuthInvalid BadRoleStatus), st)
   | Some status \<Rightarrow> (case ensure_custom_role st role of
       Inl e \<Rightarrow> (Inl e, st)
     | Inr _ \<Rightarrow> (case role_label st role of
         Inl e \<Rightarrow> (Inl e, st)
       | Inr label \<Rightarrow> (Inr (), audit_by actor ''rbac.role_status'' ''role'' role
           (AuditRoleStatus label status)
           (revoke_sessions_by_role now role RevokedRoleStatus
             (st\<lparr>roles := modify (\<lambda>r. role_id r = role) (\<lambda>r. r\<lparr>role_status := status\<rparr>)
                  (roles st)\<rparr>))))))"

definition update_role_permissions :: "time \<Rightarrow> current_session \<Rightarrow> int \<Rightarrow> int list \<Rightarrow> unit auth_op" where
  "update_role_permissions now actor role ids st = (case ensure_custom_role st role of
     Inl e \<Rightarrow> (Inl e, st)
   | Inr _ \<Rightarrow> (case role_label st role of
       Inl e \<Rightarrow> (Inl e, st)
     | Inr label \<Rightarrow> (case normalized_permission_ids st ids of
         Inl e \<Rightarrow> (Inl e, st)
       | Inr permission_ids \<Rightarrow> (Inr (), audit_by actor ''rbac.role_permissions'' ''role'' role
           (AuditRolePermissions label (role_permission_count st role) (length permission_ids))
           (revoke_sessions_by_role now role RevokedRolePermissions
             (replace_role_permissions role permission_ids st))))))"

section \<open>API tokens\<close>

record created_token =
  ct_token_id :: int
  ct_token :: ustr
  ct_token_prefix :: ustr
  ct_token_source :: ustr

text \<open>The defaults of the columns that creating a token leaves out.\<close>

definition new_token_row :: "auth \<Rightarrow> int \<Rightarrow> ustr \<Rightarrow> ustr \<Rightarrow> ustr \<Rightarrow> token_row" where
  "new_token_row st account hash prefix source = \<lparr> tok_id = token_seq st + 1, tok_account = account,
     tok_hash = hash, tok_prefix = prefix, tok_source = source, tok_status = TokenActive,
     tok_apps = lit ''[]'', tok_units = lit ''[]'', tok_expires = None, tok_rate = 60, tok_max = 2,
     tok_window_start = None, tok_window_count = 0, tok_active = 0, tok_last_used = None,
     tok_last_ip = [], tok_revoked_at = None \<rparr>"

definition create_api_token ::
  "crates \<Rightarrow> current_session \<Rightarrow> ustr \<Rightarrow> ustr option \<Rightarrow> created_token auth_op" where
  "create_api_token E actor source_text fresh st = (case normalize_api_token_source source_text of
     Inl e \<Rightarrow> (Inl e, st)
   | Inr source \<Rightarrow> (case fresh of
       None \<Rightarrow> (Inl (AuthInternal RandomFailed), st)
     | Some token \<Rightarrow>
       let hash = token_digest E token; prefix = token_prefix token;
           row = new_token_row st (aa_id (cs_account actor)) hash prefix source
       in if \<exists>t \<in> set (api_tokens st). tok_hash t = hash
          then (Inl (AuthInternal DatabaseFailed), st)
          else (Inr \<lparr> ct_token_id = tok_id row, ct_token = token, ct_token_prefix = prefix,
                     ct_token_source = source \<rparr>,
                audit_by actor ''api_tokens.create'' ''api_token'' (tok_id row)
                  (AuditTokenCreated source prefix)
                  (st\<lparr> api_tokens := api_tokens st @ [row], token_seq := token_seq st + 1 \<rparr>))))"

definition token_with :: "int \<Rightarrow> token_status \<Rightarrow> token_row \<Rightarrow> bool" where
  "token_with i status t \<longleftrightarrow> tok_id t = i \<and> tok_status t = status"

definition revoke_api_token :: "time \<Rightarrow> current_session \<Rightarrow> int \<Rightarrow> unit auth_op" where
  "revoke_api_token now actor i st = (case find (token_with i TokenActive) (api_tokens st) of
     None \<Rightarrow> (Inl (AuthInvalid TokenNotActive), st)
   | Some t \<Rightarrow> (Inr (), audit_by actor ''api_tokens.revoke'' ''api_token'' i
       (AuditTokenRevoked (tok_source t) (tok_prefix t))
       (st\<lparr>api_tokens := modify (token_with i TokenActive)
          (\<lambda>t. t\<lparr> tok_status := TokenRevoked, tok_revoked_at := Some now \<rparr>) (api_tokens st)\<rparr>)))"

definition delete_revoked_api_token :: "current_session \<Rightarrow> int \<Rightarrow> unit auth_op" where
  "delete_revoked_api_token actor i st = (case find (token_with i TokenRevoked) (api_tokens st) of
     None \<Rightarrow> (Inl (AuthInvalid TokenNotRevoked), st)
   | Some t \<Rightarrow> (Inr (), audit_by actor ''api_tokens.delete'' ''api_token'' i
       (AuditTokenDeleted (tok_source t) (tok_prefix t))
       (st\<lparr>api_tokens := filter (\<lambda>t. \<not> token_with i TokenRevoked t) (api_tokens st)\<rparr>)))"

record api_session =
  as_session :: current_session
  as_token :: int
  as_source :: ustr
  as_apps :: "int list"
  as_units :: "int list"

definition allows_app :: "api_session \<Rightarrow> int \<Rightarrow> bool" where
  "allows_app s app \<longleftrightarrow> app \<in> set (as_apps s)"

definition allows_unit :: "api_session \<Rightarrow> int \<Rightarrow> bool" where
  "allows_unit s unit \<longleftrightarrow> unit \<in> set (as_units s)"

definition window_over :: "time \<Rightarrow> token_row \<Rightarrow> bool" where
  "window_over now t \<longleftrightarrow>
     (case tok_window_start t of None \<Rightarrow> True | Some start \<Rightarrow> start + 60000 \<le> now)"

definition quota_left :: "time \<Rightarrow> token_row \<Rightarrow> bool" where
  "quota_left now t \<longleftrightarrow>
     tok_active t < tok_max t \<and> (window_over now t \<or> tok_window_count t < tok_rate t)"

definition use_quota :: "time \<Rightarrow> ustr \<Rightarrow> token_row \<Rightarrow> token_row" where
  "use_quota now ip t = t\<lparr>
     tok_window_count := (if window_over now t then 1 else tok_window_count t + 1),
     tok_window_start := (if window_over now t then Some now else tok_window_start t),
     tok_active := tok_active t + 1, tok_last_used := Some now, tok_last_ip := ip \<rparr>"

definition usable_token :: "auth \<Rightarrow> time \<Rightarrow> ustr \<Rightarrow> token_row \<Rightarrow> bool" where
  "usable_token st now hash t \<longleftrightarrow> tok_hash t = hash \<and> tok_status t = TokenActive \<and>
     (case tok_expires t of None \<Rightarrow> True | Some e \<Rightarrow> now < e) \<and> account_active st (tok_account t)"

definition api_current_session :: "auth \<Rightarrow> token_row \<Rightarrow> account_row \<Rightarrow> current_session" where
  "api_current_session st t a = \<lparr> cs_id = 0, cs_account = account_of a,
     cs_roles = role_codes st (acc_id a), cs_permissions = permission_keys st (acc_id a),
     cs_super = acc_super a, cs_csrf = [],
     cs_access = lit ''api:'' @ dec (tok_id t) @ lit '':'' @ tok_source t \<rparr>"

definition authenticate_api_token :: "crates \<Rightarrow> time \<Rightarrow> ustr \<Rightarrow> ustr \<Rightarrow> api_session auth_op" where
  "authenticate_api_token E now token ip st =
    (case find (usable_token st now (token_digest E token)) (api_tokens st) of
       None \<Rightarrow> (Inl (AuthUnauthorized TokenInvalid), st)
     | Some t \<Rightarrow> (case find (\<lambda>a. acc_id a = tok_account t) (accounts st) of
         None \<Rightarrow> (Inl (AuthUnauthorized TokenInvalid), st)
       | Some a \<Rightarrow> (case parse_ids E (tok_apps t) of
           None \<Rightarrow> (Inl (AuthInternal AppScopeBroken), st)
         | Some apps \<Rightarrow> (case parse_ids E (tok_units t) of
             None \<Rightarrow> (Inl (AuthInternal UnitScopeBroken), st)
           | Some us \<Rightarrow>
             if affected (\<lambda>u. tok_id u = tok_id t \<and> quota_left now u) (api_tokens st) \<noteq> 1
             then (Inl (AuthRateLimited QuotaExceeded), st)
             else (Inr \<lparr> as_session = api_current_session st t a, as_token = tok_id t,
                        as_source = tok_source t, as_apps = apps, as_units = us \<rparr>,
                   st\<lparr>api_tokens := modify (\<lambda>u. tok_id u = tok_id t \<and> quota_left now u)
                         (use_quota now ip) (api_tokens st)\<rparr>)))))"

text \<open>Dropping the permit of a request.\<close>

definition drop_permit :: "int \<Rightarrow> auth \<Rightarrow> auth" where
  "drop_permit i st = st\<lparr>api_tokens := modify (\<lambda>t. tok_id t = i)
     (\<lambda>t. t\<lparr>tok_active := max (tok_active t - 1) 0\<rparr>) (api_tokens st)\<rparr>"

section \<open>Starting the service\<close>

definition upsert_permission :: "permission_def \<Rightarrow> auth \<Rightarrow> auth" where
  "upsert_permission d st =
    (if \<exists>p \<in> set (permissions st). perm_key p = pd_key d
     then st\<lparr>permissions := modify (\<lambda>p. perm_key p = pd_key d)
               (\<lambda>p. p\<lparr> perm_resource := pd_resource d, perm_resource_key := pd_resource_key d \<rparr>)
               (permissions st)\<rparr>
     else st\<lparr> permissions := permissions st @
                [\<lparr> perm_id = permission_seq st + 1, perm_key = pd_key d,
                   perm_resource = pd_resource d, perm_resource_key = pd_resource_key d \<rparr>],
              permission_seq := permission_seq st + 1 \<rparr>)"

definition delete_permission :: "int \<Rightarrow> auth \<Rightarrow> auth" where
  "delete_permission i st = st\<lparr> role_permissions := filter (\<lambda>(_, p). p \<noteq> i) (role_permissions st),
     permissions := filter (\<lambda>p. perm_id p \<noteq> i) (permissions st) \<rparr>"

definition delete_stale_permissions :: "auth \<Rightarrow> auth" where
  "delete_stale_permissions st = fold delete_permission
     (map perm_id (filter (\<lambda>p. perm_key p \<notin> set (map pd_key all_permissions)) (permissions st))) st"

fun scope_ids :: "auth \<Rightarrow> permission_scope \<Rightarrow> int list" where
  "scope_ids st AllCurrent = sort (map perm_id (permissions st))"
| "scope_ids st (Explicit keys) = List.map_filter (\<lambda>k. id_of_key (permissions st) (lit k)) keys"

definition sync_role :: "string \<times> permission_scope \<Rightarrow> auth \<Rightarrow> auth" where
  "sync_role policy st = (case policy of (code, scope) \<Rightarrow>
     (case find (\<lambda>r. role_code r = lit code) (roles st) of
        None \<Rightarrow> st | Some r \<Rightarrow> replace_role_permissions (role_id r) (scope_ids st scope) st))"

definition sync_builtin_role_permissions :: "auth \<Rightarrow> auth" where
  "sync_builtin_role_permissions = fold sync_role builtin_role_policies"

definition sync_permission_registry :: "auth \<Rightarrow> auth" where
  "sync_permission_registry st = sync_builtin_role_permissions
     (delete_stale_permissions (fold upsert_permission all_permissions st))"

text \<open>A restart of the process: the sessions in memory are gone, then the registry is synchronised.\<close>

definition start_service :: "auth \<Rightarrow> auth" where
  "start_service st = sync_permission_registry (st\<lparr>session_store := empty_store\<rparr>)"

section \<open>Lists\<close>

definition list_role_options :: "auth \<Rightarrow> (int \<times> ustr \<times> ustr) list" where
  "list_role_options st = map (\<lambda>r. (role_id r, role_code r, role_name r)) (filter active_role (roles st))"

definition list_sessions :: "auth \<Rightarrow> (session_row \<times> account_row) list" where
  "list_sessions st = take 100 (rev (concat (map (\<lambda>s.
     map (Pair s) (filter (\<lambda>a. acc_id a = ses_account s) (accounts st))) (sessions st))))"

definition list_api_tokens :: "auth \<Rightarrow> (token_row \<times> account_row) list" where
  "list_api_tokens st = take 100 (rev (concat (map (\<lambda>t.
     map (Pair t) (filter (\<lambda>a. acc_id a = tok_account t) (accounts st))) (api_tokens st))))"

record audit_filter =
  af_action :: "ustr option"
  af_target_type :: "ustr option"
  af_actor :: "ustr option"
  af_query :: "ustr option"

definition normalize_audit_filter :: "audit_filter \<Rightarrow> audit_filter" where
  "normalize_audit_filter f = \<lparr> af_action = normalize_optional_filter (af_action f),
     af_target_type = normalize_optional_filter (af_target_type f),
     af_actor = map_option (take 80) (normalize_optional_filter (af_actor f)),
     af_query = map_option (take 120) (normalize_optional_filter (af_query f)) \<rparr>"

text \<open>The message is matched as it is shown; \<open>show\<close> is its text.\<close>

definition audit_filter_matches :: "(audit_memo \<Rightarrow> ustr) \<Rightarrow> audit_filter \<Rightarrow> audit_row \<Rightarrow> bool" where
  "audit_filter_matches show f a \<longleftrightarrow>
     opt_eq (af_action f) (aud_action a) \<and> opt_eq (af_target_type f) (aud_target_type a) \<and>
     (case af_actor f of None \<Rightarrow> True
      | Some x \<Rightarrow> like (lit ''%'' @ x @ lit ''%'') (aud_username a)) \<and>
     (case af_query f of None \<Rightarrow> True
      | Some q \<Rightarrow> (let pat = lit ''%'' @ q @ lit ''%'' in
          like pat (aud_action a) \<or> like pat (aud_target_type a) \<or> like pat (aud_target a) \<or>
          like pat (show (aud_message a)) \<or> like pat (aud_username a)))"

definition list_audit_logs_filtered :: "(audit_memo \<Rightarrow> ustr) \<Rightarrow> audit_filter \<Rightarrow> auth \<Rightarrow> audit_row list" where
  "list_audit_logs_filtered show f st = take 100 (rev (filter
     (audit_filter_matches show (normalize_audit_filter f)) (audits st)))"

definition audit_action_options :: "auth \<Rightarrow> ustr list" where
  "audit_action_options st =
     take 200 (sort (remdups (filter (\<lambda>a. a \<noteq> []) (map aud_action (audits st)))))"

definition audit_target_type_options :: "auth \<Rightarrow> ustr list" where
  "audit_target_type_options st =
     take 100 (sort (remdups (filter (\<lambda>a. a \<noteq> []) (map aud_target_type (audits st)))))"

end
