(* ===== verification/Auth_Invariant.thy ===== *)
theory Auth_Invariant
  imports Auth_Service
begin

text \<open>
  The steps of the authentication service, the states it reaches, and the invariant that a
  snapshot in the store whose session is still active shows the rights in the tables. Each
  operation has one preservation lemma; an operation that changes rights breaks the invariant
  for some accounts (\<open>auth_ok_but\<close>) and mends it by revoking their sessions.
\<close>

section \<open>What the service goes through\<close>

text \<open>An installation: the tables as the migrations leave them, with no account.\<close>

definition installed :: "auth \<Rightarrow> bool" where
  "installed st \<longleftrightarrow> accounts st = [] \<and> account_roles st = [] \<and> sessions st = [] \<and> api_tokens st = [] \<and>
     (\<forall>r \<in> set (roles st). role_id r \<le> role_seq st)"

inductive auth_step :: "crates \<Rightarrow> auth \<Rightarrow> auth \<Rightarrow> bool" for E where
  do_bootstrap: "auth_step E st (snd (bootstrap_init E now salt input fresh st))"
| do_login: "auth_step E st (snd (login E now input fresh st))"
| do_authenticate: "auth_step E st (snd (authenticate_access_token E now token st))"
| do_refresh: "auth_step E st (snd (refresh E now token fresh st))"
| do_logout: "auth_step E st (snd (logout now session st))"
| do_create_account: "auth_step E st (snd (create_account E now salt actor name display password ids st))"
| do_account_status: "auth_step E st (snd (set_account_status now actor account text st))"
| do_reset_password: "auth_step E st (snd (reset_account_password E now salt actor account password st))"
| do_account_roles: "auth_step E st (snd (update_account_roles now actor account ids st))"
| do_create_role: "auth_step E st (snd (create_role actor code name description ids st))"
| do_role_status: "auth_step E st (snd (set_role_status now actor role text st))"
| do_role_permissions: "auth_step E st (snd (update_role_permissions now actor role ids st))"
| do_change_password: "auth_step E st (snd (change_own_password E now salt actor current password st))"
| do_create_token: "auth_step E st (snd (create_api_token E actor source fresh_token st))"
| do_revoke_token: "auth_step E st (snd (revoke_api_token now actor i st))"
| do_delete_token: "auth_step E st (snd (delete_revoked_api_token actor i st))"
| do_api_request: "auth_step E st (snd (authenticate_api_token E now token ip st))"
| do_drop_permit: "auth_step E st (drop_permit i st)"
| do_revoke_session: "auth_step E st (snd (revoke_admin_session now actor i st))"
| do_audit: "auth_step E st (record_system_audit actor action kind target message st)"
| do_restart: "auth_step E st (start_service st)"

inductive auth_reachable :: "crates \<Rightarrow> auth \<Rightarrow> bool" for E where
  installation: "installed st \<Longrightarrow> auth_reachable E (start_service st)"
| step: "auth_reachable E st \<Longrightarrow> auth_step E st st' \<Longrightarrow> auth_reachable E st'"

section \<open>The invariant\<close>

text \<open>A snapshot shows what the tables say of its account now.\<close>

definition snapshot_current :: "auth \<Rightarrow> snapshot \<Rightarrow> bool" where
  "snapshot_current st s \<longleftrightarrow> aa_status (sn_account s) = AccountActive \<and>
     (\<exists>a \<in> set (accounts st). sn_account s = account_of a) \<and> sn_super s = aa_super (sn_account s) \<and>
     sn_roles s = role_codes st (aa_id (sn_account s)) \<and>
     sn_permissions s = permission_keys st (aa_id (sn_account s))"

definition row_of_snapshot :: "session_row \<Rightarrow> snapshot \<Rightarrow> bool" where
  "row_of_snapshot r s \<longleftrightarrow> ses_id r = sn_id s \<and> ses_access r = sn_access s \<and>
     ses_refresh r = sn_refresh s \<and> ses_account r = aa_id (sn_account s)"

definition held_ok :: "int set \<Rightarrow> auth \<Rightarrow> bool" where
  "held_ok X st \<longleftrightarrow> (\<forall>s \<in> store_held (session_store st). \<exists>r \<in> set (sessions st). row_of_snapshot r s \<and>
     (ses_status r = SessionActive \<longrightarrow> aa_id (sn_account s) \<notin> X \<longrightarrow> snapshot_current st s))"

definition rows_ok :: "auth \<Rightarrow> bool" where
  "rows_ok st \<longleftrightarrow> distinct (map acc_id (accounts st)) \<and> (\<forall>a \<in> set (accounts st). acc_id a \<le> account_seq st) \<and>
     distinct (map ses_id (sessions st)) \<and> (\<forall>r \<in> set (sessions st). ses_id r \<le> session_seq st) \<and>
     distinct (map ses_access (sessions st)) \<and> distinct (map ses_refresh (sessions st)) \<and>
     (\<forall>r \<in> set (roles st). role_id r \<le> role_seq st) \<and>
     (\<forall>(a, r) \<in> set (account_roles st). a \<le> account_seq st \<and> r \<le> role_seq st)"

text \<open>All snapshots are current, but maybe those of the accounts of a set.\<close>

definition auth_ok_but :: "int set \<Rightarrow> auth \<Rightarrow> bool" where
  "auth_ok_but X st \<longleftrightarrow> store_ok (session_store st) \<and> rows_ok st \<and> held_ok X st"

definition auth_ok :: "auth \<Rightarrow> bool" where
  "auth_ok = auth_ok_but {}"

lemma auth_ok_mono: "auth_ok_but X st \<Longrightarrow> X \<subseteq> Y \<Longrightarrow> auth_ok_but Y st"
  by (fastforce simp: auth_ok_but_def held_ok_def)

text \<open>Changes of other tables.\<close>

lemma rights_frame [simp]:
  "snapshot_current (st\<lparr>audits := x\<rparr>) = snapshot_current st"
  "snapshot_current (st\<lparr>api_tokens := t\<rparr>) = snapshot_current st"
  "snapshot_current (st\<lparr>token_seq := n\<rparr>) = snapshot_current st"
  "snapshot_current (st\<lparr>session_store := m\<rparr>) = snapshot_current st"
  "snapshot_current (st\<lparr>sessions := z\<rparr>) = snapshot_current st"
  "snapshot_current (st\<lparr>session_seq := n\<rparr>) = snapshot_current st"
  by (simp_all add: fun_eq_iff snapshot_current_def role_codes_def permission_keys_def held_roles_def)

lemma auth_ok_frame [simp]:
  "auth_ok_but X (st\<lparr>audits := x\<rparr>) = auth_ok_but X st"
  "auth_ok_but X (st\<lparr>api_tokens := t\<rparr>) = auth_ok_but X st"
  "auth_ok_but X (st\<lparr>token_seq := n\<rparr>) = auth_ok_but X st"
  by (simp_all add: auth_ok_but_def held_ok_def rows_ok_def)

lemma audit_frame [simp]: "auth_ok_but X (record_audit a u ac k t m ip ag st) = auth_ok_but X st"
  by (simp add: record_audit_def)

lemma audit_by_frame [simp]: "auth_ok_but X (audit_by actor ac k t m st) = auth_ok_but X st"
  by (simp add: audit_by_def)

lemma store_shrinks:
  assumes "auth_ok_but X st" and "store_ok m" and "store_held m \<subseteq> store_held (session_store st)"
  shows "auth_ok_but X (st\<lparr>session_store := m\<rparr>)"
proof -
  have "held_ok X st" using assms(1) by (simp add: auth_ok_but_def)
  then have "held_ok X (st\<lparr>session_store := m\<rparr>)"
    using assms(3) unfolding held_ok_def by simp blast
  with assms(1,2) show ?thesis by (simp add: auth_ok_but_def rows_ok_def)
qed

lemma revoke_keeps:
  assumes "auth_ok_but X st"
  shows "auth_ok_but X (revoke_sessions p now reason st)"
proof -
  let ?f = "\<lambda>s. s\<lparr> ses_status := SessionRevoked, ses_revoked_at := Some now, ses_reason := reason \<rparr>"
  have maps: "map ses_id (modify p ?f xs) = map ses_id xs" "map ses_access (modify p ?f xs) = map ses_access xs"
    "map ses_refresh (modify p ?f xs) = map ses_refresh xs" for xs
    by (simp_all add: map_modify)
  have ids: "(\<forall>r \<in> set (modify p ?f xs). ses_id r \<le> n) = (\<forall>r \<in> set xs. ses_id r \<le> n)" for xs n
    by (induction xs) auto
  have "held_ok X (revoke_sessions p now reason st)" unfolding held_ok_def
  proof
    fix s assume "s \<in> store_held (session_store (revoke_sessions p now reason st))"
    then obtain r where r: "r \<in> set (sessions st)" "row_of_snapshot r s"
      "ses_status r = SessionActive \<longrightarrow> aa_id (sn_account s) \<notin> X \<longrightarrow> snapshot_current st s"
      using assms by (auto simp: auth_ok_but_def held_ok_def revoke_sessions_def)
    let ?r = "if p r then ?f r else r"
    have "?r \<in> set (sessions (revoke_sessions p now reason st))"
      using r(1) by (auto simp: revoke_sessions_def set_modify)
    moreover have "row_of_snapshot ?r s" using r(2) by (simp add: row_of_snapshot_def)
    moreover have "ses_status ?r = SessionActive \<longrightarrow> aa_id (sn_account s) \<notin> X \<longrightarrow>
        snapshot_current (revoke_sessions p now reason st) s"
      using r(3) by (simp add: revoke_sessions_def)
    ultimately show "\<exists>r \<in> set (sessions (revoke_sessions p now reason st)). row_of_snapshot r s \<and>
      (ses_status r = SessionActive \<longrightarrow> aa_id (sn_account s) \<notin> X \<longrightarrow>
        snapshot_current (revoke_sessions p now reason st) s)" by blast
  qed
  with assms show ?thesis
    by (simp add: auth_ok_but_def rows_ok_def revoke_sessions_def maps ids)
qed

lemma forget_session_keeps: "auth_ok_but X st \<Longrightarrow> auth_ok_but X (forget_session i st)"
  unfolding forget_session_def
  by (rule store_shrinks) (auto simp: auth_ok_but_def dest: store_remove_id_law)

lemma forget_snapshot_keeps:
  assumes "auth_ok_but X st" and "s \<in> store_held (session_store st)"
  shows "auth_ok_but X (forget_snapshot s st)"
proof -
  have "store_ok (session_store st)" using assms(1) by (simp add: auth_ok_but_def)
  from store_remove_law [OF this assms(2)] show ?thesis
    unfolding forget_snapshot_def by (intro store_shrinks [OF assms(1)]) auto
qed

lemma revoke_account_keeps:
  assumes "auth_ok_but X st"
  shows "auth_ok_but (X - {a}) (snd (revoke_sessions_by_account now a reason st))"
proof -
  let ?m = "delete_sessions_by_account a (session_store st)"
  let ?st = "(revoke_sessions (active_session_of a) now reason st)\<lparr>session_store := ?m\<rparr>"
  have ok: "store_ok (session_store st)" using assms by (simp add: auth_ok_but_def)
  note m = store_remove_account_law [OF ok, of a]
  have same: "session_store (revoke_sessions (active_session_of a) now reason st) = session_store st"
    by (simp add: revoke_sessions_def)
  have "auth_ok_but X ?st"
    using m by (intro store_shrinks revoke_keeps assms) (auto simp: same)
  moreover have "held_ok (X - {a}) ?st" unfolding held_ok_def
  proof
    fix s assume "s \<in> store_held (session_store ?st)"
    then have s: "s \<in> store_held ?m" by simp
    then have "aa_id (sn_account s) \<noteq> a" using m by auto
    moreover obtain r where "r \<in> set (sessions ?st)" "row_of_snapshot r s"
      "ses_status r = SessionActive \<longrightarrow> aa_id (sn_account s) \<notin> X \<longrightarrow> snapshot_current ?st s"
      using \<open>auth_ok_but X ?st\<close> s unfolding auth_ok_but_def held_ok_def by (auto simp del: rights_frame)
    ultimately show "\<exists>r \<in> set (sessions ?st). row_of_snapshot r s \<and>
       (ses_status r = SessionActive \<longrightarrow> aa_id (sn_account s) \<notin> X - {a} \<longrightarrow> snapshot_current ?st s)"
      by blast
  qed
  ultimately show ?thesis by (simp add: auth_ok_but_def revoke_sessions_by_account_def)
qed

lemma revoke_accounts_keeps:
  "auth_ok_but X st \<Longrightarrow>
     auth_ok_but (X - set as) (fold (\<lambda>a st. snd (revoke_sessions_by_account now a reason st)) as st)"
proof (induction as arbitrary: X st)
  case (Cons a as)
  from Cons.IH [OF revoke_account_keeps [OF Cons.prems, of a now reason]]
  show ?case by (simp add: Diff_insert2 [symmetric])
qed simp

lemma revoke_role_keeps:
  assumes "auth_ok_but {a. (a, role) \<in> set (account_roles st)} st"
  shows "auth_ok (revoke_sessions_by_role now role reason st)"
proof -
  have "{a. (a, role) \<in> set (account_roles st)} - set (map fst (filter (\<lambda>(_, r). r = role) (account_roles st))) = {}"
    by force
  with revoke_accounts_keeps [OF assms, of "map fst (filter (\<lambda>(_, r). r = role) (account_roles st))" now reason]
  show ?thesis by (simp only: auth_ok_def revoke_sessions_by_role_def)
qed

section \<open>Changes of accounts and rights\<close>

text \<open>Rights of an account depend on the roles it holds and on their permissions.\<close>

lemma rights_cong:
  assumes "held_roles st' a = held_roles st a" and "permissions st' = permissions st"
    and "\<And>r p. r \<in> set (held_roles st a) \<Longrightarrow>
       (role_id r, p) \<in> set (role_permissions st') \<longleftrightarrow> (role_id r, p) \<in> set (role_permissions st)"
  shows "role_codes st' a = role_codes st a" and "permission_keys st' a = permission_keys st a"
proof -
  show "role_codes st' a = role_codes st a" by (simp add: role_codes_def assms(1))
  have "(\<exists>r \<in> set (held_roles st a). (role_id r, perm_id p) \<in> set (role_permissions st')) \<longleftrightarrow>
        (\<exists>r \<in> set (held_roles st a). (role_id r, perm_id p) \<in> set (role_permissions st))" for p :: permission_row
    using assms(3) by blast
  then show "permission_keys st' a = permission_keys st a"
    by (simp add: permission_keys_def assms(1,2))
qed

lemma snapshot_current_cong:
  assumes "snapshot_current st s" and "held_roles st' (aa_id (sn_account s)) = held_roles st (aa_id (sn_account s))"
    and "permissions st' = permissions st"
    and "\<And>r p. r \<in> set (held_roles st (aa_id (sn_account s))) \<Longrightarrow>
       (role_id r, p) \<in> set (role_permissions st') \<longleftrightarrow> (role_id r, p) \<in> set (role_permissions st)"
    and "\<And>a. a \<in> set (accounts st) \<Longrightarrow> acc_id a = aa_id (sn_account s) \<Longrightarrow> sn_account s = account_of a \<Longrightarrow>
       \<exists>b \<in> set (accounts st'). account_of b = account_of a"
  shows "snapshot_current st' s"
proof -
  obtain a where "a \<in> set (accounts st)" "sn_account s = account_of a"
    using assms(1) by (auto simp: snapshot_current_def)
  moreover from this have "acc_id a = aa_id (sn_account s)" by (simp add: account_of_def)
  ultimately obtain b where "b \<in> set (accounts st')" "account_of b = account_of a" using assms(5) by blast
  then have "\<exists>b \<in> set (accounts st'). sn_account s = account_of b"
    using \<open>sn_account s = account_of a\<close> by metis
  with assms(1) show ?thesis
    by (simp add: snapshot_current_def rights_cong [OF assms(2,3,4)])
qed

lemma auth_ok_change:
  assumes ok: "auth_ok_but X st" and "X \<subseteq> Y"
    and same: "sessions st' = sessions st" "session_seq st' = session_seq st"
      "session_store st' = session_store st"
    and rows: "distinct (map acc_id (accounts st'))" "\<forall>a \<in> set (accounts st'). acc_id a \<le> account_seq st'"
      "\<forall>r \<in> set (roles st'). role_id r \<le> role_seq st'"
      "\<forall>(a, r) \<in> set (account_roles st'). a \<le> account_seq st' \<and> r \<le> role_seq st'"
    and current: "\<And>s. snapshot_current st s \<Longrightarrow> aa_id (sn_account s) \<notin> Y \<Longrightarrow> snapshot_current st' s"
  shows "auth_ok_but Y st'"
proof -
  have "rows_ok st'" using ok rows by (auto simp: auth_ok_but_def rows_ok_def same)
  moreover have "held_ok Y st'"
    unfolding held_ok_def same
  proof
    fix s assume "s \<in> store_held (session_store st)"
    then obtain r where "r \<in> set (sessions st)" "row_of_snapshot r s"
      "ses_status r = SessionActive \<longrightarrow> aa_id (sn_account s) \<notin> X \<longrightarrow> snapshot_current st s"
      using ok by (auto simp: auth_ok_but_def held_ok_def)
    then show "\<exists>r \<in> set (sessions st). row_of_snapshot r s \<and>
       (ses_status r = SessionActive \<longrightarrow> aa_id (sn_account s) \<notin> Y \<longrightarrow> snapshot_current st' s)"
      using current \<open>X \<subseteq> Y\<close> by blast
  qed
  ultimately show ?thesis using ok by (simp add: auth_ok_but_def same)
qed

lemma auth_okD:
  assumes "auth_ok_but X st"
  shows "distinct (map acc_id (accounts st))" "\<forall>a \<in> set (accounts st). acc_id a \<le> account_seq st"
    "\<forall>r \<in> set (roles st). role_id r \<le> role_seq st"
    "\<forall>(a, r) \<in> set (account_roles st). a \<le> account_seq st \<and> r \<le> role_seq st"
    "store_ok (session_store st)"
  using assms by (simp_all add: auth_ok_but_def rows_ok_def)

lemma accounts_change:
  assumes ok: "auth_ok_but X st"
    and ids: "\<And>a. acc_id (f a) = acc_id a"
    and others: "\<And>a. p a \<Longrightarrow> acc_id a \<in> Y \<or> account_of (f a) = account_of a"
  shows "auth_ok_but (X \<union> Y) (st\<lparr>accounts := modify p f (accounts st)\<rparr>)"
proof (rule auth_ok_change [OF ok])
  have "map acc_id (modify p f (accounts st)) = map acc_id (accounts st)" by (simp add: map_modify ids)
  then show "distinct (map acc_id (accounts (st\<lparr>accounts := modify p f (accounts st)\<rparr>)))"
    using auth_okD(1) [OF ok] by simp
  show "\<forall>a \<in> set (accounts (st\<lparr>accounts := modify p f (accounts st)\<rparr>)).
      acc_id a \<le> account_seq (st\<lparr>accounts := modify p f (accounts st)\<rparr>)"
    using auth_okD(2) [OF ok] by (auto simp: set_modify ids)
  fix s assume cur: "snapshot_current st s" and notin: "aa_id (sn_account s) \<notin> X \<union> Y"
  show "snapshot_current (st\<lparr>accounts := modify p f (accounts st)\<rparr>) s"
  proof (rule snapshot_current_cong [OF cur])
    fix a assume a: "a \<in> set (accounts st)" "acc_id a = aa_id (sn_account s)"
    let ?b = "if p a then f a else a"
    have "?b \<in> set (modify p f (accounts st))" using a(1) by (auto simp: set_modify)
    moreover have "account_of ?b = account_of a" using others [of a] notin a(2) by auto
    ultimately show "\<exists>b \<in> set (accounts (st\<lparr>accounts := modify p f (accounts st)\<rparr>)). account_of b = account_of a"
      by auto
  qed (simp_all add: held_roles_def)
qed (use auth_okD(3,4) [OF ok] in simp_all)

lemma accounts_keep:
  assumes "auth_ok_but X st" and "\<And>a. account_of (f a) = account_of a"
  shows "auth_ok_but X (st\<lparr>accounts := modify p f (accounts st)\<rparr>)"
proof -
  have "acc_id (f a) = acc_id a" for a using assms(2) [of a] by (simp add: account_of_def)
  from accounts_change [OF assms(1) this, of p "{}"] assms(2) show ?thesis by simp
qed

lemma account_of_updates [simp]:
  "account_of (a\<lparr>acc_failed := n\<rparr>) = account_of a" "account_of (a\<lparr>acc_locked_at := t\<rparr>) = account_of a"
  "account_of (a\<lparr>acc_locked_reason := l\<rparr>) = account_of a" "account_of (a\<lparr>acc_last_login := t\<rparr>) = account_of a"
  "account_of (a\<lparr>acc_last_ip := x\<rparr>) = account_of a" "account_of (a\<lparr>acc_password := x\<rparr>) = account_of a"
  "account_of (a\<lparr>acc_password_changed := w\<rparr>) = account_of a"
  by (simp_all add: account_of_def)

lemma fold_insert_link: "set (fold insert_link ls xs) = set ls \<union> set xs"
  by (induction ls arbitrary: xs) (auto simp: insert_link_def)

lemma fold_insert_link_map: "set (fold (\<lambda>r. insert_link (f r)) ls xs) = f ` set ls \<union> set xs"
  by (induction ls arbitrary: xs) (auto simp: insert_link_def)

lemma set_unique_ids [simp]: "set (unique_ids ids) = set ids"
  by (simp add: unique_ids_def)

lemma account_roles_replaced:
  "set (account_roles (replace_account_roles a ids st)) =
     {(a', r) \<in> set (account_roles st). a' \<noteq> a} \<union> (\<lambda>r. (a, r)) ` set ids"
  by (auto simp: replace_account_roles_def fold_insert_link_map)

lemma role_permissions_replaced:
  "set (role_permissions (replace_role_permissions r ids st)) =
     {(r', p) \<in> set (role_permissions st). r' \<noteq> r} \<union> (\<lambda>p. (r, p)) ` set ids"
  by (auto simp: replace_role_permissions_def fold_insert_link_map)

lemma replace_account_roles_fields [simp]:
  "accounts (replace_account_roles a ids st) = accounts st" "roles (replace_account_roles a ids st) = roles st"
  "permissions (replace_account_roles a ids st) = permissions st"
  "role_permissions (replace_account_roles a ids st) = role_permissions st"
  "sessions (replace_account_roles a ids st) = sessions st"
  "session_seq (replace_account_roles a ids st) = session_seq st"
  "account_seq (replace_account_roles a ids st) = account_seq st"
  "role_seq (replace_account_roles a ids st) = role_seq st"
  "session_store (replace_account_roles a ids st) = session_store st"
  by (simp_all add: replace_account_roles_def)

lemma replace_role_permissions_fields [simp]:
  "accounts (replace_role_permissions r ids st) = accounts st" "roles (replace_role_permissions r ids st) = roles st"
  "permissions (replace_role_permissions r ids st) = permissions st"
  "account_roles (replace_role_permissions r ids st) = account_roles st"
  "sessions (replace_role_permissions r ids st) = sessions st"
  "session_seq (replace_role_permissions r ids st) = session_seq st"
  "account_seq (replace_role_permissions r ids st) = account_seq st"
  "role_seq (replace_role_permissions r ids st) = role_seq st"
  "session_store (replace_role_permissions r ids st) = session_store st"
  by (simp_all add: replace_role_permissions_def)

lemma held_roles_replaced: "b \<noteq> a \<Longrightarrow> held_roles (replace_account_roles a ids st) b = held_roles st b"
  by (simp add: held_roles_def account_roles_replaced cong: conj_cong) (metis (no_types, lifting) imageE prod.inject)

lemma account_roles_change:
  assumes ok: "auth_ok_but X st" and a: "a \<le> account_seq st" and ids: "\<forall>r \<in> set ids. r \<le> role_seq st"
  shows "auth_ok_but (insert a X) (replace_account_roles a ids st)"
proof (rule auth_ok_change [OF ok])
  show "\<forall>(b, r) \<in> set (account_roles (replace_account_roles a ids st)).
      b \<le> account_seq (replace_account_roles a ids st) \<and> r \<le> role_seq (replace_account_roles a ids st)"
    using auth_okD(4) [OF ok] a ids by (auto simp: account_roles_replaced)
  fix s assume "snapshot_current st s" and "aa_id (sn_account s) \<notin> insert a X"
  then show "snapshot_current (replace_account_roles a ids st) s"
    by (rule_tac snapshot_current_cong) (auto simp: held_roles_replaced)
qed (use auth_okD(1-3) [OF ok] in auto)

lemma role_permissions_change:
  assumes ok: "auth_ok_but X st"
  shows "auth_ok_but (X \<union> {a. (a, role) \<in> set (account_roles st)}) (replace_role_permissions role ids st)"
proof (rule auth_ok_change [OF ok])
  fix s assume cur: "snapshot_current st s"
    and notin: "aa_id (sn_account s) \<notin> X \<union> {a. (a, role) \<in> set (account_roles st)}"
  show "snapshot_current (replace_role_permissions role ids st) s"
  proof (rule snapshot_current_cong [OF cur])
    show "held_roles (replace_role_permissions role ids st) (aa_id (sn_account s)) =
        held_roles st (aa_id (sn_account s))" by (simp add: held_roles_def)
    fix r p assume "r \<in> set (held_roles st (aa_id (sn_account s)))"
    then have "role_id r \<noteq> role" using notin by (auto simp: held_roles_def)
    then show "(role_id r, p) \<in> set (role_permissions (replace_role_permissions role ids st)) \<longleftrightarrow>
        (role_id r, p) \<in> set (role_permissions st)"
      by (auto simp: role_permissions_replaced)
  qed auto
qed (use auth_okD(1-4) [OF ok] in auto)

lemma roles_change:
  assumes ok: "auth_ok_but X st" and ids: "\<And>r. role_id (f r) = role_id r"
  shows "auth_ok_but (X \<union> {a. (a, role) \<in> set (account_roles st)})
     (st\<lparr>roles := modify (\<lambda>r. role_id r = role) f (roles st)\<rparr>)"
proof (rule auth_ok_change [OF ok])
  let ?st = "st\<lparr>roles := modify (\<lambda>r. role_id r = role) f (roles st)\<rparr>"
  show "\<forall>r \<in> set (roles ?st). role_id r \<le> role_seq ?st"
    using auth_okD(3) [OF ok] by (auto simp: set_modify ids)
  fix s assume cur: "snapshot_current st s"
    and notin: "aa_id (sn_account s) \<notin> X \<union> {a. (a, role) \<in> set (account_roles st)}"
  have "held_roles ?st (aa_id (sn_account s)) = held_roles st (aa_id (sn_account s))"
  proof -
    have "filter q (modify (\<lambda>r. role_id r = role) f xs) = filter q xs"
      if "\<And>r. role_id r = role \<Longrightarrow> \<not> q r \<and> \<not> q (f r)" for q and xs :: "role_row list"
      using that by (rule filter_modify_disjoint)
    then show ?thesis using notin by (simp add: held_roles_def ids)
  qed
  then show "snapshot_current ?st s" by (rule_tac snapshot_current_cong [OF cur]) auto
qed (use auth_okD(1,2,4) [OF ok] in auto)

lemma new_account_keeps:
  assumes ok: "auth_ok_but X st" and row: "acc_id row = account_seq st + 1"
  shows "auth_ok_but X (st\<lparr>accounts := accounts st @ [row], account_seq := account_seq st + 1\<rparr>)"
proof (rule auth_ok_change [OF ok])
  let ?st = "st\<lparr>accounts := accounts st @ [row], account_seq := account_seq st + 1\<rparr>"
  show "distinct (map acc_id (accounts ?st))" using auth_okD(1,2) [OF ok] row by fastforce
  show "\<forall>a \<in> set (accounts ?st). acc_id a \<le> account_seq ?st" using auth_okD(2) [OF ok] row by auto
  show "\<forall>(a, r) \<in> set (account_roles ?st). a \<le> account_seq ?st \<and> r \<le> role_seq ?st"
    using auth_okD(4) [OF ok] by auto
  fix s assume "snapshot_current st s"
  then show "snapshot_current ?st s" by (rule snapshot_current_cong) (auto simp: held_roles_def)
qed (use auth_okD(3) [OF ok] in auto)

lemma new_role_keeps:
  assumes ok: "auth_ok_but X st" and row: "role_id row = role_seq st + 1"
  shows "auth_ok_but X (st\<lparr>roles := roles st @ [row], role_seq := role_seq st + 1\<rparr>)"
proof (rule auth_ok_change [OF ok])
  let ?st = "st\<lparr>roles := roles st @ [row], role_seq := role_seq st + 1\<rparr>"
  have new: "(a, role_id row) \<notin> set (account_roles st)" for a using auth_okD(4) [OF ok] row by force
  show "\<forall>r \<in> set (roles ?st). role_id r \<le> role_seq ?st" using auth_okD(3) [OF ok] row by auto
  show "\<forall>(a, r) \<in> set (account_roles ?st). a \<le> account_seq ?st \<and> r \<le> role_seq ?st"
    using auth_okD(4) [OF ok] by auto
  fix s assume "snapshot_current st s"
  then show "snapshot_current ?st s" by (rule snapshot_current_cong) (auto simp: held_roles_def new)
qed (use auth_okD(1,2) [OF ok] in auto)

section \<open>Every operation keeps the invariant\<close>

lemma held_has_row:
  assumes "auth_ok_but X st" and "s \<in> store_held (session_store st)"
  obtains r where "r \<in> set (sessions st)" "row_of_snapshot r s"
    "ses_status r = SessionActive \<Longrightarrow> aa_id (sn_account s) \<notin> X \<Longrightarrow> snapshot_current st s"
  using assms by (auto simp: auth_ok_but_def held_ok_def)

lemma issued_Inr:
  assumes "issue_session E now account ip agent fresh st = (Inr x, st')"
  obtains t s where "fresh = Some t" "s = new_snapshot E st account t"
    "\<forall>r \<in> set (sessions st). ses_access r \<noteq> sn_access s \<and> ses_refresh r \<noteq> sn_refresh s"
    "x = \<lparr> ar_session = snapshot_session s, ar_access = new_access t, ar_refresh = new_refresh t \<rparr>"
    "st' = st\<lparr> sessions := sessions st @ [new_session_row now s ip agent],
       session_seq := session_seq st + 1, session_store := store_save s (session_store st) \<rparr>"
  using assms by (auto simp: issue_session_def Let_def split: option.splits if_splits)

lemma issued_Inl: "issue_session E now account ip agent fresh st = (Inl e, st') \<Longrightarrow> st' = st"
  by (auto simp: issue_session_def Let_def split: option.splits if_splits)

lemma issued_saves:
  assumes ok: "auth_ok_but X st" and s: "sn_id s = session_seq st + 1"
    and new: "\<forall>r \<in> set (sessions st). ses_access r \<noteq> sn_access s \<and> ses_refresh r \<noteq> sn_refresh s"
  shows "store_ok (store_save s (session_store st))"
    and "store_held (store_save s (session_store st)) = insert s (store_held (session_store st))"
proof -
  have "\<not> clashes s t" if mem: "t \<in> store_held (session_store st)" for t
  proof -
    obtain r where r: "r \<in> set (sessions st)" "row_of_snapshot r t" using ok mem by (rule held_has_row) blast
    then have "sn_id t \<le> session_seq st" using ok by (auto simp: auth_ok_but_def rows_ok_def row_of_snapshot_def)
    then show ?thesis using r new s by (auto simp: clashes_def row_of_snapshot_def)
  qed
  then show "store_ok (store_save s (session_store st))"
    "store_held (store_save s (session_store st)) = insert s (store_held (session_store st))"
    using store_save_law [OF auth_okD(5) [OF ok], of s] by auto
qed

lemma issue_keeps:
  assumes ok: "auth_ok st" and a: "a \<in> set (accounts st)" "acc_status a = AccountActive"
  shows "auth_ok (snd (issue_session E now (account_of a) ip agent fresh st))"
proof (cases "issue_session E now (account_of a) ip agent fresh st")
  case (Pair res st')
  show ?thesis
  proof (cases res)
    case (Inl e)
    with Pair ok issued_Inl show ?thesis by fastforce
  next
    case (Inr x)
    from Pair [unfolded Inr] obtain t s where s: "s = new_snapshot E st (account_of a) t"
      and new: "\<forall>r \<in> set (sessions st). ses_access r \<noteq> sn_access s \<and> ses_refresh r \<noteq> sn_refresh s"
      and st': "st' = st\<lparr> sessions := sessions st @ [new_session_row now s ip agent],
         session_seq := session_seq st + 1, session_store := store_save s (session_store st) \<rparr>"
      by (rule issued_Inr) blast
    have ok': "auth_ok_but {} st" using ok by (simp add: auth_ok_def)
    have sid: "sn_id s = session_seq st + 1" by (simp add: s new_snapshot_def)
    note saved = issued_saves [OF ok' sid new]
    have row: "row_of_snapshot (new_session_row now s ip agent) s"
      by (simp add: row_of_snapshot_def new_session_row_def)
    have rows: "rows_ok st" using ok' by (simp add: auth_ok_but_def)
    have "rows_ok st'"
    proof -
      let ?n = "new_session_row now s ip agent"
      have "ses_id ?n = session_seq st + 1" "ses_access ?n = sn_access s" "ses_refresh ?n = sn_refresh s"
        by (simp_all add: new_session_row_def sid)
      with rows new show ?thesis unfolding st' rows_ok_def by force
    qed
    moreover have "snapshot_current st s" using a
      by (auto simp: s snapshot_current_def new_snapshot_def account_of_def)
    then have "held_ok {} st'" unfolding held_ok_def
    proof (intro ballI)
      fix u assume u: "u \<in> store_held (session_store st')"
      show "\<exists>r \<in> set (sessions st'). row_of_snapshot r u \<and>
        (ses_status r = SessionActive \<longrightarrow> aa_id (sn_account u) \<notin> {} \<longrightarrow> snapshot_current st' u)"
      proof (cases "u = s")
        case True
        with row \<open>snapshot_current st s\<close> show ?thesis by (auto simp: st')
      next
        case False
        then have "u \<in> store_held (session_store st)" using u saved(2) by (simp add: st')
        with ok' obtain r where "r \<in> set (sessions st)" "row_of_snapshot r u"
          "ses_status r = SessionActive \<Longrightarrow> aa_id (sn_account u) \<notin> {} \<Longrightarrow> snapshot_current st u"
          by (rule held_has_row) blast
        then show ?thesis by (auto simp: st')
      qed
    qed
    ultimately show ?thesis using saved(1) Pair by (simp add: auth_ok_def auth_ok_but_def st')
  qed
qed

lemma auth_ok_audit [simp]: "auth_ok (record_audit a u ac k t m ip ag st) = auth_ok st"
  "auth_ok (audit_by actor ac k i m st) = auth_ok st"
  by (simp_all add: auth_ok_def)

lemma auth_ok_tokens [simp]: "auth_ok (st\<lparr>api_tokens := x\<rparr>) = auth_ok st"
  "auth_ok (st\<lparr>api_tokens := x, token_seq := n\<rparr>) = auth_ok st"
  by (simp_all add: auth_ok_def)

lemma auth_ok_keep:
  "auth_ok st \<Longrightarrow> auth_ok (revoke_sessions p now reason st)"
  "auth_ok st \<Longrightarrow> auth_ok (forget_session i st)"
  "auth_ok st \<Longrightarrow> s \<in> store_held (session_store st) \<Longrightarrow> auth_ok (forget_snapshot s st)"
  "auth_ok st \<Longrightarrow> (\<And>a. account_of (f a) = account_of a) \<Longrightarrow>
     auth_ok (st\<lparr>accounts := modify q f (accounts st)\<rparr>)"
  unfolding auth_ok_def by (blast intro: revoke_keeps forget_session_keeps forget_snapshot_keeps accounts_keep)+

lemma revoked_account_ok:
  "auth_ok_but {a} st \<Longrightarrow> auth_ok (snd (revoke_sessions_by_account now a reason st))"
  using revoke_account_keeps [of "{a}" st a now reason] by (simp add: auth_ok_def)

lemma record_login_keeps: "auth_ok st \<Longrightarrow> auth_ok (record_login now i ip st)"
  unfolding record_login_def by (rule auth_ok_keep(4)) simp_all

lemma set_password_keeps: "auth_ok st \<Longrightarrow> auth_ok (set_password now i hash st)"
  unfolding set_password_def by (rule auth_ok_keep(4)) simp_all

lemma failed_login_keeps:
  "auth_ok st \<Longrightarrow> auth_ok_but {i} (record_failed_login now i n True st)"
  "auth_ok st \<Longrightarrow> auth_ok (record_failed_login now i n False st)"
proof -
  assume ok: "auth_ok st"
  show "auth_ok_but {i} (record_failed_login now i n True st)"
    using accounts_change [OF ok [unfolded auth_ok_def], where Y = "{i}" and p = "\<lambda>a. acc_id a = i"]
    by (simp add: record_failed_login_def)
  show "auth_ok (record_failed_login now i n False st)"
    unfolding record_failed_login_def by (rule auth_ok_keep(4) [OF ok]) (simp add: account_of_def)
qed

lemma wrong_password_keeps: "auth_ok st \<Longrightarrow> auth_ok (wrong_password now input a st)"
  using failed_login_keeps [where st = st and i = "acc_id a" and now = now and n = "acc_failed a + 1"]
  by (auto simp: wrong_password_def Let_def login_failed_def intro: revoked_account_ok)

lemma login_keeps: "auth_ok st \<Longrightarrow> auth_ok (snd (login E now input fresh st))"
proof -
  assume ok: "auth_ok st"
  have issued: "auth_ok st1"
    if "issue_session E now (account_of a) ip agent fresh st = (res, st1)"
      "find (\<lambda>a. acc_username a = u) (accounts st) = Some a" "acc_status a = AccountActive" for res st1 a ip agent u
    using issue_keeps [OF ok, of a E now ip agent fresh] that by (auto dest: find_SomeD)
  show ?thesis
    using ok by (auto simp: login_def Let_def login_failed_def wrong_password_keeps
        split: sum.split option.split bool.split prod.split intro!: record_login_keeps dest: issued)
qed

lemma bootstrap_keeps: "auth_ok st \<Longrightarrow> auth_ok (snd (bootstrap_init E now salt input fresh st))"
proof -
  assume ok: "auth_ok st"
  have "auth_ok (st\<lparr> accounts := accounts st @ [row], account_seq := account_seq st + 1,
      account_roles := insert_link (acc_id row, role_id r) (account_roles st) \<rparr>)"
    if row: "acc_id row = account_seq st + 1" and r: "r \<in> set (roles st)" for row r
  proof -
    have "auth_ok_but {} st" using ok by (simp add: auth_ok_def)
    from new_account_keeps [OF this row]
    have ok1: "auth_ok_but {} (st\<lparr>accounts := accounts st @ [row], account_seq := account_seq st + 1\<rparr>)" .
    have none: "aa_id (sn_account s) \<noteq> acc_id row" if "snapshot_current st s" for s
      using that auth_okD(2) [OF \<open>auth_ok_but {} st\<close>] row
      by (auto simp: snapshot_current_def account_of_def)
    show ?thesis unfolding auth_ok_def
    proof (rule auth_ok_change [OF ok [unfolded auth_ok_def]])
      let ?st = "st\<lparr> accounts := accounts st @ [row], account_seq := account_seq st + 1,
        account_roles := insert_link (acc_id row, role_id r) (account_roles st) \<rparr>"
      show "\<forall>(a, r) \<in> set (account_roles ?st). a \<le> account_seq ?st \<and> r \<le> role_seq ?st"
        using auth_okD(3,4) [OF \<open>auth_ok_but {} st\<close>] row r by (auto simp: insert_link_def)
      fix s assume cur: "snapshot_current st s"
      show "snapshot_current ?st s"
        by (rule snapshot_current_cong [OF cur])
          (use none [OF cur] in \<open>auto simp: held_roles_def insert_link_def intro!: filter_cong\<close>)
    qed (use auth_okD(1,2,3) [OF ok1] in auto)
  qed
  then show ?thesis
    using ok by (auto simp: bootstrap_init_def Let_def new_account_def dest: find_SomeD
        split: sum.split option.split intro!: login_keeps)
qed

lemma authenticate_keeps: "auth_ok st \<Longrightarrow> auth_ok (snd (authenticate_access_token E now token st))"
  using store_by_access [of "session_store st" "token_digest E token"]
  by (auto simp: authenticate_access_token_def Let_def auth_ok_def dest: auth_okD(5)
      split: option.split intro: auth_ok_keep(3) [unfolded auth_ok_def])

lemma refresh_keeps: "auth_ok st \<Longrightarrow> auth_ok (snd (refresh E now token fresh st))"
proof -
  assume ok: "auth_ok st"
  have held: "s \<in> store_held (session_store st)"
    if "get_by_refresh_hash (session_store st) h = Some s" for s h
    using that store_by_refresh [of "session_store st" h s] ok auth_okD(5) by (auto simp: auth_ok_def)
  have issued: "auth_ok st1"
    if "issue_session E now (account_of a) [] [] fresh st = (res, st1)"
      "find (\<lambda>a. acc_id a = i) (accounts st) = Some a" "acc_status a = AccountActive" for res st1 a i
    using issue_keeps [OF ok, of a E now "[]" "[]" fresh] that by (auto dest: find_SomeD)
  show ?thesis
    using ok by (auto simp: refresh_def Let_def revoke_session_record_def
        split: sum.split option.split prod.split intro!: auth_ok_keep dest: issued held)
qed

lemma valid_roles_exist:
  "valid_active_role_ids st ids = Inr us \<Longrightarrow> \<forall>r \<in> set us. \<exists>row \<in> set (roles st). role_id row = r"
  by (auto simp: valid_active_role_ids_def Let_def affected_0 split: if_splits)

lemma valid_roles_bounded:
  "auth_ok_but X st \<Longrightarrow> valid_active_role_ids st ids = Inr us \<Longrightarrow> \<forall>r \<in> set us. r \<le> role_seq st"
  using valid_roles_exist [of st ids us] auth_okD(3) [of X st] by fastforce

lemma account_label_exists:
  "account_label st i = Inr l \<Longrightarrow> \<exists>a \<in> set (accounts st). acc_id a = i"
  by (auto simp: account_label_def split: option.splits dest: find_SomeD)

lemma logout_keeps: "auth_ok st \<Longrightarrow> auth_ok (snd (logout now session st))"
  by (simp add: logout_def revoke_session_record_def auth_ok_keep)

lemma revoke_admin_keeps: "auth_ok st \<Longrightarrow> auth_ok (snd (revoke_admin_session now actor i st))"
  by (simp add: revoke_admin_session_def revoke_session_record_def auth_ok_keep)

lemma create_account_keeps: "auth_ok st \<Longrightarrow> auth_ok (snd (create_account E now salt actor name display password ids st))"
proof -
  assume ok: "auth_ok st"
  have "auth_ok (replace_account_roles (acc_id row) us
      (st\<lparr>accounts := accounts st @ [row], account_seq := account_seq st + 1\<rparr>))"
    if row: "acc_id row = account_seq st + 1" and us: "valid_active_role_ids st ids = Inr us" for row us
  proof -
    have ok0: "auth_ok_but {} st" using ok by (simp add: auth_ok_def)
    let ?st = "st\<lparr>accounts := accounts st @ [row], account_seq := account_seq st + 1\<rparr>"
    have ok1: "auth_ok_but {} ?st" by (rule new_account_keeps [OF ok0 row])
    show ?thesis unfolding auth_ok_def
    proof (rule auth_ok_change [OF ok0])
      show "\<forall>(a, r) \<in> set (account_roles (replace_account_roles (acc_id row) us ?st)).
          a \<le> account_seq (replace_account_roles (acc_id row) us ?st) \<and>
          r \<le> role_seq (replace_account_roles (acc_id row) us ?st)"
        using auth_okD(4) [OF ok0] valid_roles_bounded [OF ok0 us] row
        by (auto simp: account_roles_replaced)
      fix s assume cur: "snapshot_current st s"
      have "aa_id (sn_account s) \<noteq> acc_id row"
        using cur auth_okD(2) [OF ok0] row by (auto simp: snapshot_current_def account_of_def)
      then show "snapshot_current (replace_account_roles (acc_id row) us ?st) s"
        by (intro snapshot_current_cong [OF cur]) (auto simp: held_roles_replaced, simp add: held_roles_def)
    qed (use auth_okD(1-3) [OF ok1] in auto)
  qed
  then show ?thesis
    using ok by (auto simp: create_account_def Let_def new_account_def split: sum.split)
qed

lemma account_status_keeps: "auth_ok st \<Longrightarrow> auth_ok (snd (set_account_status now actor account text st))"
proof -
  assume ok: "auth_ok st"
  have changed: "auth_ok_but {account} (st\<lparr>accounts := modify (\<lambda>a. acc_id a = account)
      (update_account_status now status) (accounts st)\<rparr>)" for status
    using accounts_change [OF ok [unfolded auth_ok_def], where Y = "{account}" and p = "\<lambda>a. acc_id a = account"]
    by (simp add: update_account_status_def)
  have activated: "auth_ok (st\<lparr>accounts := modify (\<lambda>a. acc_id a = account)
      (update_account_status now AccountActive) (accounts st)\<rparr>)"
    unfolding auth_ok_def
  proof (rule auth_ok_change [OF ok [unfolded auth_ok_def]])
    let ?st = "st\<lparr>accounts := modify (\<lambda>a. acc_id a = account) (update_account_status now AccountActive) (accounts st)\<rparr>"
    fix s assume cur: "snapshot_current st s"
    then show "snapshot_current ?st s"
    proof (rule snapshot_current_cong)
      fix a assume a: "a \<in> set (accounts st)" "sn_account s = account_of a"
      from a(2) have "acc_status a = AccountActive" using cur by (simp add: snapshot_current_def account_of_def)
      let ?b = "if acc_id a = account then update_account_status now AccountActive a else a"
      have "account_of ?b = account_of a"
        using \<open>acc_status a = AccountActive\<close> by (simp add: account_of_def update_account_status_def)
      moreover have "?b \<in> set (accounts ?st)" using a(1) by (simp add: modify_def)
      ultimately show "\<exists>b \<in> set (accounts ?st). account_of b = account_of a" by blast
    qed (simp_all add: held_roles_def)
  qed (use auth_okD [OF changed [of AccountActive]] in simp_all)
  show ?thesis
    using ok by (auto simp: set_account_status_def Let_def activated case_prod_unfold
        split: option.split sum.split intro: revoked_account_ok [OF changed])
qed

lemma reset_password_keeps:
  "auth_ok st \<Longrightarrow> auth_ok (snd (reset_account_password E now salt actor account password st))"
  using revoked_account_ok [OF auth_ok_mono [of "{}" "set_password now account h st" "{account}" for h]]
    set_password_keeps [of st now account]
  by (auto simp: reset_account_password_def Let_def auth_ok_def case_prod_unfold split: sum.split)

lemma account_roles_keeps: "auth_ok st \<Longrightarrow> auth_ok (snd (update_account_roles now actor account ids st))"
proof -
  assume ok: "auth_ok st"
  have "auth_ok (snd (revoke_sessions_by_account now account RevokedRoleChanged
      (replace_account_roles account us st)))"
    if "account_label st account = Inr l" "valid_active_role_ids st ids = Inr us" for l us
  proof (rule revoked_account_ok)
    have ok0: "auth_ok_but {} st" using ok by (simp add: auth_ok_def)
    have "account \<le> account_seq st" using account_label_exists [OF that(1)] auth_okD(2) [OF ok0] by auto
    from account_roles_change [OF ok0 this valid_roles_bounded [OF ok0 that(2)]]
    show "auth_ok_but {account} (replace_account_roles account us st)" .
  qed
  then show ?thesis
    using ok by (auto simp: update_account_roles_def Let_def case_prod_unfold split: sum.split)
qed

lemma change_password_keeps:
  "auth_ok st \<Longrightarrow> auth_ok (snd (change_own_password E now salt actor current password st))"
  by (auto simp: change_own_password_def split: sum.split option.split bool.split
      intro!: auth_ok_keep(1) set_password_keeps)

lemma create_role_keeps: "auth_ok st \<Longrightarrow> auth_ok (snd (create_role actor code name description ids st))"
proof -
  assume ok: "auth_ok st"
  then have ok0: "auth_ok_but {} st" by (simp add: auth_ok_def)
  have "auth_ok (replace_role_permissions (role_id row) us (st\<lparr>roles := roles st @ [row], role_seq := role_seq st + 1\<rparr>))"
    if row: "role_id row = role_seq st + 1" for row us
  proof -
    have "{a. (a, role_id row) \<in> set (account_roles st)} = {}" using auth_okD(4) [OF ok0] row by force
    then show ?thesis
      using role_permissions_change [OF new_role_keeps [OF ok0 row], of "role_id row" us]
      by (simp add: auth_ok_def)
  qed
  then show ?thesis using ok by (auto simp: create_role_def Let_def split: sum.split)
qed

lemma role_status_keeps: "auth_ok st \<Longrightarrow> auth_ok (snd (set_role_status now actor role text st))"
proof -
  assume ok: "auth_ok st"
  have "auth_ok (revoke_sessions_by_role now role RevokedRoleStatus
      (st\<lparr>roles := modify (\<lambda>r. role_id r = role) (\<lambda>r. r\<lparr>role_status := status\<rparr>) (roles st)\<rparr>))" for status
    using roles_change [OF ok [unfolded auth_ok_def], of "\<lambda>r. r\<lparr>role_status := status\<rparr>" role]
    by (intro revoke_role_keeps) simp
  then show ?thesis using ok by (auto simp: set_role_status_def split: option.split sum.split)
qed

lemma role_permissions_keeps: "auth_ok st \<Longrightarrow> auth_ok (snd (update_role_permissions now actor role ids st))"
proof -
  assume ok: "auth_ok st"
  have "auth_ok (revoke_sessions_by_role now role RevokedRolePermissions (replace_role_permissions role us st))" for us
    using role_permissions_change [OF ok [unfolded auth_ok_def], of role us]
    by (intro revoke_role_keeps) simp
  then show ?thesis using ok by (auto simp: update_role_permissions_def split: sum.split)
qed

lemma tokens_keep:
  "auth_ok st \<Longrightarrow> auth_ok (snd (create_api_token E actor source fresh_token st))"
  "auth_ok st \<Longrightarrow> auth_ok (snd (revoke_api_token now actor i st))"
  "auth_ok st \<Longrightarrow> auth_ok (snd (delete_revoked_api_token actor i st))"
  "auth_ok st \<Longrightarrow> auth_ok (snd (authenticate_api_token E now token ip st))"
  "auth_ok st \<Longrightarrow> auth_ok (drop_permit i st)"
  by (simp_all add: create_api_token_def revoke_api_token_def delete_revoked_api_token_def
      authenticate_api_token_def drop_permit_def Let_def split: sum.split option.split)

section \<open>Starting keeps it\<close>

text \<open>The registry is written to two tables and one counter only.\<close>

definition but_registry :: "auth \<Rightarrow> auth" where
  "but_registry st = st\<lparr> permissions := [], role_permissions := [], permission_seq := 0 \<rparr>"

lemma but_registry_steps:
  "but_registry (upsert_permission d st) = but_registry st"
  "but_registry (delete_permission i st) = but_registry st"
  "but_registry (replace_role_permissions r ids st) = but_registry st"
  by (simp_all add: but_registry_def upsert_permission_def delete_permission_def replace_role_permissions_def)

lemma sync_but_registry: "but_registry (sync_permission_registry st) = but_registry st"
proof -
  have "but_registry (sync_role q st) = but_registry st" for q st
    by (simp add: sync_role_def but_registry_steps split: prod.split option.split)
  then show ?thesis
    by (simp add: sync_permission_registry_def sync_builtin_role_permissions_def
        delete_stale_permissions_def but_registry_steps fold_keeps [where g = but_registry])
qed

lemma but_registry_eqD:
  assumes "but_registry st' = but_registry st"
  shows "accounts st' = accounts st" "roles st' = roles st" "account_roles st' = account_roles st"
    "sessions st' = sessions st" "api_tokens st' = api_tokens st" "account_seq st' = account_seq st"
    "role_seq st' = role_seq st" "session_seq st' = session_seq st"
    "session_store st' = session_store st" "audits st' = audits st" "token_seq st' = token_seq st"
  by (use assms in \<open>cases st; cases st'; simp add: but_registry_def\<close>)+

lemmas sync_fields = but_registry_eqD [OF sync_but_registry]

lemma start_fields [simp]:
  "accounts (start_service st) = accounts st" "roles (start_service st) = roles st"
  "account_roles (start_service st) = account_roles st" "sessions (start_service st) = sessions st"
  "api_tokens (start_service st) = api_tokens st" "account_seq (start_service st) = account_seq st"
  "role_seq (start_service st) = role_seq st" "session_seq (start_service st) = session_seq st"
  "session_store (start_service st) = empty_store" "audits (start_service st) = audits st"
  "token_seq (start_service st) = token_seq st"
  by (simp_all add: start_service_def sync_fields)

lemma empty_store_ok: "store_ok empty_store" "store_held empty_store = {}"
  by (simp_all add: store_ok_def index_ok_def empty_store_def store_held_def)

lemma start_keeps: "rows_ok st \<Longrightarrow> auth_ok (start_service st)"
  by (simp add: auth_ok_def auth_ok_but_def held_ok_def rows_ok_def empty_store_ok)

lemma step_keeps: "auth_step E st st' \<Longrightarrow> auth_ok st \<Longrightarrow> auth_ok st'"
proof (induction rule: auth_step.induct)
  case (do_restart st)
  then have "rows_ok st" by (simp add: auth_ok_def auth_ok_but_def)
  then show ?case by (rule start_keeps)
qed (simp_all add: bootstrap_keeps login_keeps authenticate_keeps refresh_keeps logout_keeps
    create_account_keeps account_status_keeps reset_password_keeps account_roles_keeps create_role_keeps
    role_status_keeps role_permissions_keeps change_password_keeps tokens_keep revoke_admin_keeps
    record_system_audit_def)

lemma reachable_auth_ok: "auth_reachable E st \<Longrightarrow> auth_ok st"
proof (induction rule: auth_reachable.induct)
  case (installation st)
  then show ?case by (intro start_keeps) (simp add: installed_def rows_ok_def)
qed (rule step_keeps)

end
