(* ===== verification/Auth_Properties.thy ===== *)
theory Auth_Properties
  imports Auth_Invariant
begin

text \<open>
  What holds of sessions, logins and renewals in every reachable state.
\<close>

section \<open>A sample\<close>

definition sample_crates :: crates where
  "sample_crates = \<lparr> token_digest = id, new_password_hash = (\<lambda>salt p. Some (salt @ p)),
     matches_hash = (\<lambda>p h. Some (drop 1 h = p)), parse_ids = (\<lambda>_. Some []) \<rparr>"

definition sample_install :: auth where
  "sample_install = \<lparr> accounts = [],
     roles = [\<lparr> role_id = 1, role_code = lit ''super_admin'', role_name = lit ''owner'',
       role_description = [], role_status = RoleActive, role_system = True \<rparr>],
     permissions = [], account_roles = [], role_permissions = [], sessions = [], api_tokens = [],
     audits = [], account_seq = 0, role_seq = 1, permission_seq = 0, session_seq = 0,
     token_seq = 0, session_store = empty_store \<rparr>"

definition sample_login :: login_input where
  "sample_login = \<lparr> li_username = lit ''admin'', li_password = lit ''password1'', li_display = None,
     li_ip = [], li_agent = [] \<rparr>"

definition sample_new :: "nat \<Rightarrow> new_tokens" where
  "sample_new n = \<lparr> new_access = [1, n], new_refresh = [2, n], new_csrf = [3, n] \<rparr>"

definition sample_auth :: auth where
  "sample_auth = snd (bootstrap_init sample_crates 10 [7] sample_login (Some (sample_new 1)) (start_service sample_install))"

lemma sample_reachable_auth: "auth_reachable sample_crates sample_auth"
proof -
  have "auth_reachable sample_crates (start_service sample_install)"
    by (rule installation) (simp add: installed_def sample_install_def)
  then show ?thesis unfolding sample_auth_def by (rule auth_reachable.step) (rule do_bootstrap)
qed

lemma normalize_admin: "normalize_username (lit ''admin'') = Inr (lit ''admin'')"
  by (simp add: normalize_username_def trim_def trim_start_def is_white_def lit_def ascii_lower_def)

lemmas sample_auth_defs = sample_crates_def sample_install_def sample_login_def sample_new_def
  bootstrap_init_def bootstrap_required_def validate_password_def hash_password_def login_def
  verify_password_def issue_session_def new_snapshot_def new_session_row_def new_account_def
  display_name_of_def record_audit_def record_login_def account_of_def snapshot_session_def
  store_save_def empty_store_def normalize_admin

lemma sample_password: "trim (lit ''password1'') \<noteq> []"
  by (simp add: trim_def trim_start_def is_white_def lit_def)

lemma sample_auth_value:
  "accounts sample_auth = [\<lparr> acc_id = 1, acc_username = lit ''admin'', acc_password = 7 # lit ''password1'',
     acc_display = lit ''admin'', acc_status = AccountActive, acc_super = True, acc_failed = 0,
     acc_locked_at = None, acc_locked_reason = NoLockReason, acc_last_login = Some 10, acc_last_ip = [],
     acc_password_changed = 10 \<rparr>]"
  "sessions sample_auth = [\<lparr> ses_id = 1, ses_account = 1, ses_status = SessionActive, ses_access = [1, 1],
     ses_refresh = [2, 1], ses_access_expires = 10 + access_ttl, ses_refresh_expires = 10 + refresh_ttl,
     ses_ip = [], ses_agent = [], ses_revoked_at = None, ses_reason = NotRevoked \<rparr>]"
  "access_index (session_store sample_auth) = [([1, 1], 1)]"
  "refresh_index (session_store sample_auth) = [([2, 1], 1)]"
  "\<exists>s. snapshots (session_store sample_auth) = [(1, s)] \<and> sn_id s = 1 \<and> sn_access s = [1, 1] \<and>
     sn_refresh s = [2, 1] \<and> aa_id (sn_account s) = 1"
  "session_seq sample_auth = 1"
  using sample_password by (simp_all add: sample_auth_def sample_auth_defs Let_def)

section \<open>Sessions show the rights of the tables\<close>

lemma held_row_current:
  assumes ok: "auth_ok_but {} st" and s: "s \<in> store_held (session_store st)"
    and r: "r \<in> set (sessions st)" "ses_id r = sn_id s" "ses_status r = SessionActive"
  shows "snapshot_current st s \<and> ses_account r = aa_id (sn_account s)"
proof -
  obtain q where q: "q \<in> set (sessions st)" "row_of_snapshot q s"
    "ses_status q = SessionActive \<Longrightarrow> aa_id (sn_account s) \<notin> {} \<Longrightarrow> snapshot_current st s"
    using ok s by (rule held_has_row) blast
  have "distinct (map ses_id (sessions st))" using ok by (simp add: auth_ok_but_def rows_ok_def)
  then have "q = r" using q(1,2) r(1,2) by (auto simp: row_of_snapshot_def dest: distinct_map_inj)
  then show ?thesis using q r(3) by (simp add: row_of_snapshot_def)
qed

lemma authenticated_snapshot:
  assumes "auth_reachable E st" and "fst (authenticate_access_token E now token st) = Inr cs"
  shows "\<exists>s. cs = snapshot_session s \<and> snapshot_current st s"
proof -
  have ok: "auth_ok_but {} st" using reachable_auth_ok [OF assms(1)] by (simp add: auth_ok_def)
  let ?h = "token_digest E token"
  obtain s where s: "get_by_access_hash (session_store st) ?h = Some s" "cs = snapshot_session s"
    and n: "affected (\<lambda>r. ses_id r = sn_id s \<and> ses_status r = SessionActive \<and>
       account_active st (ses_account r) \<and> ses_access r = ?h \<and> now < ses_access_expires r) (sessions st) \<noteq> 0"
    using assms(2) by (auto simp: authenticate_access_token_def Let_def split: option.splits if_splits)
  have "s \<in> store_held (session_store st)" using s(1) store_by_access [OF auth_okD(5) [OF ok]] by blast
  moreover obtain r where "r \<in> set (sessions st)" "ses_id r = sn_id s" "ses_status r = SessionActive"
    using n by (auto simp: affected_0)
  ultimately have "snapshot_current st s" using held_row_current [OF ok] by blast
  then show ?thesis using s(2) by blast
qed

text \<open>
  C22. A session that authentication returns shows what the tables say of its account at that
  moment: the account is active, and the cached roles and permissions are the current ones,
  whatever operations and restarts came before.
\<close>

theorem sessions_show_current_rights:
  assumes "auth_reachable E st" and "fst (authenticate_access_token E now token st) = Inr cs"
  shows "\<exists>a \<in> set (accounts st). acc_status a = AccountActive \<and> cs_account cs = account_of a \<and>
     cs_super cs = acc_super a \<and> cs_roles cs = role_codes st (acc_id a) \<and>
     cs_permissions cs = permission_keys st (acc_id a)"
  using authenticated_snapshot [OF assms]
  by (auto simp: snapshot_current_def snapshot_session_def account_of_def)

theorem sessions_show_current_rights_witness:
  "\<exists>cs. fst (authenticate_access_token sample_crates 20 [1, 1] sample_auth) = Inr cs \<and>
     (\<exists>a \<in> set (accounts sample_auth). acc_status a = AccountActive \<and> cs_account cs = account_of a \<and>
     cs_super cs = acc_super a \<and> cs_roles cs = role_codes sample_auth (acc_id a) \<and>
     cs_permissions cs = permission_keys sample_auth (acc_id a))"
proof -
  have "\<exists>cs. fst (authenticate_access_token sample_crates 20 [1, 1] sample_auth) = Inr cs"
    using sample_auth_value(5)
    by (auto simp: authenticate_access_token_def get_by_access_hash_def sample_auth_value
        sample_crates_def account_active_def access_ttl_def)
  then show ?thesis using sessions_show_current_rights [OF sample_reachable_auth] by blast
qed

section \<open>Wrong passwords\<close>

text \<open>The login attempts of one input with the password the account does not have.\<close>

definition attempt :: "crates \<Rightarrow> time \<Rightarrow> login_input \<Rightarrow> auth \<Rightarrow> auth" where
  "attempt E now input st = snd (login E now input None st)"

lemma revoked_accounts [simp]:
  "accounts (snd (revoke_sessions_by_account now a reason st)) = accounts st"
  by (simp add: revoke_sessions_by_account_def revoke_sessions_def)

lemma wrong_password_accounts:
  "accounts (wrong_password now input a st) =
     accounts (record_failed_login now (acc_id a) (acc_failed a + 1) (max_failed_logins \<le> acc_failed a + 1) st)"
  by (simp add: wrong_password_def Let_def login_failed_def record_audit_def)

lemma attempt_wrong:
  assumes u: "normalize_username (li_username input) = Inr u" and p: "trim (li_password input) \<noteq> []"
    and a: "find (\<lambda>a. acc_username a = u) (accounts st) = Some a" "acc_status a = AccountActive"
    and wrong: "verify_password E (li_password input) (acc_password a) = Inr False"
  shows "\<exists>b. find (\<lambda>a. acc_username a = u) (accounts (attempt E now input st)) = Some b \<and>
     acc_id b = acc_id a \<and> acc_password b = acc_password a \<and> acc_failed b = acc_failed a + 1 \<and>
     acc_status b = (if max_failed_logins \<le> acc_failed a + 1 then AccountLocked else AccountActive)"
proof -
  have "attempt E now input st = wrong_password now input a st"
    using assms by (simp add: attempt_def login_def)
  then show ?thesis
    using a by (simp add: wrong_password_accounts record_failed_login_def find_modify)
qed

lemma attempt_locked:
  assumes u: "normalize_username (li_username input) = Inr u" and p: "trim (li_password input) \<noteq> []"
    and a: "find (\<lambda>a. acc_username a = u) (accounts st) = Some a" "acc_status a = AccountLocked"
  shows "accounts (attempt E now input st) = accounts st"
  using assms by (simp add: attempt_def login_def login_failed_def record_audit_def)

text \<open>
  C23. Wrong passwords lock an account: after any number of attempts in a row the account is
  locked exactly when the failures, those counted before included, have reached five, and from
  then on no access token of the account is accepted.
\<close>

theorem wrong_passwords_lock_the_account:
  assumes "auth_reachable E st"
    and u: "normalize_username (li_username input) = Inr u" and p: "trim (li_password input) \<noteq> []"
    and a: "find (\<lambda>a. acc_username a = u) (accounts st) = Some a" "acc_status a = AccountActive"
    and wrong: "verify_password E (li_password input) (acc_password a) = Inr False"
    and k: "0 < k"
  shows "\<exists>b. find (\<lambda>a. acc_username a = u) (accounts ((attempt E now input ^^ k) st)) = Some b \<and>
     acc_id b = acc_id a \<and>
     acc_status b = (if 5 \<le> acc_failed a + int k then AccountLocked else AccountActive) \<and>
     (5 \<le> acc_failed a + int k \<longrightarrow> (\<forall>t token cs.
        fst (authenticate_access_token E t token ((attempt E now input ^^ k) st)) = Inr cs \<longrightarrow>
        aa_id (cs_account cs) \<noteq> acc_id a))"
proof -
  let ?f = "\<lambda>a. acc_username a = u"
  let ?at = "\<lambda>k. (attempt E now input ^^ k) st"
  have status: "\<exists>b. find ?f (accounts (?at k)) = Some b \<and> acc_id b = acc_id a \<and>
     acc_status b = (if 0 < k \<and> 5 \<le> acc_failed a + int k then AccountLocked else AccountActive) \<and>
     acc_password b = acc_password a \<and> (acc_status b = AccountActive \<longrightarrow> acc_failed b = acc_failed a + int k)" for k
  proof (induction k)
    case (Suc k)
    then obtain b where b: "find ?f (accounts (?at k)) = Some b" "acc_id b = acc_id a"
      "acc_status b = (if 0 < k \<and> 5 \<le> acc_failed a + int k then AccountLocked else AccountActive)"
      "acc_password b = acc_password a" "acc_status b = AccountActive \<longrightarrow> acc_failed b = acc_failed a + int k"
      by blast
    show ?case
    proof (cases "acc_status b = AccountActive")
      case True
      from attempt_wrong [OF u p b(1) True, of E now] wrong b(4)
      obtain c where "find ?f (accounts (?at (Suc k))) = Some c" "acc_id c = acc_id b"
        "acc_password c = acc_password b" "acc_failed c = acc_failed b + 1"
        "acc_status c = (if max_failed_logins \<le> acc_failed b + 1 then AccountLocked else AccountActive)" by auto
      with True b show ?thesis by (simp add: max_failed_logins_def split: if_splits)
    next
      case False
      then have "acc_status b = AccountLocked" using b(3) by (auto split: if_splits)
      from attempt_locked [OF u p b(1) this] this b show ?thesis by (simp split: if_splits)
    qed
  qed (use a in simp)
  have reach: "auth_reachable E (?at k)"
  proof (induction k)
    case (Suc k)
    then show ?case by (simp add: attempt_def) (blast intro: auth_reachable.step do_login)
  qed (simp add: assms(1))
  from status [of k] k obtain b where b: "find ?f (accounts (?at k)) = Some b" "acc_id b = acc_id a"
    "acc_status b = (if 5 \<le> acc_failed a + int k then AccountLocked else AccountActive)" by auto
  moreover have "aa_id (cs_account cs) \<noteq> acc_id a"
    if locked: "5 \<le> acc_failed a + int k" and cs: "fst (authenticate_access_token E t token (?at k)) = Inr cs" for t token cs
  proof -
    obtain c where c: "c \<in> set (accounts (?at k))" "acc_status c = AccountActive" "cs_account cs = account_of c"
      using authenticated_snapshot [OF reach cs] by (auto simp: snapshot_current_def snapshot_session_def account_of_def)
    have "distinct (map acc_id (accounts (?at k)))"
      using reachable_auth_ok [OF reach] by (simp add: auth_ok_def auth_ok_but_def rows_ok_def)
    moreover have "b \<in> set (accounts (?at k))" using b(1) by (auto dest: find_SomeD)
    ultimately show ?thesis using c b locked by (auto simp: account_of_def dest: distinct_map_inj)
  qed
  ultimately show ?thesis by blast
qed

definition sample_wrong :: login_input where
  "sample_wrong = sample_login\<lparr>li_password := lit ''password2''\<rparr>"

theorem wrong_passwords_lock_the_account_witness:
  "\<exists>b. find (\<lambda>a. acc_username a = lit ''admin'') (accounts ((attempt sample_crates 30 sample_wrong ^^ 5) sample_auth)) =
     Some b \<and> acc_status b = AccountLocked"
proof -
  have "trim (lit ''password2'') \<noteq> []" by (simp add: trim_def trim_start_def is_white_def lit_def)
  then show ?thesis
    using wrong_passwords_lock_the_account [OF sample_reachable_auth, where input = sample_wrong and
      u = "lit ''admin''" and a = "hd (accounts sample_auth)" and k = 5 and now = 30]
    by (auto simp: sample_wrong_def sample_login_def normalize_admin sample_auth_value verify_password_def
        sample_crates_def)
qed

section \<open>Renewing a session\<close>

lemma refresh_Inr:
  assumes "refresh E now token fresh st = (Inr x, st')"
  obtains s r a st1 where "get_by_refresh_hash (session_store st) (token_digest E token) = Some s"
    "r \<in> set (sessions st)" "ses_id r = sn_id s" "ses_status r = SessionActive"
    "a \<in> set (accounts st)" "acc_id a = ses_account r" "acc_status a = AccountActive"
    "issue_session E now (account_of a) [] [] fresh st = (Inr x, st1)"
    "st' = forget_session (sn_id s) (revoke_session_record now (sn_id s) RefreshRotated st1)"
proof -
  let ?h = "token_digest E token"
  obtain s r a st1 where "get_by_refresh_hash (session_store st) ?h = Some s"
    and r: "find (\<lambda>r. ses_refresh r = ?h \<and> ses_id r = sn_id s \<and> ses_status r = SessionActive \<and>
       now < ses_refresh_expires r) (sessions st) = Some r"
    and a: "find (\<lambda>a. acc_id a = ses_account r) (accounts st) = Some a" "acc_status a = AccountActive"
    and "issue_session E now (account_of a) [] [] fresh st = (Inr x, st1)"
    and "st' = forget_session (ses_id r) (revoke_session_record now (ses_id r) RefreshRotated st1)"
    using assms by (auto simp: refresh_def Let_def split: option.splits if_splits prod.splits sum.splits)
  then show ?thesis using that [of s r a st1] find_SomeD [OF r] find_SomeD [OF a(1)] by simp
qed

text \<open>What a rotation leaves: the new session in the place of the old one.\<close>

lemma rotated:
  assumes ok: "auth_ok_but {} st"
    and issued: "issue_session E now (account_of a) [] [] fresh st = (Inr x, st1)"
    and st': "st' = forget_session i (revoke_session_record now i RefreshRotated st1)" and i: "i \<le> session_seq st"
  obtains n where "ar_session x = snapshot_session n" "sn_access n = token_digest E (ar_access x)"
    "sn_account n = account_of a" "accounts st' = accounts st"
    "\<forall>r \<in> set (sessions st). ses_access r \<noteq> sn_access n \<and> ses_refresh r \<noteq> sn_refresh n"
    "n \<in> store_held (session_store st')"
    "store_held (session_store st') = {u \<in> insert n (store_held (session_store st)). sn_id u \<noteq> i}"
    "new_session_row now n [] [] \<in> set (sessions st')"
proof -
  from issued obtain t n where n: "n = new_snapshot E st (account_of a) t"
    and new: "\<forall>r \<in> set (sessions st). ses_access r \<noteq> sn_access n \<and> ses_refresh r \<noteq> sn_refresh n"
    and x: "x = \<lparr> ar_session = snapshot_session n, ar_access = new_access t, ar_refresh = new_refresh t \<rparr>"
    and st1: "st1 = st\<lparr> sessions := sessions st @ [new_session_row now n [] []],
       session_seq := session_seq st + 1, session_store := store_save n (session_store st) \<rparr>"
    by (rule issued_Inr) blast
  have nid: "sn_id n = session_seq st + 1" by (simp add: n new_snapshot_def)
  note saved = issued_saves [OF ok nid new]
  note unfold = st' st1 forget_session_def revoke_session_record_def revoke_sessions_def
  have held: "store_held (session_store st') = {u \<in> insert n (store_held (session_store st)). sn_id u \<noteq> i}"
    using store_remove_id_law [OF saved(1), of i] saved(2) by (simp add: unfold)
  have "new_session_row now n [] [] \<in> set (sessions st')"
    using nid i by (simp add: unfold new_session_row_def)
  moreover have "sn_access n = token_digest E (ar_access x)" "sn_account n = account_of a"
    "ar_session x = snapshot_session n" by (simp_all add: n x new_snapshot_def)
  moreover have "accounts st' = accounts st" by (simp add: unfold)
  moreover have "n \<in> store_held (session_store st')" using held nid i by simp
  ultimately show ?thesis using that new held by blast
qed

lemma fresh_session_authenticates:
  assumes "store_ok (session_store st)" and "n \<in> store_held (session_store st)"
    and "new_session_row now n ip agent \<in> set (sessions st)" and "account_active st (aa_id (sn_account n))"
    and "sn_access n = token_digest E token"
  shows "authenticate_access_token E now token st = (Inr (snapshot_session n), st)"
proof -
  have "get_by_access_hash (session_store st) (sn_access n) = Some n"
    using store_by_access [OF assms(1)] assms(2) by blast
  moreover have "\<exists>r \<in> set (sessions st). ses_id r = sn_id n \<and> ses_status r = SessionActive \<and>
      account_active st (ses_account r) \<and> ses_access r = sn_access n \<and> now < ses_access_expires r"
    using assms(3,4) by (intro bexI [OF _ assms(3)]) (simp add: new_session_row_def access_ttl_def)
  ultimately show ?thesis using assms(5) by (simp add: authenticate_access_token_def affected_0) blast
qed

lemma unheld_hash:
  assumes "store_ok m"
  shows "(\<And>u. u \<in> store_held m \<Longrightarrow> sn_access u \<noteq> h) \<Longrightarrow> get_by_access_hash m h = None"
    and "(\<And>u. u \<in> store_held m \<Longrightarrow> sn_refresh u \<noteq> h) \<Longrightarrow> get_by_refresh_hash m h = None"
  using store_by_access [OF assms, of h] store_by_refresh [OF assms, of h]
  by (auto intro: option.exhaust [of "get_by_access_hash m h"] option.exhaust [of "get_by_refresh_hash m h"])

lemma held_unique:
  assumes "store_ok m" and "u \<in> store_held m" and "s \<in> store_held m" and "u \<noteq> s"
  shows "sn_access u \<noteq> sn_access s" and "sn_refresh u \<noteq> sn_refresh s"
proof -
  show "sn_access u \<noteq> sn_access s" using memory.access_unique [OF assms(1-3)] assms(4) by blast
  show "sn_refresh u \<noteq> sn_refresh s" using memory.refresh_unique [OF assms(1-3)] assms(4) by blast
qed

text \<open>
  C24. A refresh token works once: it gives new tokens of the same account whose access token is
  accepted, and afterwards neither the refresh token nor the access token of the old session is.
\<close>

theorem refresh_rotates_the_session:
  assumes "auth_reachable E st" and made: "refresh E now token fresh st = (Inr x, st')"
  shows "fst (authenticate_access_token E now (ar_access x) st') = Inr (ar_session x) \<and>
    fst (refresh E t1 token fresh' st') = Inl (AuthUnauthorized RenewalFailed) \<and>
    (\<exists>s \<in> store_held (session_store st). sn_refresh s = token_digest E token \<and>
       sn_account s = cs_account (ar_session x) \<and>
       (\<forall>old. token_digest E old = sn_access s \<longrightarrow>
          fst (authenticate_access_token E t1 old st') = Inl (AuthUnauthorized LoginExpired)))"
proof -
  have ok: "auth_ok_but {} st" using reachable_auth_ok [OF assms(1)] by (simp add: auth_ok_def)
  have "auth_ok st'" using refresh_keeps [OF reachable_auth_ok [OF assms(1)], of E now token fresh] made by simp
  then have ok': "store_ok (session_store st')" by (simp add: auth_ok_def auth_ok_but_def)
  from made obtain s r a st1 where s: "get_by_refresh_hash (session_store st) (token_digest E token) = Some s"
    and r: "r \<in> set (sessions st)" "ses_id r = sn_id s" "ses_status r = SessionActive"
    and a: "a \<in> set (accounts st)" "acc_id a = ses_account r" "acc_status a = AccountActive"
    and issued: "issue_session E now (account_of a) [] [] fresh st = (Inr x, st1)"
    and st': "st' = forget_session (sn_id s) (revoke_session_record now (sn_id s) RefreshRotated st1)"
    by (rule refresh_Inr)
  have sh: "s \<in> store_held (session_store st)" "sn_refresh s = token_digest E token"
    using s store_by_refresh [OF auth_okD(5) [OF ok]] by blast+
  have "sn_id s \<le> session_seq st" using ok r(1,2) by (auto simp: auth_ok_but_def rows_ok_def)
  with ok issued st' obtain n where n: "ar_session x = snapshot_session n"
      "sn_access n = token_digest E (ar_access x)" "sn_account n = account_of a" "accounts st' = accounts st"
    and new: "\<forall>r \<in> set (sessions st). ses_access r \<noteq> sn_access n \<and> ses_refresh r \<noteq> sn_refresh n"
    and held: "n \<in> store_held (session_store st')"
      "store_held (session_store st') = {u \<in> insert n (store_held (session_store st)). sn_id u \<noteq> sn_id s}"
    and row: "new_session_row now n [] [] \<in> set (sessions st')" by (rule rotated)
  have "account_active st' (aa_id (sn_account n))" using a by (auto simp: account_active_def n account_of_def)
  from fresh_session_authenticates [OF ok' held(1) row this n(2)]
  have first: "fst (authenticate_access_token E now (ar_access x) st') = Inr (ar_session x)" by (simp add: n)
  have gone: "sn_access u \<noteq> sn_access s \<and> sn_refresh u \<noteq> token_digest E token"
    if u: "u \<in> store_held (session_store st')" for u
  proof (cases "u = n")
    case True
    obtain q where "q \<in> set (sessions st)" "row_of_snapshot q s" using ok sh(1) by (rule held_has_row) blast
    with new True sh(2) show ?thesis by (auto simp: row_of_snapshot_def)
  next
    case False
    then have "u \<in> store_held (session_store st)" "u \<noteq> s" using u held(2) by auto
    with held_unique [OF auth_okD(5) [OF ok]] sh show ?thesis by metis
  qed
  have "get_by_refresh_hash (session_store st') (token_digest E token) = None"
    "get_by_access_hash (session_store st') (sn_access s) = None"
    using gone by (blast intro: unheld_hash [OF ok'])+
  moreover have "snapshot_current st s" "ses_account r = aa_id (sn_account s)"
    using held_row_current [OF ok sh(1) r] by blast+
  moreover from this have "sn_account s = account_of a"
    using a auth_okD(1) [OF ok] by (auto simp: snapshot_current_def account_of_def dest: distinct_map_inj)
  ultimately show ?thesis using first sh n(1,3)
    by (auto simp: refresh_def authenticate_access_token_def snapshot_session_def)
qed

theorem refresh_rotates_the_session_witness:
  "\<exists>x. fst (refresh sample_crates 20 [2, 1] (Some (sample_new 2)) sample_auth) = Inr x \<and>
     fst (refresh sample_crates 30 [2, 1] (Some (sample_new 3))
       (snd (refresh sample_crates 20 [2, 1] (Some (sample_new 2)) sample_auth))) = Inl (AuthUnauthorized RenewalFailed)"
proof -
  have "\<exists>x. fst (refresh sample_crates 20 [2, 1] (Some (sample_new 2)) sample_auth) = Inr x"
    using sample_auth_value(5)
    by (auto simp: refresh_def get_by_refresh_hash_def sample_auth_value
        sample_crates_def refresh_ttl_def issue_session_def new_snapshot_def sample_new_def Let_def)
  then obtain x st' where made: "refresh sample_crates 20 [2, 1] (Some (sample_new 2)) sample_auth = (Inr x, st')"
    by (metis prod.collapse)
  from refresh_rotates_the_session [OF sample_reachable_auth made, of 30 "Some (sample_new 3)"] made
  show ?thesis by simp
qed

end
