(* ===== verification/Api_Tokens.thy ===== *)
theory Api_Tokens
  imports Auth_Properties
begin

text \<open>
  The quotas of API tokens: the counters stay within bounds, the requests of a minute are
  bounded, and what a restart does to the counters.
\<close>

section \<open>API tokens\<close>

text \<open>Only five operations touch the tokens.\<close>

definition token_part :: "auth \<Rightarrow> token_row list \<times> int" where
  "token_part st = (api_tokens st, token_seq st)"

lemma token_part_simps [simp]:
  "token_part (st\<lparr>accounts := a\<rparr>) = token_part st" "token_part (st\<lparr>roles := r\<rparr>) = token_part st"
  "token_part (st\<lparr>account_roles := l\<rparr>) = token_part st" "token_part (st\<lparr>role_permissions := l\<rparr>) = token_part st"
  "token_part (st\<lparr>sessions := z\<rparr>) = token_part st" "token_part (st\<lparr>audits := u\<rparr>) = token_part st"
  "token_part (st\<lparr>account_seq := n\<rparr>) = token_part st" "token_part (st\<lparr>role_seq := n\<rparr>) = token_part st"
  "token_part (st\<lparr>session_seq := n\<rparr>) = token_part st" "token_part (st\<lparr>session_store := m\<rparr>) = token_part st"
  by (simp_all add: token_part_def)

lemma token_part_helpers [simp]:
  "token_part (record_audit b u ac k t m ip ag st) = token_part st"
  "token_part (audit_by actor ac k i m st) = token_part st"
  "token_part (revoke_sessions p now reason st) = token_part st"
  "token_part (revoke_session_record now i reason st) = token_part st"
  "token_part (forget_session i st) = token_part st" "token_part (forget_snapshot s st) = token_part st"
  "token_part (snd (revoke_sessions_by_account now i reason st)) = token_part st"
  "token_part (record_failed_login now i n locked st) = token_part st" "token_part (record_login now i ip st) = token_part st"
  "token_part (set_password now i h st) = token_part st"
  "token_part (replace_account_roles i ids st) = token_part st"
  "token_part (replace_role_permissions i ids st) = token_part st"
  by (simp_all add: record_audit_def audit_by_def revoke_sessions_def revoke_session_record_def
      forget_session_def forget_snapshot_def revoke_sessions_by_account_def record_failed_login_def
      record_login_def set_password_def replace_account_roles_def replace_role_permissions_def)

lemma token_part_role [simp]: "token_part (revoke_sessions_by_role now role reason st) = token_part st"
  by (simp add: revoke_sessions_by_role_def fold_keeps)

lemma token_part_issue [simp]: "token_part (snd (issue_session E now a ip ag fresh st)) = token_part st"
  by (simp add: issue_session_def Let_def split: option.split)

lemma token_part_issued: "issue_session E now a ip ag fresh st = (x, st') \<Longrightarrow> token_part st' = token_part st"
  using token_part_issue [of E now a ip ag fresh st] by simp

lemma token_part_login [simp]: "token_part (snd (login E now input fresh st)) = token_part st"
  by (auto simp: login_def Let_def login_failed_def wrong_password_def dest: token_part_issued
      split: sum.split option.split bool.split prod.split)

lemma token_part_sessions [simp]:
  "token_part (snd (bootstrap_init E now salt input fresh st)) = token_part st"
  "token_part (snd (authenticate_access_token E now token st)) = token_part st"
  "token_part (snd (refresh E now token fresh st)) = token_part st"
  "token_part (snd (logout now session st)) = token_part st"
  "token_part (snd (revoke_admin_session now actor i st)) = token_part st"
  by (auto simp: bootstrap_init_def authenticate_access_token_def refresh_def logout_def
      revoke_admin_session_def Let_def dest: token_part_issued split: sum.split option.split prod.split)

lemma token_part_admin [simp]:
  "token_part (snd (create_account E now salt actor name display password ids st)) = token_part st"
  "token_part (snd (set_account_status now actor account text st)) = token_part st"
  "token_part (snd (reset_account_password E now salt actor account password st)) = token_part st"
  "token_part (snd (update_account_roles now actor account ids st)) = token_part st"
  "token_part (snd (create_role actor code name description ids st)) = token_part st"
  "token_part (snd (set_role_status now actor role text st)) = token_part st"
  "token_part (snd (update_role_permissions now actor role ids st)) = token_part st"
  "token_part (snd (change_own_password E now salt actor current password st)) = token_part st"
  by (simp_all add: create_account_def set_account_status_def reset_account_password_def
      update_account_roles_def create_role_def set_role_status_def update_role_permissions_def
      change_own_password_def Let_def case_prod_unfold split: sum.split option.split bool.split)

lemma token_part_start [simp]: "token_part (start_service st) = token_part st"
  by (simp add: token_part_def)

definition within_quota :: "token_row \<Rightarrow> bool" where
  "within_quota t \<longleftrightarrow> 0 \<le> tok_active t \<and> tok_active t \<le> tok_max t \<and> 0 \<le> tok_window_count t \<and>
     tok_window_count t \<le> tok_rate t \<and> 0 < tok_rate t"

definition tokens_ok :: "auth \<Rightarrow> bool" where
  "tokens_ok st \<longleftrightarrow> (\<forall>t \<in> set (api_tokens st). within_quota t \<and> tok_id t \<le> token_seq st) \<and>
     distinct (map tok_id (api_tokens st))"

lemma tokens_ok_part: "token_part st' = token_part st \<Longrightarrow> tokens_ok st' = tokens_ok st"
  by (simp add: token_part_def tokens_ok_def)

lemma tokens_ok_modify:
  assumes "tokens_ok st" and "\<And>t. within_quota t \<Longrightarrow> p t \<Longrightarrow> within_quota (f t)" and "\<And>t. tok_id (f t) = tok_id t"
  shows "tokens_ok (st\<lparr>api_tokens := modify p f (api_tokens st)\<rparr>)"
  using assms(1,2) by (auto simp: tokens_ok_def set_modify assms(3) map_modify)

lemma tok_id_use_quota [simp]: "tok_id (use_quota now ip t) = tok_id t"
  by (simp add: use_quota_def)

lemma use_quota_within: "within_quota t \<Longrightarrow> quota_left now t \<Longrightarrow> within_quota (use_quota now ip t)"
  by (auto simp: within_quota_def quota_left_def use_quota_def)

lemma tokens_ok_audit [simp]:
  "tokens_ok (audit_by actor ac k i m st) = tokens_ok st"
  "tokens_ok (record_audit b u ac k t m ip ag st) = tokens_ok st"
  by (rule tokens_ok_part, simp)+

lemma tokens_ok_operations:
  assumes ok: "tokens_ok st"
  shows "tokens_ok (snd (create_api_token E actor source fresh st))"
    and "tokens_ok (snd (revoke_api_token now actor i st))"
    and "tokens_ok (snd (delete_revoked_api_token actor i st))"
    and "tokens_ok (snd (authenticate_api_token E now token ip st))" and "tokens_ok (drop_permit i st)"
proof -
  have new: "tokens_ok (st\<lparr>api_tokens := api_tokens st @ [new_token_row st a h p src], token_seq := token_seq st + 1\<rparr>)"
    for a h p src using ok by (fastforce simp: tokens_ok_def new_token_row_def within_quota_def)
  then show "tokens_ok (snd (create_api_token E actor source fresh st))"
    using ok by (simp add: create_api_token_def Let_def split: sum.split option.split)
  have "tokens_ok (st\<lparr>api_tokens := modify (token_with i TokenActive)
      (\<lambda>t. t\<lparr>tok_status := TokenRevoked, tok_revoked_at := Some now\<rparr>) (api_tokens st)\<rparr>)"
    by (rule tokens_ok_modify [OF ok]) (simp_all add: within_quota_def)
  then show "tokens_ok (snd (revoke_api_token now actor i st))"
    using ok by (simp add: revoke_api_token_def split: option.split)
  show "tokens_ok (snd (delete_revoked_api_token actor i st))"
    using ok by (auto simp: delete_revoked_api_token_def tokens_ok_def audit_by_def record_audit_def
        distinct_map_filter split: option.split)
  have "tokens_ok (st\<lparr>api_tokens := modify (\<lambda>u. tok_id u = j \<and> quota_left now u) (use_quota now ip) (api_tokens st)\<rparr>)" for j
    by (rule tokens_ok_modify [OF ok]) (auto intro: use_quota_within)
  then show "tokens_ok (snd (authenticate_api_token E now token ip st))"
    using ok by (simp add: authenticate_api_token_def split: option.split)
  show "tokens_ok (drop_permit i st)" unfolding drop_permit_def
    by (rule tokens_ok_modify [OF ok]) (auto simp: within_quota_def)
qed

lemma step_tokens: "auth_step E st st' \<Longrightarrow> tokens_ok st \<Longrightarrow> tokens_ok st'"
proof (induction rule: auth_step.induct)
  case (do_audit actor action kind target message st)
  then show ?case by (simp add: record_system_audit_def)
qed (simp_all add: tokens_ok_operations tokens_ok_part [OF token_part_login]
    tokens_ok_part [OF token_part_start] token_part_sessions [THEN tokens_ok_part]
    token_part_admin [THEN tokens_ok_part])

lemma reachable_tokens: "auth_reachable E st \<Longrightarrow> tokens_ok st"
proof (induction rule: auth_reachable.induct)
  case (installation st)
  then show ?case by (simp add: tokens_ok_part [OF token_part_start] installed_def tokens_ok_def)
qed (rule step_tokens)

text \<open>
  C25. An API token never has more requests in flight than it may, nor more requests counted in
  its window than its rate: every operation and every restart keeps the counters of every
  token within its quota.
\<close>

theorem tokens_stay_within_quota:
  assumes "auth_reachable E st" and "t \<in> set (api_tokens st)"
  shows "0 \<le> tok_active t \<and> tok_active t \<le> tok_max t \<and> 0 \<le> tok_window_count t \<and>
     tok_window_count t \<le> tok_rate t"
  using reachable_tokens [OF assms(1)] assms(2) by (auto simp: tokens_ok_def within_quota_def)

section \<open>Requests per minute\<close>

text \<open>Every step of the service but a request with a token, restarts included.\<close>

inductive other_auth_step :: "crates \<Rightarrow> auth \<Rightarrow> auth \<Rightarrow> bool" for E where
  other_bootstrap: "other_auth_step E st (snd (bootstrap_init E now salt input fresh st))"
| other_login: "other_auth_step E st (snd (login E now input fresh st))"
| other_authenticate: "other_auth_step E st (snd (authenticate_access_token E now token st))"
| other_refresh: "other_auth_step E st (snd (refresh E now token fresh st))"
| other_logout: "other_auth_step E st (snd (logout now session st))"
| other_create_account: "other_auth_step E st (snd (create_account E now salt actor name display password ids st))"
| other_account_status: "other_auth_step E st (snd (set_account_status now actor account text st))"
| other_reset_password: "other_auth_step E st (snd (reset_account_password E now salt actor account password st))"
| other_account_roles: "other_auth_step E st (snd (update_account_roles now actor account ids st))"
| other_create_role: "other_auth_step E st (snd (create_role actor code name description ids st))"
| other_role_status: "other_auth_step E st (snd (set_role_status now actor role text st))"
| other_role_permissions: "other_auth_step E st (snd (update_role_permissions now actor role ids st))"
| other_change_password: "other_auth_step E st (snd (change_own_password E now salt actor current password st))"
| other_create_token: "other_auth_step E st (snd (create_api_token E actor source fresh_token st))"
| other_revoke_token: "other_auth_step E st (snd (revoke_api_token now actor i st))"
| other_delete_token: "other_auth_step E st (snd (delete_revoked_api_token actor i st))"
| other_drop_permit: "other_auth_step E st (drop_permit i st)"
| other_revoke_session: "other_auth_step E st (snd (revoke_admin_session now actor i st))"
| other_audit: "other_auth_step E st (record_system_audit actor action kind target message st)"
| other_restart: "other_auth_step E st (start_service st)"

lemma auth_step_cases:
  "auth_step E st st' \<longleftrightarrow> other_auth_step E st st' \<or>
     (\<exists>now token ip. st' = snd (authenticate_api_token E now token ip st))"
proof
  show "auth_step E st st' \<Longrightarrow> other_auth_step E st st' \<or>
     (\<exists>now token ip. st' = snd (authenticate_api_token E now token ip st))"
    by (induction rule: auth_step.induct) (blast intro: other_auth_step.intros)+
  show "other_auth_step E st st' \<or> (\<exists>now token ip. st' = snd (authenticate_api_token E now token ip st)) \<Longrightarrow>
     auth_step E st st'"
    by (auto elim!: other_auth_step.cases intro: auth_step.intros)
qed

text \<open>
  What happens from a moment \<open>since\<close> on, within a minute: requests and, in any order, every other
  step of the service; \<open>n\<close> counts the requests that token \<open>i\<close> was granted.
\<close>

inductive served :: "crates \<Rightarrow> int \<Rightarrow> time \<Rightarrow> auth \<Rightarrow> nat \<Rightarrow> auth \<Rightarrow> bool" for E i since st where
  served_none: "served E i since st 0 st"
| served_request: "served E i since st n st1 \<Longrightarrow> since \<le> now \<Longrightarrow> now < since + 60000 \<Longrightarrow>
     authenticate_api_token E now token ip st1 = (res, st2) \<Longrightarrow>
     served E i since st (if \<exists>s. res = Inr s \<and> as_token s = i then Suc n else n) st2"
| served_other: "served E i since st n st1 \<Longrightarrow> other_auth_step E st1 st2 \<Longrightarrow> served E i since st n st2"

text \<open>Granted so far: at most the counter, or after a new window the rate and the counter.\<close>

definition granted_ok :: "time \<Rightarrow> nat \<Rightarrow> token_row \<Rightarrow> bool" where
  "granted_ok since n t \<longleftrightarrow> int n \<le> tok_window_count t \<or>
     (\<exists>w. tok_window_start t = Some w \<and> since \<le> w \<and> int n \<le> tok_rate t + tok_window_count t)"

definition served_ok :: "int \<Rightarrow> time \<Rightarrow> nat \<Rightarrow> auth \<Rightarrow> bool" where
  "served_ok i since n st \<longleftrightarrow> tokens_ok st \<and> (\<forall>t \<in> set (api_tokens st). tok_id t = i \<longrightarrow> granted_ok since n t) \<and>
     (token_seq st < i \<longrightarrow> n = 0)"

lemma grant_use:
  assumes "granted_ok since n t" and "within_quota t" and "quota_left now t" and "now < since + 60000" and "since \<le> now"
  shows "granted_ok since (Suc n) (use_quota now ip t)"
proof (cases "window_over now t")
  case True
  have "int n \<le> tok_window_count t"
    using assms(1,4) True by (auto simp: granted_ok_def window_over_def)
  then have "int n \<le> tok_rate t" using assms(2) by (auto simp: within_quota_def)
  with True assms(5) show ?thesis by (simp add: granted_ok_def use_quota_def)
next
  case False
  then show ?thesis using assms(1) by (auto simp: granted_ok_def use_quota_def)
qed

lemma api_request_Inl: "authenticate_api_token E now token ip st = (Inl e, st') \<Longrightarrow> st' = st"
  by (simp add: authenticate_api_token_def split: option.splits if_splits)

lemma api_request_Inr:
  assumes "authenticate_api_token E now token ip st = (Inr s, st')"
  obtains t where "t \<in> set (api_tokens st)" "as_token s = tok_id t"
    "affected (\<lambda>u. tok_id u = tok_id t \<and> quota_left now u) (api_tokens st) = 1"
    "st' = st\<lparr>api_tokens := modify (\<lambda>u. tok_id u = tok_id t \<and> quota_left now u) (use_quota now ip) (api_tokens st)\<rparr>"
proof -
  obtain t where t: "find (usable_token st now (token_digest E token)) (api_tokens st) = Some t"
    using assms by (cases "find (usable_token st now (token_digest E token)) (api_tokens st)")
      (simp_all add: authenticate_api_token_def)
  obtain a where a: "find (\<lambda>a. acc_id a = tok_account t) (accounts st) = Some a"
    using assms t by (cases "find (\<lambda>a. acc_id a = tok_account t) (accounts st)")
      (simp_all add: authenticate_api_token_def)
  obtain apps where apps: "parse_ids E (tok_apps t) = Some apps"
    using assms t a by (cases "parse_ids E (tok_apps t)") (simp_all add: authenticate_api_token_def)
  obtain us where us: "parse_ids E (tok_units t) = Some us"
    using assms t a apps by (cases "parse_ids E (tok_units t)") (simp_all add: authenticate_api_token_def)
  show ?thesis
    by (rule that [of t]) (use assms t a apps us find_SomeD [OF t] in
      \<open>auto simp: authenticate_api_token_def split: if_splits\<close>)
qed

lemma served_row:
  assumes ok: "served_ok i since n st"
    and st': "\<And>t'. t' \<in> set (api_tokens st') \<Longrightarrow> tok_id t' = i \<Longrightarrow>
      (\<exists>t \<in> set (api_tokens st). tok_id t = i \<and> tok_window_start t' = tok_window_start t \<and>
        tok_window_count t' = tok_window_count t \<and> tok_rate t' = tok_rate t) \<or> token_seq st < i"
    and "tokens_ok st'" and seq: "token_seq st \<le> token_seq st'"
  shows "served_ok i since n st'"
proof -
  have gone: "token_seq st < i \<Longrightarrow> n = 0" using ok by (simp add: served_ok_def)
  have "granted_ok since n t'" if t': "t' \<in> set (api_tokens st')" "tok_id t' = i" for t'
  proof -
    have "0 \<le> tok_window_count t'" using assms(3) t'(1) by (auto simp: tokens_ok_def within_quota_def)
    then show ?thesis using st' [OF t'] gone ok by (auto simp: served_ok_def granted_ok_def)
  qed
  then show ?thesis using assms(3) gone seq by (auto simp: served_ok_def)
qed

lemma request_served:
  assumes ok: "served_ok i since n st" and time: "since \<le> now" "now < since + 60000"
    and req: "authenticate_api_token E now token ip st = (res, st')"
  shows "served_ok i since (if \<exists>s. res = Inr s \<and> as_token s = i then Suc n else n) st'"
proof (cases res)
  case (Inl e)
  with ok api_request_Inl [of E now token ip st e st'] req show ?thesis by simp
next
  case (Inr s)
  from req [unfolded Inr] obtain t where t: "t \<in> set (api_tokens st)" "as_token s = tok_id t"
    "affected (\<lambda>u. tok_id u = tok_id t \<and> quota_left now u) (api_tokens st) = 1"
    "st' = st\<lparr>api_tokens := modify (\<lambda>u. tok_id u = tok_id t \<and> quota_left now u) (use_quota now ip) (api_tokens st)\<rparr>"
    by (rule api_request_Inr)
  have toks: "tokens_ok st" using ok by (simp add: served_ok_def)
  then have "tokens_ok st'" using tokens_ok_operations(4) [of st E now token ip] req by simp
  obtain u where u: "u \<in> set (api_tokens st)" "tok_id u = tok_id t" "quota_left now u"
    using t(3) affected_0 [of "\<lambda>u. tok_id u = tok_id t \<and> quota_left now u" "api_tokens st"] by auto
  have "u = t" using u(1,2) t(1) toks by (auto simp: tokens_ok_def dest: distinct_map_inj)
  have seq: "token_seq st' = token_seq st" by (simp add: t(4))
  show ?thesis
  proof (cases "tok_id t = i")
    case False
    have "served_ok i since n st'"
    proof (rule served_row [OF ok _ \<open>tokens_ok st'\<close>])
      fix t' assume "t' \<in> set (api_tokens st')" "tok_id t' = i"
      then have "t' \<in> set (api_tokens st)" using False by (auto simp: t(4) elim!: in_set_modifyE split: if_splits)
      with \<open>tok_id t' = i\<close> show "(\<exists>t \<in> set (api_tokens st). tok_id t = i \<and> tok_window_start t' = tok_window_start t \<and>
        tok_window_count t' = tok_window_count t \<and> tok_rate t' = tok_rate t) \<or> token_seq st < i" by blast
    qed (simp add: seq)
    with False Inr t(2) show ?thesis by simp
  next
    case True
    have "granted_ok since (Suc n) t'" if t': "t' \<in> set (api_tokens st')" "tok_id t' = i" for t'
    proof -
      from t'(1) obtain v where v: "v \<in> set (api_tokens st)"
        "t' = (if tok_id v = tok_id t \<and> quota_left now v then use_quota now ip v else v)"
        unfolding t(4) by (auto elim!: in_set_modifyE)
      then have "tok_id v = i" using t'(2) by (auto split: if_splits)
      then have "v = t" using v(1) t(1) True toks by (auto simp: tokens_ok_def dest: distinct_map_inj)
      then have "t' = use_quota now ip t" using v(2) u(3) \<open>u = t\<close> by simp
      moreover have "granted_ok since n t" "within_quota t"
        using ok t(1) True toks by (auto simp: served_ok_def tokens_ok_def)
      ultimately show ?thesis using grant_use [of since n t now ip] u(3) \<open>u = t\<close> time by simp
    qed
    moreover have "\<not> token_seq st < i" using t(1) True toks by (auto simp: tokens_ok_def)
    ultimately show ?thesis using \<open>tokens_ok st'\<close> True Inr t(2) by (simp add: served_ok_def seq)
  qed
qed

lemma served_part: "served_ok i since n st \<Longrightarrow> token_part st' = token_part st \<Longrightarrow> served_ok i since n st'"
  by (simp add: served_ok_def token_part_def tokens_ok_def)

lemma token_steps_served:
  assumes ok: "served_ok i since n st"
  shows "served_ok i since n (drop_permit j st)"
    and "served_ok i since n (snd (create_api_token E actor source fresh st))"
    and "served_ok i since n (snd (revoke_api_token at actor j st))"
    and "served_ok i since n (snd (delete_revoked_api_token actor j st))"
proof -
  have toks: "tokens_ok st" using ok by (simp add: served_ok_def)
  note t = tokens_ok_operations [OF toks]
  show "served_ok i since n (drop_permit j st)"
    by (rule served_row [OF ok _ t(5)]) (auto simp: drop_permit_def elim!: in_set_modifyE)
  show "served_ok i since n (snd (create_api_token E actor source fresh st))"
    by (rule served_row [OF ok _ t(1)])
      (auto simp: create_api_token_def Let_def audit_by_def record_audit_def new_token_row_def
        split: sum.splits option.splits if_splits)
  show "served_ok i since n (snd (revoke_api_token at actor j st))"
    by (rule served_row [OF ok _ t(2)])
      (auto simp: revoke_api_token_def audit_by_def record_audit_def elim!: in_set_modifyE
        split: option.splits if_splits)
  show "served_ok i since n (snd (delete_revoked_api_token actor j st))"
    by (rule served_row [OF ok _ t(3)])
      (auto simp: delete_revoked_api_token_def audit_by_def record_audit_def split: option.splits)
qed

lemma other_served: "other_auth_step E st st' \<Longrightarrow> served_ok i since n st \<Longrightarrow> served_ok i since n st'"
proof (induction rule: other_auth_step.induct)
  case (other_audit actor action kind target message st)
  then show ?case by (rule served_part) (simp add: record_system_audit_def)
qed (erule token_steps_served | (erule served_part, simp))+

lemma served_invariant: "served E i since st n st' \<Longrightarrow> served_ok i since 0 st \<Longrightarrow> served_ok i since n st'"
proof (induction rule: served.induct)
  case (served_request n st1 now token ip res st2)
  then show ?case using request_served by blast
qed (auto intro: other_served)

text \<open>
  C26. Within a minute a token is granted at most twice the requests of its rate, whatever other
  steps of the service and restarts come in between: the counting window may turn over once,
  never twice.
\<close>

theorem requests_per_minute_are_bounded:
  assumes "auth_reachable E st" and "served E i since st n st'"
    and "t \<in> set (api_tokens st')" and "tok_id t = i"
  shows "int n \<le> 2 * tok_rate t"
proof -
  have "tokens_ok st" by (rule reachable_tokens [OF assms(1)])
  then have "served_ok i since 0 st"
    by (auto simp: served_ok_def granted_ok_def tokens_ok_def within_quota_def)
  from served_invariant [OF assms(2) this] assms(3,4) have "granted_ok since n t" "within_quota t"
    by (auto simp: served_ok_def tokens_ok_def)
  then show ?thesis by (auto simp: granted_ok_def within_quota_def)
qed

section \<open>A restart\<close>

text \<open>
  A restart leaves the counters of requests in flight as they are, although no request is
  left: a token that had all its requests in flight is refused until its counter is reset by
  hand.
\<close>

lemma restart_keeps_requests_in_flight:
  assumes t: "find (usable_token st now (token_digest E token)) (api_tokens st) = Some t"
    and full: "tok_active t = tok_max t" and one: "distinct (map tok_id (api_tokens st))"
    and scopes: "parse_ids E (tok_apps t) = Some apps" "parse_ids E (tok_units t) = Some us"
  shows "authenticate_api_token E now token ip (start_service st) =
     (Inl (AuthRateLimited QuotaExceeded), start_service st)"
proof -
  have same: "usable_token (start_service st) = usable_token st"
    by (simp add: fun_eq_iff usable_token_def account_active_def)
  have "account_active st (tok_account t)" using find_SomeD [OF t] by (simp add: usable_token_def)
  then obtain a where a: "find (\<lambda>a. acc_id a = tok_account t) (accounts st) = Some a"
    by (cases "find (\<lambda>a. acc_id a = tok_account t) (accounts st)") (auto simp: account_active_def dest: find_NoneD)
  have "affected (\<lambda>u. tok_id u = tok_id t \<and> quota_left now u) (api_tokens st) = 0"
    unfolding affected_0
  proof (intro ballI notI)
    fix u assume u: "u \<in> set (api_tokens st)" "tok_id u = tok_id t \<and> quota_left now u"
    then have "u = t" using find_SomeD [OF t] distinct_map_inj [OF one] by blast
    then show False using u(2) full by (simp add: quota_left_def)
  qed
  then show ?thesis using t a scopes by (simp add: authenticate_api_token_def same)
qed

section \<open>Witnesses\<close>

definition sample_actor_session :: current_session where
  "sample_actor_session = \<lparr> cs_id = 1, cs_account = account_of (hd (accounts sample_auth)), cs_roles = [],
     cs_permissions = [], cs_super = True, cs_csrf = [], cs_access = [1, 1] \<rparr>"

definition sample_token_state :: auth where
  "sample_token_state = snd (create_api_token sample_crates sample_actor_session (lit ''ci'') (Some [9]) sample_auth)"

lemma sample_token_reachable: "auth_reachable sample_crates sample_token_state"
  unfolding sample_token_state_def by (rule auth_reachable.step [OF sample_reachable_auth]) (rule do_create_token)

lemma sample_auth_tokens: "api_tokens sample_auth = []" "token_seq sample_auth = 0"
proof -
  have "token_part sample_auth = token_part sample_install" unfolding sample_auth_def by simp
  then show "api_tokens sample_auth = []" "token_seq sample_auth = 0"
    by (simp_all add: token_part_def sample_install_def)
qed

lemma sample_token_row:
  "\<exists>t. api_tokens sample_token_state = [t] \<and> tok_id t = 1 \<and> tok_rate t = 60 \<and> tok_max t = 2 \<and>
     tok_active t = 0 \<and> tok_hash t = [9] \<and> tok_status t = TokenActive \<and> tok_expires t = None \<and>
     tok_account t = 1 \<and> tok_window_start t = None \<and> tok_window_count t = 0 \<and>
     accounts sample_token_state = accounts sample_auth"
  using sample_auth_tokens
  by (simp add: sample_token_state_def create_api_token_def normalize_api_token_source_def trim_def
      trim_start_def is_white_def lit_def audit_by_def record_audit_def new_token_row_def sample_crates_def
      sample_actor_session_def account_of_def sample_auth_value token_part_def Let_def)

theorem tokens_stay_within_quota_witness:
  "\<exists>t \<in> set (api_tokens sample_token_state). tok_active t \<le> tok_max t"
proof -
  obtain t where "t \<in> set (api_tokens sample_token_state)" using sample_token_row by auto
  with tokens_stay_within_quota [OF sample_token_reachable this] show ?thesis by blast
qed

lemma sample_request:
  "\<exists>s st'. authenticate_api_token sample_crates 50 [9] [] sample_token_state = (Inr s, st') \<and> as_token s = 1 \<and>
     (\<exists>t \<in> set (api_tokens st'). tok_id t = 1 \<and> tok_rate t = 60)"
  using sample_token_row
  by (auto simp: authenticate_api_token_def usable_token_def account_active_def sample_auth_value
      sample_crates_def quota_left_def window_over_def use_quota_def)

theorem requests_per_minute_are_bounded_witness:
  "\<exists>st' t. served sample_crates 1 50 sample_token_state 1 st' \<and> t \<in> set (api_tokens st') \<and> tok_id t = 1 \<and>
     int 1 \<le> 2 * tok_rate t"
proof -
  obtain s st' t where r: "authenticate_api_token sample_crates 50 [9] [] sample_token_state = (Inr s, st')"
    "as_token s = 1" and t: "t \<in> set (api_tokens st')" "tok_id t = 1" using sample_request by blast
  have "served sample_crates 1 50 sample_token_state (if \<exists>q. Inr s = (Inr q :: auth_error + api_session) \<and> as_token q = 1 then Suc 0 else 0) st'"
    by (rule served_request [OF served_none _ _ r(1)]) simp_all
  then have "served sample_crates 1 50 sample_token_state 1 st'" using r(2) by simp
  from requests_per_minute_are_bounded [OF sample_token_reachable this t] this t show ?thesis by blast
qed

end
