(* ===== verification/Role_Properties.thy ===== *)
theory Role_Properties
  imports Api_Tokens
begin

text \<open>
  The permissions of roles: the closure under dependencies, and the registry after a start.
\<close>

section \<open>Permissions with their dependencies\<close>

text \<open>The reference: the ids reachable along the dependencies of the registry.\<close>

definition depends :: "permission_row list \<Rightarrow> (int \<times> int) set" where
  "depends ps = {(i, j). \<exists>key. key_of_id ps i = Some key \<and>
     (\<exists>k \<in> set (permission_dependencies key). id_of_key ps k = Some j)}"

lemma fold_push_set:
  "set (fold (push_missing ps) ks ids) = set ids \<union> {j. \<exists>k \<in> set ks. id_of_key ps k = Some j}"
  by (induction ks arbitrary: ids) (auto simp: push_missing_def split: option.splits)

lemma push_dependencies_set: "set (push_dependencies ps i ids) = set ids \<union> depends ps `` {i}"
  by (auto simp: push_dependencies_def depends_def fold_push_set split: option.split)

lemma fold_push_prefix: "\<exists>zs. fold (push_missing ps) ks ids = ids @ zs"
proof (induction ks arbitrary: ids)
  case (Cons k ks)
  have "push_missing ps k ids = ids @ [] \<or> (\<exists>i. push_missing ps k ids = ids @ [i])"
    by (simp add: push_missing_def split: option.split)
  then obtain ys where "push_missing ps k ids = ids @ ys" by blast
  with Cons [of "push_missing ps k ids"] show ?case by auto
qed simp

lemma push_dependencies_prefix: "\<exists>zs. push_dependencies ps i ids = ids @ zs"
  using fold_push_prefix by (simp add: push_dependencies_def split: option.split)

lemma close_loop_set:
  "\<forall>p < cursor. depends ps `` {ids ! p} \<subseteq> set ids \<Longrightarrow> cursor \<le> length ids \<Longrightarrow>
     set (close_loop ps cursor ids) = (depends ps)\<^sup>* `` set ids"
proof (induction ps cursor ids rule: close_loop.induct)
  case (1 ps cursor ids)
  show ?case
  proof (cases "cursor < length ids")
    case True
    let ?next = "push_dependencies ps (ids ! cursor) ids"
    obtain zs where zs: "?next = ids @ zs" using push_dependencies_prefix by blast
    have "depends ps `` {?next ! p} \<subseteq> set ?next" if "p < Suc cursor" for p
    proof (cases "p = cursor")
      case True
      then show ?thesis using \<open>cursor < length ids\<close> zs push_dependencies_set [of ps "ids ! cursor" ids]
        by (auto simp: nth_append)
    next
      case False
      then have "p < cursor" using that by simp
      then have "depends ps `` {ids ! p} \<subseteq> set ids" "?next ! p = ids ! p"
        using 1(2) True by (auto simp: zs nth_append)
      then show ?thesis by (auto simp: zs)
    qed
    then have "set (close_loop ps (Suc cursor) ?next) = (depends ps)\<^sup>* `` set ?next"
      using True by (intro 1(1)) (auto simp: zs)
    also have "\<dots> = (depends ps)\<^sup>* `` set ids"
    proof
      have "ids ! cursor \<in> set ids" using True by simp
      then have "set ?next \<subseteq> (depends ps)\<^sup>* `` set ids" by (auto simp: push_dependencies_set)
      then show "(depends ps)\<^sup>* `` set ?next \<subseteq> (depends ps)\<^sup>* `` set ids"
        using Image_mono [OF subset_refl, of _ _ "(depends ps)\<^sup>*"]
        by (metis relcomp_Image rtrancl_idemp_self_comp)
      show "(depends ps)\<^sup>* `` set ids \<subseteq> (depends ps)\<^sup>* `` set ?next" by (auto simp: zs)
    qed
    finally show ?thesis using True by (simp add: close_loop.simps)
  next
    case False
    then have "depends ps `` set ids \<subseteq> set ids"
      using 1(2,3) by (fastforce simp: in_set_conv_nth)
    then have "(depends ps)\<^sup>* `` set ids = set ids" by (rule Image_closed_trancl)
    with False show ?thesis by (simp add: close_loop.simps)
  qed
qed

lemma unique_ids_sorted_list: "unique_ids ids = sorted_list_of_set (set ids)"
proof (rule sorted_distinct_set_unique)
  show "sorted (unique_ids ids)" by (simp add: unique_ids_def sorted_remdups_adj)
  show "distinct (unique_ids ids)" by (simp add: unique_ids_def distinct_remdups_adj_sorted)
qed auto

lemma unique_ids_eq_Nil [simp]: "unique_ids ids = [] \<longleftrightarrow> ids = []"
  using set_unique_ids [of ids] by (metis set_empty)

lemma key_of_id_None: "key_of_id ps i = None \<longleftrightarrow> i \<notin> perm_id ` set ps"
  by (auto simp: key_of_id_def find_None_iff)

text \<open>
  C27. The permissions a role is given are the requested ones with everything they depend on,
  directly or through others, in ascending order and without repetition; a request that names
  an id of no permission is refused. The loop over the growing list always ends.
\<close>

theorem permissions_are_closed_under_dependencies:
  "normalized_permission_ids st ids =
     (if set ids \<subseteq> perm_id ` set (permissions st)
      then Inr (sorted_list_of_set ((depends (permissions st))\<^sup>* `` set ids))
      else Inl (AuthInvalid PermissionMissing))"
proof -
  have "set (close_loop (permissions st) 0 (unique_ids ids)) = (depends (permissions st))\<^sup>* `` set ids"
    using close_loop_set [of 0 "permissions st" "unique_ids ids"] by simp
  then show ?thesis
    by (auto simp: normalized_permission_ids_def Let_def key_of_id_None unique_ids_sorted_list)
qed

section \<open>The registry after a start\<close>

lemma set_map_modify: "(\<And>r. p r \<Longrightarrow> g (f r) = g r) \<Longrightarrow> g ` set (modify p f xs) = g ` set xs"
  using map_modify [of p g f xs] by (metis list.set_map)

lemma upsert_keys:
  "perm_key ` set (permissions (upsert_permission d st)) = insert (pd_key d) (perm_key ` set (permissions st))"
  by (auto simp: upsert_permission_def set_map_modify intro: rev_image_eqI)

definition permission_table_ok :: "auth \<Rightarrow> bool" where
  "permission_table_ok st \<longleftrightarrow> distinct (map perm_id (permissions st)) \<and> distinct (map perm_key (permissions st)) \<and>
     (\<forall>p \<in> set (permissions st). perm_id p \<le> permission_seq st)"

lemma upsert_table_ok: "permission_table_ok st \<Longrightarrow> permission_table_ok (upsert_permission d st)"
  by (force simp: permission_table_ok_def upsert_permission_def map_modify set_modify)

lemma upserts:
  "permission_table_ok st \<Longrightarrow> permission_table_ok (fold upsert_permission ds st) \<and>
     perm_key ` set (permissions (fold upsert_permission ds st)) = pd_key ` set ds \<union> perm_key ` set (permissions st)"
proof (induction ds arbitrary: st)
  case (Cons d ds)
  from Cons.IH [OF upsert_table_ok [OF Cons.prems]] show ?case by (auto simp: upsert_keys)
qed simp

lemma permissions_deleted:
  "permissions (fold delete_permission is st) = filter (\<lambda>p. perm_id p \<notin> set is) (permissions st)"
  "permission_seq (fold delete_permission is st) = permission_seq st"
proof (induction "is" arbitrary: st)
  case (Cons i "is")
  { case 1 show ?case by (simp add: Cons(1)) (simp add: delete_permission_def conj_commute) }
  { case 2 show ?case by (simp add: Cons(2)) (simp add: delete_permission_def) }
qed simp_all

lemma stale_deleted:
  assumes "permission_table_ok st"
  shows "permissions (delete_stale_permissions st) =
       filter (\<lambda>p. perm_key p \<in> pd_key ` set all_permissions) (permissions st)"
    and "permission_table_ok (delete_stale_permissions st)"
proof -
  have d: "distinct (map perm_id (permissions st))" using assms by (simp add: permission_table_ok_def)
  show eq: "permissions (delete_stale_permissions st) =
      filter (\<lambda>p. perm_key p \<in> pd_key ` set all_permissions) (permissions st)"
    unfolding delete_stale_permissions_def permissions_deleted
    by (rule filter_cong) (auto dest: distinct_map_inj [OF d])
  have "permission_seq (delete_stale_permissions st) = permission_seq st"
    by (simp add: delete_stale_permissions_def permissions_deleted)
  then show "permission_table_ok (delete_stale_permissions st)"
    using assms by (auto simp: permission_table_ok_def eq distinct_map_filter)
qed

section \<open>What the built-in roles may do\<close>

fun scope_keys :: "permission_scope \<Rightarrow> ustr set" where
  "scope_keys AllCurrent = pd_key ` set all_permissions"
| "scope_keys (Explicit keys) = lit ` set keys"

definition keys_of_role :: "auth \<Rightarrow> int \<Rightarrow> ustr set" where
  "keys_of_role st role =
     perm_key ` {p \<in> set (permissions st). (role, perm_id p) \<in> set (role_permissions st)}"

lemma sync_role_permissions [simp]: "permissions (sync_role q st) = permissions st"
  "roles (sync_role q st) = roles st"
  by (simp_all add: sync_role_def split: prod.split option.split)

lemma folded_sync [simp]: "permissions (fold sync_role qs st) = permissions st"
  "roles (fold sync_role qs st) = roles st"
  by (simp_all add: fold_keeps)

text \<open>The keys of a scope as the source spells them, checked against the registry and the arms.\<close>

fun scope_names :: "permission_scope \<Rightarrow> string list" where
  "scope_names AllCurrent = map fst permission_registry"
| "scope_names (Explicit keys) = keys"

definition arms_closed :: "string list \<Rightarrow> bool" where
  "arms_closed names \<longleftrightarrow> list_all (\<lambda>(keys, deps). list_all (\<lambda>k. k \<notin> set names) keys \<or>
     list_all (\<lambda>d. d \<in> set names) deps) dependency_arms"

definition registered :: "string list \<Rightarrow> bool" where
  "registered names \<longleftrightarrow> list_all (\<lambda>k. k \<in> set (map fst permission_registry)) names"

lemma names_checked:
  "registered deployer_keys" "registered operator_keys" "registered viewer_keys" "registered auditor_keys"
  by (simp_all add: registered_def permission_registry_def deployer_keys_def operator_keys_def
      viewer_keys_def auditor_keys_def)

lemma registry_closed: "arms_closed (map fst permission_registry)"
  by (simp add: arms_closed_def dependency_arms_def permission_registry_def)

lemma roles_closed:
  "arms_closed deployer_keys" "arms_closed operator_keys" "arms_closed viewer_keys" "arms_closed auditor_keys"
  by (simp_all add: arms_closed_def dependency_arms_def deployer_keys_def operator_keys_def
      viewer_keys_def auditor_keys_def)

lemma policy_codes_distinct: "distinct (map fst builtin_role_policies)"
  by (simp add: builtin_role_policies_def)

lemma arms_closedD:
  assumes "arms_closed names" and "k \<in> set names"
  shows "set (permission_dependencies (lit k)) \<subseteq> lit ` set names"
proof (cases "find (\<lambda>(keys, _). lit k \<in> set (map lit keys)) dependency_arms")
  case (Some arm)
  obtain keys deps where arm: "arm = (keys, deps)" by (cases arm)
  have "(keys, deps) \<in> set dependency_arms" "k \<in> set keys"
    using find_SomeD [OF Some] by (auto simp: arm)
  then have "set deps \<subseteq> set names" using assms by (auto simp: arms_closed_def list_all_iff)
  then show ?thesis using Some arm by (auto simp: permission_dependencies_def)
qed (simp add: permission_dependencies_def)

definition links :: "auth \<Rightarrow> int \<Rightarrow> int set" where
  "links st role = {p. (role, p) \<in> set (role_permissions st)}"

definition role_table_ok :: "auth \<Rightarrow> bool" where
  "role_table_ok st \<longleftrightarrow> distinct (map role_id (roles st)) \<and> distinct (map role_code (roles st))"

lemma sync_role_links:
  assumes "role_table_ok st" and "r \<in> set (roles st)"
  shows "links (sync_role (code, scope) st) (role_id r) =
     (if role_code r = lit code then set (scope_ids st scope) else links st (role_id r))"
proof (cases "find (\<lambda>r. role_code r = lit code) (roles st)")
  case None
  with find_NoneD [OF None assms(2)] show ?thesis by (simp add: sync_role_def)
next
  case (Some q)
  then have q: "q \<in> set (roles st)" "role_code q = lit code" by (auto dest: find_SomeD)
  have "role_id r = role_id q \<longleftrightarrow> role_code r = lit code"
  proof
    assume "role_id r = role_id q"
    then have "r = q" using assms q(1) distinct_map_inj [of role_id "roles st" r q] by (simp add: role_table_ok_def)
    then show "role_code r = lit code" using q by simp
  next
    assume "role_code r = lit code"
    then have "r = q" using assms q distinct_map_inj [of role_code "roles st" r q] by (simp add: role_table_ok_def)
    then show "role_id r = role_id q" by simp
  qed
  then show ?thesis using Some by (auto simp: sync_role_def links_def role_permissions_replaced)
qed

lemma scope_ids_permissions: "permissions st' = permissions st \<Longrightarrow> scope_ids st' scope = scope_ids st scope"
  by (cases scope) simp_all

lemma synced_links:
  "role_table_ok st \<Longrightarrow> r \<in> set (roles st) \<Longrightarrow> distinct (map fst qs) \<Longrightarrow>
     links (fold sync_role qs st) (role_id r) =
       (case find (\<lambda>(code, _). role_code r = lit code) qs of
          None \<Rightarrow> links st (role_id r) | Some (_, scope) \<Rightarrow> set (scope_ids st scope))"
proof (induction qs arbitrary: st)
  case (Cons q qs)
  obtain code scope where q: "q = (code, scope)" by (cases q)
  have ok: "role_table_ok (sync_role q st)" "r \<in> set (roles (sync_role q st))"
    using Cons.prems(1,2) by (simp_all add: role_table_ok_def)
  have none: "find (\<lambda>(c, _). role_code r = lit c) qs = None" if "role_code r = lit code"
    using Cons.prems(3) that by (auto simp: find_None_iff q image_iff)
  have same: "scope_ids (sync_role q st) sc = scope_ids st sc" for sc by (rule scope_ids_permissions) simp
  have rest: "links (fold sync_role (q # qs) st) (role_id r) =
      (case find (\<lambda>(code, _). role_code r = lit code) qs of
         None \<Rightarrow> links (sync_role q st) (role_id r) | Some (_, sc) \<Rightarrow> set (scope_ids st sc))"
    using Cons.IH [OF ok] Cons.prems(3) by (simp add: same cong del: option.case_cong_weak)
  note link = sync_role_links [OF Cons.prems(1,2), of code scope]
  show ?case
  proof (cases "role_code r = lit code")
    case True
    then show ?thesis using rest none link by (simp add: q)
  next
    case False
    then show ?thesis using rest link by (simp add: q cong del: option.case_cong_weak)
  qed
qed simp

lemma policy_found:
  assumes "(code, scope) \<in> set builtin_role_policies"
  shows "find (\<lambda>(c, _). lit code = lit c) builtin_role_policies = Some (code, scope)"
proof (rule find_unique [OF assms])
  fix q assume q: "q \<in> set builtin_role_policies" "(case q of (c, _) \<Rightarrow> lit code = lit c)"
  have "fst q = fst (code, scope)" using q(2) by (simp split: prod.splits)
  then show "q = (code, scope)" by (rule distinct_map_inj [OF policy_codes_distinct q(1) assms])
qed simp

lemma policies_checked:
  assumes "(code, scope) \<in> set builtin_role_policies"
  shows "registered (scope_names scope)" and "arms_closed (scope_names scope)"
proof -
  have all: "registered (map fst permission_registry)" by (simp add: registered_def list_all_iff)
  show "registered (scope_names scope)"
    using assms names_checked all by (auto simp: builtin_role_policies_def)
  show "arms_closed (scope_names scope)"
    using assms roles_closed registry_closed by (auto simp: builtin_role_policies_def)
qed

lemma registry_keys: "pd_key ` set all_permissions = lit ` set (map fst permission_registry)"
  by (force simp: all_permissions_def make_permission_def)

lemma id_of_key_eq:
  assumes "distinct (map perm_key ps)"
  shows "id_of_key ps k = Some i \<longleftrightarrow> (\<exists>p \<in> set ps. perm_key p = k \<and> perm_id p = i)"
proof
  assume "\<exists>p \<in> set ps. perm_key p = k \<and> perm_id p = i"
  then obtain p where p: "p \<in> set ps" "perm_key p = k" "perm_id p = i" by blast
  from find_key [OF assms p(1,2)] p(3) show "id_of_key ps k = Some i" by (simp add: id_of_key_def)
qed (auto simp: id_of_key_def dest: find_SomeD)

lemma scope_ids_keys:
  assumes ok: "permission_table_ok st" and keys: "perm_key ` set (permissions st) = lit ` set (map fst permission_registry)"
    and names: "registered (scope_names scope)"
  shows "perm_key ` {p \<in> set (permissions st). perm_id p \<in> set (scope_ids st scope)} = lit ` set (scope_names scope)"
proof (cases scope)
  case AllCurrent
  then have "{p \<in> set (permissions st). perm_id p \<in> set (scope_ids st scope)} = set (permissions st)" by auto
  then show ?thesis using keys AllCurrent by simp
next
  case (Explicit names')
  have d: "distinct (map perm_key (permissions st))" "distinct (map perm_id (permissions st))"
    using ok by (simp_all add: permission_table_ok_def)
  have ids: "perm_id p \<in> set (scope_ids st scope) \<longleftrightarrow> perm_key p \<in> lit ` set names'"
    if p: "p \<in> set (permissions st)" for p
  proof -
    have "q = p" if "q \<in> set (permissions st)" "perm_id q = perm_id p" for q
      using that p distinct_map_inj [OF d(2)] by blast
    then show ?thesis using p by (auto simp: Explicit set_map_filter id_of_key_eq [OF d(1)])
  qed
  have "lit ` set names' \<subseteq> perm_key ` set (permissions st)"
    using names keys by (auto simp: Explicit registered_def list_all_iff)
  moreover have "{p \<in> set (permissions st). perm_id p \<in> set (scope_ids st scope)} =
      {p \<in> set (permissions st). perm_key p \<in> lit ` set names'}" using ids by blast
  moreover have "perm_key ` {p \<in> set (permissions st). perm_key p \<in> lit ` set names'} =
      perm_key ` set (permissions st) \<inter> lit ` set names'" by blast
  ultimately show ?thesis by (simp add: Explicit Int_absorb1)
qed

text \<open>
  C28. A start leaves exactly the permissions of the registry, and every built-in role that
  exists with exactly the permissions of its policy, among them all that any of them depends
  on; what was there before does not matter.
\<close>

theorem start_synchronises_the_registry:
  assumes "permission_table_ok st" and "role_table_ok st"
  shows "perm_key ` set (permissions (start_service st)) = pd_key ` set all_permissions \<and>
    (\<forall>(code, scope) \<in> set builtin_role_policies. \<forall>r \<in> set (roles st). role_code r = lit code \<longrightarrow>
       keys_of_role (start_service st) (role_id r) = lit ` set (scope_names scope) \<and>
       (\<forall>k \<in> keys_of_role (start_service st) (role_id r).
          set (permission_dependencies k) \<subseteq> keys_of_role (start_service st) (role_id r)))"
proof -
  let ?st0 = "st\<lparr>session_store := empty_store\<rparr>"
  let ?st1 = "fold upsert_permission all_permissions ?st0"
  let ?st2 = "delete_stale_permissions ?st1"
  have start: "start_service st = fold sync_role builtin_role_policies ?st2"
    by (simp add: start_service_def sync_permission_registry_def sync_builtin_role_permissions_def)
  have "permission_table_ok ?st0" using assms(1) by (simp add: permission_table_ok_def)
  note up = upserts [OF this, of all_permissions]
  note del = stale_deleted [OF up [THEN conjunct1]]
  have keys: "perm_key ` set (permissions ?st2) = pd_key ` set all_permissions"
    using up by (force simp: del(1))
  have roles2: "roles ?st2 = roles st"
    using start_fields(2) [of st] by (simp add: start)
  then have ok2: "role_table_ok ?st2" using assms(2) by (simp add: role_table_ok_def)
  have role: "keys_of_role (start_service st) (role_id r) = lit ` set (scope_names scope) \<and>
       (\<forall>k \<in> keys_of_role (start_service st) (role_id r).
          set (permission_dependencies k) \<subseteq> keys_of_role (start_service st) (role_id r))"
    if q: "(code, scope) \<in> set builtin_role_policies" and r: "r \<in> set (roles st)" "role_code r = lit code"
    for code scope r
  proof -
    have "links (start_service st) (role_id r) = set (scope_ids ?st2 scope)"
      using synced_links [OF ok2 _ policy_codes_distinct, of r] r policy_found [OF q]
      by (simp add: start roles2)
    then have "keys_of_role (start_service st) (role_id r) = lit ` set (scope_names scope)"
      using scope_ids_keys [OF del(2) keys [unfolded registry_keys] policies_checked(1) [OF q]]
      by (simp add: keys_of_role_def links_def start set_eq_iff)
    then show ?thesis using arms_closedD [OF policies_checked(2) [OF q]] by auto
  qed
  have "permissions (start_service st) = permissions ?st2" by (simp add: start)
  then have "perm_key ` set (permissions (start_service st)) = pd_key ` set all_permissions" using keys by simp
  moreover have "case q of (code, scope) \<Rightarrow> \<forall>r \<in> set (roles st). role_code r = lit code \<longrightarrow>
       keys_of_role (start_service st) (role_id r) = lit ` set (scope_names scope) \<and>
       (\<forall>k \<in> keys_of_role (start_service st) (role_id r).
          set (permission_dependencies k) \<subseteq> keys_of_role (start_service st) (role_id r))"
    if q: "q \<in> set builtin_role_policies" for q
  proof (cases q)
    case (Pair code scope)
    show ?thesis unfolding Pair prod.case by (intro ballI impI) (rule role [OF q [unfolded Pair]])
  qed
  ultimately show ?thesis by blast
qed

theorem start_synchronises_the_registry_witness:
  "permission_table_ok sample_install \<and> role_table_ok sample_install \<and>
     keys_of_role (start_service sample_install) 1 = lit ` set (map fst permission_registry)"
proof -
  have ok: "permission_table_ok sample_install" "role_table_ok sample_install"
    by (simp_all add: permission_table_ok_def role_table_ok_def sample_install_def)
  have "(''super_admin'', AllCurrent) \<in> set builtin_role_policies" by (simp add: builtin_role_policies_def)
  note role = bspec [OF conjunct2 [OF start_synchronises_the_registry [OF ok]] this, unfolded prod.case]
  let ?r = "hd (roles sample_install)"
  have r: "?r \<in> set (roles sample_install)" "role_code ?r = lit ''super_admin''" "role_id ?r = 1"
    by (simp_all add: sample_install_def)
  have "keys_of_role (start_service sample_install) (role_id ?r) = lit ` set (scope_names AllCurrent)"
    by (rule conjunct1 [OF mp [OF bspec [OF role r(1)] r(2)]])
  then show ?thesis using ok by (simp only: r(3) scope_names.simps simp_thms)
qed

end
