(* ===== verification/Log_Redaction.thy ===== *)
theory Log_Redaction
  imports Prelude
begin

text \<open>
  Masking secrets in a stream of output (\<open>StreamingRedactor\<close> and \<open>redact_log_text\<close> of
  \<open>api/src/deployment_retention.rs\<close>), as it runs over bytes: where a secret or the assignment of
  a credential starts, the redactor with the bytes it holds back, and a reference that reads
  the whole text. Secrets are given as the bytes of their text; reading the redacted bytes as
  text again is not modelled.
\<close>

section \<open>Where a secret or an assignment starts\<close>

type_synonym bytes = "nat list"

definition is_ascii_white :: "nat \<Rightarrow> bool" where
  "is_ascii_white b \<longleftrightarrow> b \<in> {9, 10, 12, 13, 32}"

definition assignment_keys :: "bytes list" where
  "assignment_keys = map lit [''password'', ''token'', ''secret'', ''authorization'']"

definition starts_with_key :: "bytes \<Rightarrow> bytes \<Rightarrow> bool" where
  "starts_with_key key v \<longleftrightarrow> length key \<le> length v \<and> map ascii_lower (take (length key) v) = key"

definition white_run :: "bytes \<Rightarrow> nat" where
  "white_run v = length (takeWhile is_ascii_white v)"

definition assignment_at :: "bytes \<Rightarrow> bytes \<Rightarrow> nat option" where
  "assignment_at key v =
    (if \<not> starts_with_key key v then None
     else let i = length key + white_run (drop (length key) v)
          in if i < length v \<and> v ! i \<in> {58, 61}
             then Some (i + 1 + white_run (drop (i + 1) v)) else None)"

fun first_assignment :: "bytes list \<Rightarrow> bytes \<Rightarrow> nat option" where
  "first_assignment [] v = None"
| "first_assignment (key # keys) v =
    (case assignment_at key v of Some n \<Rightarrow> Some n | None \<Rightarrow> first_assignment keys v)"

definition sensitive_assignment_prefix :: "bytes \<Rightarrow> nat option" where
  "sensitive_assignment_prefix = first_assignment assignment_keys"

text \<open>Line feed, carriage return, both quotes, comma and ampersand.\<close>

definition is_assignment_terminator :: "nat \<Rightarrow> bool" where
  "is_assignment_terminator b \<longleftrightarrow> b \<in> {10, 13, 39, 34, 44, 38}"

definition redaction_mark :: bytes where
  "redaction_mark = lit ''[REDACTED]''"

text \<open>The constructor leaves no empty secret, so the test for it never decides.\<close>

definition secret_at :: "bytes list \<Rightarrow> bytes \<Rightarrow> bytes option" where
  "secret_at secrets v = find (\<lambda>s. s \<noteq> [] \<and> take (length s) v = s) secrets"

lemma secret_at_Some: "secret_at secrets v = Some s \<Longrightarrow> s \<in> set secrets \<and> s \<noteq> [] \<and> take (length s) v = s"
  by (auto simp: secret_at_def dest: find_SomeD)

lemma assignment_at_pos: "assignment_at key v = Some n \<Longrightarrow> 0 < n"
  by (auto simp: assignment_at_def Let_def split: if_splits)

lemma first_assignment_pos: "first_assignment keys v = Some n \<Longrightarrow> 0 < n"
  by (induction keys) (auto split: option.splits dest: assignment_at_pos)

lemma sensitive_pos: "sensitive_assignment_prefix v = Some n \<Longrightarrow> 0 < n"
  unfolding sensitive_assignment_prefix_def by (rule first_assignment_pos)

section \<open>The redactor\<close>

record redactor =
  rd_secrets :: "bytes list"
  rd_pending :: bytes
  rd_overlap :: nat
  rd_masking :: bool

definition byte_lengths :: "bytes list \<Rightarrow> nat" where
  "byte_lengths secrets = foldr max (map length secrets) 0"

text \<open>The secrets come as the bytes of their text, the longest first.\<close>

definition new_redactor :: "bytes list \<Rightarrow> redactor" where
  "new_redactor secrets =
    (let ss = remdups_adj (sort_key (\<lambda>s. - int (length s)) (filter (\<lambda>s. s \<noteq> []) secrets))
     in \<lparr> rd_secrets = ss, rd_pending = [],
          rd_overlap = max ((if ss = [] then 1 else byte_lengths ss) - 1) 256,
          rd_masking = False \<rparr>)"

text \<open>
  The loop of \<open>process\<close> on the rest of the pending bytes, of which \<open>safe\<close> may be decided:
  the output, the bytes that stay pending and whether a value is being masked.
\<close>

function process_from :: "bytes list \<Rightarrow> bool \<Rightarrow> nat \<Rightarrow> bytes \<Rightarrow> bool \<Rightarrow> bytes \<times> bytes \<times> bool" where
  "process_from secrets final safe v masking =
    (if safe = 0 then ([], v, masking)
     else case v of [] \<Rightarrow> ([], [], masking)
     | b # rest \<Rightarrow>
       if masking then
         if is_assignment_terminator b
         then let (out, p, m) = process_from secrets final (safe - 1) rest False in (b # out, p, m)
         else process_from secrets final (safe - 1) rest True
       else case secret_at secrets v of
         Some s \<Rightarrow>
           let (out, p, m) = process_from secrets final (safe - length s) (drop (length s) v) False
           in (redaction_mark @ out, p, m)
       | None \<Rightarrow> (case sensitive_assignment_prefix v of
           Some n \<Rightarrow>
             if safe < n \<and> \<not> final then ([], v, False)
             else let (out, p, m) = process_from secrets final (safe - n) (drop n v) True
                  in (take n v @ redaction_mark @ out, p, m)
         | None \<Rightarrow>
             let (out, p, m) = process_from secrets final (safe - 1) rest False in (b # out, p, m)))"
  by pat_completeness auto
termination
  by (relation "measure (\<lambda>(secrets, final, safe, v, masking). safe)")
    (auto dest: sensitive_pos secret_at_Some)

declare process_from.simps [simp del]

definition process :: "bool \<Rightarrow> redactor \<Rightarrow> bytes \<times> redactor" where
  "process final r =
    (let safe = (if final then length (rd_pending r) else length (rd_pending r) - rd_overlap r);
         (out, pending, masking) = process_from (rd_secrets r) final safe (rd_pending r) (rd_masking r)
     in (out, r\<lparr> rd_pending := pending, rd_masking := masking \<rparr>))"

definition push :: "bytes \<Rightarrow> redactor \<Rightarrow> bytes \<times> redactor" where
  "push chunk r = process False (r\<lparr>rd_pending := rd_pending r @ chunk\<rparr>)"

definition finish_redactor :: "redactor \<Rightarrow> bytes \<times> redactor" where
  "finish_redactor = process True"

text \<open>\<open>redact_log_text\<close> before its bytes are read as text again.\<close>

definition redact_log_bytes :: "bytes list \<Rightarrow> bytes \<Rightarrow> bytes" where
  "redact_log_bytes secrets content =
    (let (out, r) = push content (new_redactor secrets) in out @ fst (finish_redactor r))"

section \<open>What redaction means\<close>

text \<open>
  The reference reads the whole text from left to right and decides at each place: a value
  under a mask ends at a terminator, a secret becomes a mark, the value of an assignment is
  masked, any other byte stays. \<open>None\<close> stands for a mark.
\<close>

function redacted :: "bytes list \<Rightarrow> bool \<Rightarrow> bytes \<Rightarrow> nat option list" where
  "redacted secrets masking [] = []"
| "redacted secrets masking (b # rest) =
    (if masking then
       if is_assignment_terminator b then Some b # redacted secrets False rest
       else redacted secrets True rest
     else case secret_at secrets (b # rest) of
       Some s \<Rightarrow> None # redacted secrets False (drop (length s) (b # rest))
     | None \<Rightarrow> (case sensitive_assignment_prefix (b # rest) of
         Some n \<Rightarrow> map Some (take n (b # rest)) @ None # redacted secrets True (drop n (b # rest))
       | None \<Rightarrow> Some b # redacted secrets False rest))"
  by pat_completeness auto
termination
  by (relation "measure (\<lambda>(secrets, masking, v). length v)")
    (auto dest: sensitive_pos secret_at_Some)

declare redacted.simps [simp del]

definition shown :: "nat option list \<Rightarrow> bytes" where
  "shown ps = concat (map (\<lambda>p. case p of None \<Rightarrow> redaction_mark | Some b \<Rightarrow> [b]) ps)"

lemma shown_simps [simp]: "shown [] = []" "shown (None # ps) = redaction_mark @ shown ps"
  "shown (Some b # ps) = b # shown ps" "shown (ps @ qs) = shown ps @ shown qs"
  "shown (map Some bs) = bs"
  by (simp_all add: shown_def) (simp add: comp_def)

end
