(* ===== verification/Redaction_Properties.thy ===== *)
theory Redaction_Properties
  imports Log_Redaction
begin

text \<open>
  What redaction shows: the redactor agrees with the reference however its input is cut into
  chunks, no secret is left between two marks, redacting again changes nothing, and the one
  place where a stream and the whole text differ.
\<close>

section \<open>Decisions that more input does not change\<close>

lemma secret_at_append:
  assumes "\<And>s. s \<in> set secrets \<Longrightarrow> length s \<le> length v"
  shows "secret_at secrets (v @ w) = secret_at secrets v"
  unfolding secret_at_def by (rule find_cong) (use assms in auto)

lemma white_run_le: "white_run v \<le> length v"
  by (simp add: white_run_def length_takeWhile_le)

lemma white_run_append: "white_run v < length v \<Longrightarrow> white_run (v @ w) = white_run v"
proof (induction v)
  case (Cons b v)
  then show ?case by (auto simp: white_run_def)
qed simp

lemma white_run_append_le: "white_run v \<le> white_run (v @ w)"
  by (induction v) (auto simp: white_run_def)

lemma starts_with_key_append: "length key \<le> length v \<Longrightarrow> starts_with_key key (v @ w) = starts_with_key key v"
  by (simp add: starts_with_key_def)

lemma assignment_at_le: "assignment_at key v = Some n \<Longrightarrow> n \<le> length v"
  using white_run_le [of "drop (Suc (length key + white_run (drop (length key) v))) v"]
  by (auto simp: assignment_at_def Let_def split: if_splits)

lemma first_assignment_le: "first_assignment keys v = Some n \<Longrightarrow> n \<le> length v"
  by (induction keys) (auto split: option.splits dest: assignment_at_le)

lemma sensitive_le: "sensitive_assignment_prefix v = Some n \<Longrightarrow> n \<le> length v"
  unfolding sensitive_assignment_prefix_def by (rule first_assignment_le)

text \<open>The separator of a key that starts here is seen before the text ends.\<close>

definition separator_seen :: "bytes \<Rightarrow> bytes \<Rightarrow> bool" where
  "separator_seen key v \<longleftrightarrow> length key \<le> length v \<and>
     (starts_with_key key v \<longrightarrow> length key + white_run (drop (length key) v) < length v)"

lemma assignment_at_append:
  assumes seen: "separator_seen key v"
    and fits: "\<And>n. assignment_at key v = Some n \<Longrightarrow> n < length v"
  shows "assignment_at key (v @ w) = assignment_at key v"
proof (cases "starts_with_key key v")
  case True
  define i where "i = length key + white_run (drop (length key) v)"
  have i: "i < length v" and kl: "length key \<le> length v" using seen True by (auto simp: separator_seen_def i_def)
  have sk: "starts_with_key key (v @ w)" using starts_with_key_append [OF kl] True by simp
  have "white_run (drop (length key) v) < length (drop (length key) v)" using i by (simp add: i_def)
  from white_run_append [OF this, of w]
  have i': "length key + white_run (drop (length key) (v @ w)) = i" using kl by (simp add: i_def)
  have at: "assignment_at key v = (if v ! i \<in> {58, 61} then Some (i + 1 + white_run (drop (i + 1) v)) else None)"
    using True i by (simp only: assignment_at_def Let_def i_def [symmetric]) simp
  have at': "assignment_at key (v @ w) =
      (if v ! i \<in> {58, 61} then Some (i + 1 + white_run (drop (i + 1) v @ w)) else None)"
    using sk i by (simp only: assignment_at_def Let_def i') (simp add: nth_append)
  show ?thesis
  proof (cases "v ! i \<in> {58, 61}")
    case sep: True
    then have "i + 1 + white_run (drop (i + 1) v) < length v" using at by (intro fits) simp
    then have "white_run (drop (i + 1) v @ w) = white_run (drop (i + 1) v)" by (intro white_run_append) simp
    then show ?thesis using at at' by simp
  qed (simp only: at at' if_False)
next
  case False
  then show ?thesis using starts_with_key_append [of key v w] seen
    by (simp add: assignment_at_def separator_seen_def)
qed

lemma first_assignment_append:
  assumes "\<And>key. key \<in> set keys \<Longrightarrow> separator_seen key v"
    and "\<And>n. first_assignment keys v = Some n \<Longrightarrow> n < length v"
  shows "first_assignment keys (v @ w) = first_assignment keys v"
  using assms
proof (induction keys)
  case (Cons key keys)
  have "assignment_at key (v @ w) = assignment_at key v"
    using Cons.prems by (intro assignment_at_append) auto
  with Cons show ?case by (auto split: option.splits)
qed simp

lemma sensitive_append:
  assumes "\<And>key. key \<in> set assignment_keys \<Longrightarrow> separator_seen key v"
    and "\<And>n. sensitive_assignment_prefix v = Some n \<Longrightarrow> n < length v"
  shows "sensitive_assignment_prefix (v @ w) = sensitive_assignment_prefix v"
  using assms unfolding sensitive_assignment_prefix_def by (rule first_assignment_append)

section \<open>Processing decides as the reference does\<close>

text \<open>
  No key of an assignment is followed by white space that, with the key, is longer than the
  overlap the redactor holds back.
\<close>

definition assignments_fit :: "nat \<Rightarrow> bytes \<Rightarrow> bool" where
  "assignments_fit k text \<longleftrightarrow> (\<forall>i < length text. \<forall>key \<in> set assignment_keys.
     starts_with_key key (drop i text) \<longrightarrow>
     length key + white_run (drop (length key) (drop i text)) \<le> k)"

lemma assignments_fit_drop: "assignments_fit k text \<Longrightarrow> assignments_fit k (drop n text)"
  unfolding assignments_fit_def
proof (intro allI impI ballI)
  fix i key
  assume all: "\<forall>i<length text. \<forall>key\<in>set assignment_keys. starts_with_key key (drop i text) \<longrightarrow>
      length key + white_run (drop (length key) (drop i text)) \<le> k"
    and i: "i < length (drop n text)" and key: "key \<in> set assignment_keys"
    and s: "starts_with_key key (drop i (drop n text))"
  have "n + i < length text" using i by simp
  moreover have "drop i (drop n text) = drop (n + i) text" by (simp add: add.commute)
  ultimately show "length key + white_run (drop (length key) (drop i (drop n text))) \<le> k"
    using all key s by metis
qed

lemma assignment_keys_short: "key \<in> set assignment_keys \<Longrightarrow> length key \<le> 13"
  by (auto simp: assignment_keys_def)

lemma fits_separator_seen:
  assumes fit: "assignments_fit k (v @ w)" and long: "k < length v" and "13 \<le> k" and key: "key \<in> set assignment_keys"
  shows "separator_seen key v"
proof -
  have kl: "length key \<le> length v" using assignment_keys_short [OF key] long \<open>13 \<le> k\<close> by linarith
  have "length key + white_run (drop (length key) v) < length v" if s: "starts_with_key key v"
  proof -
    have "starts_with_key key (drop 0 (v @ w))" using s starts_with_key_append [OF kl] by simp
    moreover have "0 < length (v @ w)" using long by (cases v) auto
    ultimately have "length key + white_run (drop (length key) (v @ w)) \<le> k"
      using fit key unfolding assignments_fit_def by (metis drop_0)
    moreover have "white_run (drop (length key) v) \<le> white_run (drop (length key) (v @ w))"
      using white_run_append_le [of "drop (length key) v" w] kl by simp
    ultimately show ?thesis using long by linarith
  qed
  then show ?thesis using kl by (simp add: separator_seen_def)
qed

lemma redacted_unmasked:
  "v \<noteq> [] \<Longrightarrow> redacted secrets False v = (case secret_at secrets v of
     Some s \<Rightarrow> None # redacted secrets False (drop (length s) v)
   | None \<Rightarrow> (case sensitive_assignment_prefix v of
       Some n \<Rightarrow> map Some (take n v) @ None # redacted secrets True (drop n v)
     | None \<Rightarrow> Some (hd v) # redacted secrets False (tl v)))"
  by (cases v) (simp_all add: redacted.simps split: option.split)

lemma redacted_masked:
  "redacted secrets True (b # v) =
     (if is_assignment_terminator b then Some b # redacted secrets False v else redacted secrets True v)"
  by (simp add: redacted.simps)

text \<open>
  How far the loop may go: to the end, or so far that the overlap stays ahead and what may
  still come keeps the assignments apart.
\<close>

definition may_decide :: "nat \<Rightarrow> bool \<Rightarrow> nat \<Rightarrow> bytes \<Rightarrow> bytes \<Rightarrow> bool" where
  "may_decide k final safe v w \<longleftrightarrow>
     (if final then safe = length v \<and> w = []
      else (safe = 0 \<or> safe + k \<le> length v) \<and> (w = [] \<or> assignments_fit k (v @ w)))"

lemma may_decide_drop:
  assumes "may_decide k final safe v w" and "n \<le> length v"
  shows "may_decide k final (safe - n) (drop n v) w"
proof -
  have "assignments_fit k (drop n v @ w)" if "assignments_fit k (v @ w)"
    using assignments_fit_drop [OF that, of n] assms(2) by simp
  then show ?thesis using assms by (auto simp: may_decide_def)
qed

lemma may_decide_secret:
  assumes "may_decide k final safe v w" and "safe \<noteq> 0" and "\<And>s. s \<in> set secrets \<Longrightarrow> length s \<le> Suc k"
  shows "secret_at secrets (v @ w) = secret_at secrets v"
proof (cases "w = []")
  case False
  then have "safe + k \<le> length v" using assms(1,2) by (auto simp: may_decide_def split: if_splits)
  then have "Suc k \<le> length v" using assms(2) by simp
  then show ?thesis using assms(3) by (intro secret_at_append) (meson order_trans)
qed simp

lemma may_decide_assignment:
  assumes may: "may_decide k final safe v w" and "safe \<noteq> 0" and "13 \<le> k"
    and n: "\<And>n. sensitive_assignment_prefix v = Some n \<Longrightarrow> n \<le> safe"
  shows "sensitive_assignment_prefix (v @ w) = sensitive_assignment_prefix v"
proof (cases "w = []")
  case False
  then have *: "safe + k \<le> length v" "assignments_fit k (v @ w)"
    using may assms(2) by (auto simp: may_decide_def split: if_splits)
  show ?thesis
  proof (rule sensitive_append)
    show "separator_seen key v" if "key \<in> set assignment_keys" for key
      by (rule fits_separator_seen [OF *(2) _ assms(3) that]) (use *(1) assms(2) in simp)
    show "n < length v" if "sensitive_assignment_prefix v = Some n" for n
      using n [OF that] * assms(3) by simp
  qed
qed simp

definition processed :: "bytes list \<Rightarrow> bool \<Rightarrow> bool \<Rightarrow> bytes \<Rightarrow> bytes \<Rightarrow> bytes \<times> bytes \<times> bool \<Rightarrow> bool" where
  "processed secrets final masking v w r = (case r of (out, p, m) \<Rightarrow>
     (\<exists>ps. redacted secrets masking (v @ w) = ps @ redacted secrets m (p @ w) \<and> shown ps = out) \<and>
     (\<exists>n. p = drop n v) \<and> (final \<longrightarrow> p = []))"

lemma processedI:
  assumes "processed secrets final m1 (drop n v) w r"
    and "redacted secrets masking (v @ w) = ps @ redacted secrets m1 (drop n v @ w)"
  shows "processed secrets final masking v w (case r of (out, p, m) \<Rightarrow> (shown ps @ out, p, m))"
proof -
  obtain out p m where r: "r = (out, p, m)" by (cases r)
  from assms(1) obtain qs i where q: "redacted secrets m1 (drop n v @ w) = qs @ redacted secrets m (p @ w)"
    "shown qs = out" "p = drop i (drop n v)" "final \<longrightarrow> p = []" by (auto simp: processed_def r)
  have "redacted secrets masking (v @ w) = (ps @ qs) @ redacted secrets m (p @ w)" using assms(2) q(1) by simp
  moreover have "shown (ps @ qs) = shown ps @ out" using q(2) by simp
  moreover have "p = drop (i + n) v" using q(3) by simp
  ultimately show ?thesis using q(4) unfolding processed_def r prod.case by blast
qed

lemma process_from_redacted:
  "(\<And>s. s \<in> set secrets \<Longrightarrow> length s \<le> Suc k) \<Longrightarrow> 13 \<le> k \<Longrightarrow> may_decide k final safe v w \<Longrightarrow>
     processed secrets final masking v w (process_from secrets final safe v masking)"
proof (induction secrets final safe v masking rule: process_from.induct)
  case (1 secrets final safe v masking)
  note may = \<open>may_decide k final safe v w\<close>
  show ?case
  proof (cases "safe = 0 \<or> v = []")
    case True
    have e: "process_from secrets final safe v masking = ([], v, masking)"
      using True by (auto simp: process_from.simps)
    have "final \<longrightarrow> v = []" using may True by (auto simp: may_decide_def split: if_splits)
    then show ?thesis unfolding e processed_def prod.case by (metis append_Nil drop0 shown_simps(1))
  next
    case False
    then obtain b rest where v: "v = b # rest" and safe: "safe \<noteq> 0" by (cases v) auto
    have len: "1 \<le> length v" by (simp add: v)
    note one = may_decide_drop [OF may len]
    show ?thesis
    proof (cases masking)
      case True
      show ?thesis
      proof (cases "is_assignment_terminator b")
        case t: True
        have "processed secrets final False (drop 1 v) w (process_from secrets final (safe - 1) rest False)"
          using 1(1) [OF safe v True t] 1(6,7) one by (simp add: v)
        from processedI [OF this, of masking "[Some b]"] show ?thesis
          by (simp add: process_from.simps [of _ _ safe "b # rest"] v safe True t redacted_masked)
      next
        case t: False
        have "processed secrets final True (drop 1 v) w (process_from secrets final (safe - 1) rest True)"
          using 1(2) [OF safe v True t] 1(6,7) one by (simp add: v)
        from processedI [OF this, of masking "[]"] show ?thesis
          by (simp add: process_from.simps [of _ _ safe "b # rest"] v safe True t redacted_masked)
      qed
    next
      case unmasked: False
      have sec: "secret_at secrets (v @ w) = secret_at secrets v"
        by (rule may_decide_secret [OF may safe]) (rule 1(6))
      have "v @ w \<noteq> []" by (simp add: v)
      note here = redacted_unmasked [OF this, of secrets, unfolded sec]
      show ?thesis
      proof (cases "secret_at secrets v")
        case (Some s)
        have s: "length s \<le> length v" using secret_at_Some [OF Some] by (metis nat_le_linear take_all)
        have "processed secrets final False (drop (length s) v) w
            (process_from secrets final (safe - length s) (drop (length s) v) False)"
          using 1(5) [OF safe v unmasked Some] 1(6,7) may_decide_drop [OF may s] by simp
        moreover have "redacted secrets masking (v @ w) = [None] @ redacted secrets False (drop (length s) v @ w)"
          using here unmasked Some s by simp
        ultimately have "processed secrets final masking v w
            (case process_from secrets final (safe - length s) (drop (length s) v) False of
              (out, p, m) \<Rightarrow> (shown [None] @ out, p, m))" by (rule processedI)
        then show ?thesis using Some unmasked
          by (simp add: process_from.simps [of _ _ safe "b # rest"] v safe)
      next
        case None
        note nos = None
        show ?thesis
        proof (cases "sensitive_assignment_prefix v")
          case None
          have sens: "sensitive_assignment_prefix (v @ w) = None"
            using may_decide_assignment [OF may safe 1(7)] None by simp
          have "processed secrets final False (drop 1 v) w (process_from secrets final (safe - 1) rest False)"
            using 1(3) [OF safe v unmasked nos None] 1(6,7) one by (simp add: v)
          moreover have "redacted secrets masking (v @ w) = [Some b] @ redacted secrets False (drop 1 v @ w)"
            using here unmasked nos sens by (simp add: v)
          ultimately have "processed secrets final masking v w
              (case process_from secrets final (safe - 1) rest False of
                (out, p, m) \<Rightarrow> (shown [Some b] @ out, p, m))" by (rule processedI)
          then show ?thesis using nos None unmasked
            by (simp add: process_from.simps [of _ _ safe "b # rest"] v safe)
        next
          case (Some n)
          show ?thesis
          proof (cases "safe < n \<and> \<not> final")
            case True
            then show ?thesis using unmasked nos Some
              by (auto simp: process_from.simps [of _ _ safe "b # rest"] v safe processed_def intro!: exI [of _ "0 :: nat"])
          next
            case go: False
            have n: "n \<le> length v" by (rule sensitive_le [OF Some])
            have "n \<le> safe" using go may n by (auto simp: may_decide_def split: if_splits)
            then have sens: "sensitive_assignment_prefix (v @ w) = Some n"
              using may_decide_assignment [OF may safe 1(7)] Some by simp
            have "processed secrets final True (drop n v) w (process_from secrets final (safe - n) (drop n v) True)"
              using 1(4) [OF safe v unmasked nos Some go] 1(6,7) may_decide_drop [OF may n] by simp
            moreover have "redacted secrets masking (v @ w) =
                (map Some (take n v) @ [None]) @ redacted secrets True (drop n v @ w)"
              using here unmasked nos sens n by simp
            ultimately have "processed secrets final masking v w
                (case process_from secrets final (safe - n) (drop n v) True of
                  (out, p, m) \<Rightarrow> (shown (map Some (take n v) @ [None]) @ out, p, m))" by (rule processedI)
            then show ?thesis using nos Some unmasked go
              by (auto simp: process_from.simps [of _ _ safe "b # rest"] v safe)
          qed
        qed
      qed
    qed
  qed
qed

section \<open>A stream of chunks\<close>

fun push_all :: "bytes list \<Rightarrow> redactor \<Rightarrow> bytes \<times> redactor" where
  "push_all [] r = ([], r)"
| "push_all (chunk # chunks) r =
    (let (out, r1) = push chunk r; (rest, r2) = push_all chunks r1 in (out @ rest, r2))"

definition redact_stream :: "bytes list \<Rightarrow> bytes list \<Rightarrow> bytes" where
  "redact_stream secrets chunks =
    (let (out, r) = push_all chunks (new_redactor secrets) in out @ fst (finish_redactor r))"

definition used_secrets :: "bytes list \<Rightarrow> bytes list" where
  "used_secrets secrets = rd_secrets (new_redactor secrets)"

definition overlap_of :: "bytes list \<Rightarrow> nat" where
  "overlap_of secrets = rd_overlap (new_redactor secrets)"

lemma foldr_max_ge_nat: "x \<in> set xs \<Longrightarrow> x \<le> foldr max xs (0 :: nat)"
  by (induction xs) auto

lemma used_secrets_set: "set (used_secrets secrets) = {s \<in> set secrets. s \<noteq> []}"
  by (auto simp: used_secrets_def new_redactor_def Let_def)

lemma used_secrets_short: "s \<in> set (used_secrets secrets) \<Longrightarrow> length s \<le> Suc (overlap_of secrets)"
  using foldr_max_ge_nat [of "length s" "map length (used_secrets secrets)"]
  by (fastforce simp: used_secrets_def overlap_of_def new_redactor_def Let_def byte_lengths_def)

lemma overlap_long: "256 \<le> overlap_of secrets"
  by (simp add: overlap_of_def new_redactor_def Let_def)

text \<open>A redactor in use: what is left to say of the input from its pending bytes on.\<close>

definition in_use :: "bytes list \<Rightarrow> redactor \<Rightarrow> bool" where
  "in_use secrets r \<longleftrightarrow> rd_secrets r = used_secrets secrets \<and> rd_overlap r = overlap_of secrets"

lemma new_in_use: "in_use secrets (new_redactor secrets)" "rd_pending (new_redactor secrets) = []"
  "rd_masking (new_redactor secrets) = False"
  by (simp_all add: in_use_def used_secrets_def overlap_of_def) (simp_all add: new_redactor_def Let_def)

lemma processed_eq:
  assumes r: "in_use secrets r" and may: "may_decide (overlap_of secrets) final
      (if final then length (rd_pending r) else length (rd_pending r) - rd_overlap r) (rd_pending r) w"
    and out: "process final r = (out, r')"
  shows "in_use secrets r'" and "\<exists>n. rd_pending r' = drop n (rd_pending r)" and "final \<Longrightarrow> rd_pending r' = []"
    and "\<exists>ps. redacted (used_secrets secrets) (rd_masking r) (rd_pending r @ w) =
       ps @ redacted (used_secrets secrets) (rd_masking r') (rd_pending r' @ w) \<and> shown ps = out"
proof -
  let ?safe = "if final then length (rd_pending r) else length (rd_pending r) - rd_overlap r"
  have long: "13 \<le> overlap_of secrets" using overlap_long [of secrets] by simp
  obtain o' p m where pf: "process_from (used_secrets secrets) final ?safe (rd_pending r) (rd_masking r) = (o', p, m)"
    by (metis prod_cases3)
  have "processed (used_secrets secrets) final (rd_masking r) (rd_pending r) w (o', p, m)"
    unfolding pf [symmetric] by (rule process_from_redacted [OF _ long may]) (rule used_secrets_short)
  moreover have "out = o'" "r' = r\<lparr>rd_pending := p, rd_masking := m\<rparr>"
    using out pf r by (auto simp: process_def Let_def in_use_def split: prod.splits)
  ultimately show "in_use secrets r'" "\<exists>n. rd_pending r' = drop n (rd_pending r)" "final \<Longrightarrow> rd_pending r' = []"
    "\<exists>ps. redacted (used_secrets secrets) (rd_masking r) (rd_pending r @ w) =
       ps @ redacted (used_secrets secrets) (rd_masking r') (rd_pending r' @ w) \<and> shown ps = out"
    using r by (auto simp: processed_def in_use_def)
qed

lemma push_decides:
  assumes "in_use secrets r" and "w = [] \<or> assignments_fit (overlap_of secrets) (rd_pending r @ chunk @ w)"
    and "push chunk r = (out, r')"
  shows "in_use secrets r'" and "\<exists>n. rd_pending r' = drop n (rd_pending r @ chunk)"
    and "\<exists>ps. redacted (used_secrets secrets) (rd_masking r) (rd_pending r @ chunk @ w) =
       ps @ redacted (used_secrets secrets) (rd_masking r') (rd_pending r' @ w) \<and> shown ps = out"
proof -
  let ?r = "r\<lparr>rd_pending := rd_pending r @ chunk\<rparr>"
  have use: "in_use secrets ?r" using assms(1) by (simp add: in_use_def)
  have may: "may_decide (overlap_of secrets) False (if False then length (rd_pending ?r) else length (rd_pending ?r) - rd_overlap ?r)
      (rd_pending ?r) w"
    using assms(1,2) by (auto simp: may_decide_def in_use_def)
  note eq = processed_eq [OF use may assms(3) [unfolded push_def]]
  show "in_use secrets r'" by (rule eq(1))
  show "\<exists>n. rd_pending r' = drop n (rd_pending r @ chunk)" using eq(2) by simp
  show "\<exists>ps. redacted (used_secrets secrets) (rd_masking r) (rd_pending r @ chunk @ w) =
       ps @ redacted (used_secrets secrets) (rd_masking r') (rd_pending r' @ w) \<and> shown ps = out"
    using eq(4) by simp
qed

lemma finish_decides:
  assumes "in_use secrets r"
  shows "fst (finish_redactor r) = shown (redacted (used_secrets secrets) (rd_masking r) (rd_pending r))"
proof -
  obtain out r' where f: "finish_redactor r = (out, r')" by (cases "finish_redactor r")
  have may: "may_decide (overlap_of secrets) True (if True then length (rd_pending r) else length (rd_pending r) - rd_overlap r)
      (rd_pending r) []" by (simp add: may_decide_def)
  note eq = processed_eq [OF assms may f [unfolded finish_redactor_def]]
  have "rd_pending r' = []" using eq(3) by simp
  with eq(4) show ?thesis by (auto simp: f redacted.simps)
qed

lemma push_all_decides:
  assumes "in_use secrets r" and "assignments_fit (overlap_of secrets) (rd_pending r @ concat chunks)"
    and "push_all chunks r = (out, r')"
  shows "out @ fst (finish_redactor r') =
     shown (redacted (used_secrets secrets) (rd_masking r) (rd_pending r @ concat chunks))"
  using assms
proof (induction chunks arbitrary: r out)
  case Nil
  then show ?case by (simp add: finish_decides)
next
  case (Cons chunk chunks)
  obtain o1 r1 o2 where p: "push chunk r = (o1, r1)" "push_all chunks r1 = (o2, r')" "out = o1 @ o2"
    using Cons.prems(3) by (auto simp: Let_def split: prod.splits)
  have "concat chunks = [] \<or> assignments_fit (overlap_of secrets) (rd_pending r @ chunk @ concat chunks)"
    using Cons.prems(2) by simp
  note step = push_decides [OF Cons.prems(1) this p(1)]
  from step(2) obtain n where n: "rd_pending r1 = drop n (rd_pending r @ chunk)" by blast
  have "assignments_fit (overlap_of secrets) (rd_pending r1 @ concat chunks)"
  proof (cases "n \<le> length (rd_pending r @ chunk)")
    case True
    then have "rd_pending r1 @ concat chunks = drop n (rd_pending r @ concat (chunk # chunks))" using n by simp
    then show ?thesis using assignments_fit_drop [OF Cons.prems(2), of n] by simp
  next
    case False
    then have "rd_pending r1 @ concat chunks = drop (length (rd_pending r @ chunk)) (rd_pending r @ concat (chunk # chunks))"
      using n by simp
    then show ?thesis using assignments_fit_drop [OF Cons.prems(2)] by metis
  qed
  from Cons.IH [OF step(1) this p(2)] step(3) show ?case by (auto simp: p(3))
qed

lemma redact_log_eq: "redact_log_bytes secrets text = shown (redacted (used_secrets secrets) False text)"
proof -
  obtain out r where p: "push text (new_redactor secrets) = (out, r)" by (cases "push text (new_redactor secrets)")
  note step = push_decides [OF new_in_use(1) _ p, of "[]", simplified]
  have "fst (finish_redactor r) = shown (redacted (used_secrets secrets) (rd_masking r) (rd_pending r))"
    by (rule finish_decides [OF step(1)])
  with step(3) show ?thesis by (auto simp: redact_log_bytes_def p new_in_use(2,3))
qed

text \<open>
  C29. Redacting a stream chunk by chunk gives what redacting the whole text gives, however the
  text is cut into chunks, unless somewhere a key of an assignment is followed by more white
  space than the redactor holds back (at least 256 bytes with the key).
\<close>

theorem redaction_ignores_chunk_boundaries:
  assumes "assignments_fit (overlap_of secrets) (concat chunks)"
  shows "redact_stream secrets chunks = redact_log_bytes secrets (concat chunks)"
proof -
  obtain out r where p: "push_all chunks (new_redactor secrets) = (out, r)"
    by (cases "push_all chunks (new_redactor secrets)")
  have "assignments_fit (overlap_of secrets) (rd_pending (new_redactor secrets) @ concat chunks)"
    using assms by (simp add: new_in_use)
  from push_all_decides [OF new_in_use(1) this p] show ?thesis
    by (simp add: redact_stream_def p new_in_use redact_log_eq)
qed

theorem redaction_ignores_chunk_boundaries_witness:
  "redact_stream [lit ''abc''] [lit ''x ab'', lit ''c y'']
     = redact_log_bytes [lit ''abc''] (lit ''x abc y'')"
proof -
  have "assignments_fit k (concat [lit ''x ab'', lit ''c y''])" for k
    by (simp add: assignments_fit_def assignment_keys_def starts_with_key_def lit_def ascii_lower_def
        All_less_Suc numeral_eq_Suc)
  from redaction_ignores_chunk_boundaries [OF this] show ?thesis by (simp add: lit_def)
qed

section \<open>What a redacted text shows\<close>

text \<open>A secret that is only a part of how an assignment begins, as ``word'' of a password.\<close>

definition inside_assignment :: "bytes \<Rightarrow> bool" where
  "inside_assignment s \<longleftrightarrow> (\<exists>v n p. sensitive_assignment_prefix v = Some n \<and> 0 < p \<and> p + length s \<le> n \<and>
     take (length s) (drop p v) = s)"

lemma map_Some_start:
  assumes "map Some bs @ None # ps = map Some u @ ys"
  shows "length u \<le> length bs \<and> take (length u) bs = u"
proof -
  have le: "length u \<le> length bs"
  proof (rule ccontr)
    assume "\<not> length u \<le> length bs"
    then have "(map Some u @ ys) ! length bs \<noteq> None" by (simp add: nth_append)
    then show False using arg_cong [OF assms, of "\<lambda>xs. xs ! length bs"] by (metis length_map nth_append_length)
  qed
  have "map Some u = map Some (take (length u) bs)"
    using arg_cong [OF assms, of "take (length u)"] le by (simp add: take_map)
  then have "u = take (length u) bs" by (simp add: inj_map_eq_map)
  with le show ?thesis by simp
qed

lemma plain_start:
  "redacted secrets False v = map Some u @ ys \<Longrightarrow> take (length u) v = u"
proof (induction secrets "False" v arbitrary: u ys rule: redacted.induct)
  case (2 secrets b rest)
  show ?case
  proof (cases "secret_at secrets (b # rest)")
    case (Some s)
    with 2(6) have "u = []" by (cases u) (simp_all add: redacted.simps)
    then show ?thesis by simp
  next
    case None
    note nos = None
    show ?thesis
    proof (cases "sensitive_assignment_prefix (b # rest)")
      case None
      show ?thesis
      proof (cases u)
        case (Cons c u')
        with 2(6) nos None have "c = b" "redacted secrets False rest = map Some u' @ ys"
          by (simp_all add: redacted.simps)
        with 2(3) [OF _ nos None] Cons show ?thesis by simp
      qed simp
    next
      case (Some n)
      have eq: "map Some (take n (b # rest)) @ None # redacted secrets True (drop n (b # rest)) = map Some u @ ys"
        using 2(6) nos Some by (simp add: redacted.simps)
      have "take (length u) (take n (b # rest)) = u" "length u \<le> length (take n (b # rest))"
        using map_Some_start [OF eq] by blast+
      then show ?thesis by (simp add: take_take min_def split: if_splits)
    qed
  qed
qed (simp add: redacted.simps)

text \<open>The pieces show no secret from one mark to the next.\<close>

definition shows_no :: "bytes \<Rightarrow> nat option list \<Rightarrow> bool" where
  "shows_no s ps \<longleftrightarrow> (\<nexists>xs ys. ps = xs @ map Some s @ ys)"

lemma shows_no_Nil: "s \<noteq> [] \<Longrightarrow> shows_no s []"
  by (simp add: shows_no_def)

lemma shows_no_Cons: "shows_no s (p # ps) \<longleftrightarrow> (\<nexists>ys. p # ps = map Some s @ ys) \<and> shows_no s ps"
proof -
  have "(\<exists>xs ys. p # ps = xs @ map Some s @ ys) \<longleftrightarrow>
      (\<exists>ys. p # ps = map Some s @ ys) \<or> (\<exists>xs ys. ps = xs @ map Some s @ ys)"
    by (metis append_Nil append_eq_Cons_conv)
  then show ?thesis by (simp add: shows_no_def)
qed

lemma shows_no_mark: "s \<noteq> [] \<Longrightarrow> shows_no s (None # ps) = shows_no s ps"
  by (cases s) (auto simp: shows_no_Cons)

lemma shows_no_plain:
  assumes "s \<noteq> []" and "\<And>p. p + length s \<le> length bs \<Longrightarrow> take (length s) (drop p bs) \<noteq> s"
  shows "shows_no s (map Some bs @ None # ps) = shows_no s ps"
  using assms(2)
proof (induction bs)
  case Nil
  then show ?case using shows_no_mark [OF assms(1)] by simp
next
  case (Cons b bs)
  have "take (length s) (drop p bs) \<noteq> s" if "p + length s \<le> length bs" for p
    using Cons.prems [of "Suc p"] that by simp
  note IH = Cons.IH [OF this]
  have "\<nexists>ys. map Some (b # bs) @ None # ps = map Some s @ ys"
  proof
    assume "\<exists>ys. map Some (b # bs) @ None # ps = map Some s @ ys"
    then obtain ys where eq: "map Some (b # bs) @ None # ps = map Some s @ ys" by blast
    from map_Some_start [OF this] have "length s \<le> length (b # bs)" "take (length s) (b # bs) = s"
      by blast+
    with Cons.prems [of 0] show False by simp
  qed
  with IH show ?case by (simp add: shows_no_Cons)
qed

lemma redacted_shows_no:
  assumes s: "s \<in> set secrets" "s \<noteq> []" "\<not> inside_assignment s" "\<not> is_assignment_terminator (hd s)"
  shows "shows_no s (redacted secrets masking v)"
  using s(1)
proof (induction secrets masking v rule: redacted.induct)
  case (1 secrets masking)
  then show ?case using s(2) by (simp add: redacted.simps shows_no_Nil)
next
  case (2 secrets masking b rest)
  show ?case
  proof (cases masking)
    case masked: True
    have no: "\<nexists>ys. Some b # ps = map Some s @ ys" if "is_assignment_terminator b" for ps
      using s(2,4) that by (cases s) auto
    then show ?thesis using 2(1,2) [OF masked] 2(6) masked
      by (auto simp: redacted.simps shows_no_Cons)
  next
    case plain: False
    show ?thesis
    proof (cases "secret_at secrets (b # rest)")
      case (Some t)
      then show ?thesis using 2(5) [OF plain Some 2(6)] plain s(2) by (simp add: redacted.simps shows_no_mark)
    next
      case None
      note nos = None
      have here: "take (length s) (b # rest) \<noteq> s"
        using nos 2(6) s(2) by (auto simp: secret_at_def find_None_iff)
      show ?thesis
      proof (cases "sensitive_assignment_prefix (b # rest)")
        case None
        have eq: "redacted secrets False (b # rest) = Some b # redacted secrets False rest"
          using nos None by (simp add: redacted.simps)
        have "\<nexists>ys. Some b # redacted secrets False rest = map Some s @ ys"
          using plain_start [of secrets "b # rest" s] here by (metis eq)
        then show ?thesis using 2(3) [OF plain nos None 2(6)] plain by (simp add: eq shows_no_Cons)
      next
        case (Some n)
        have "take (length s) (drop p (take n (b # rest))) \<noteq> s" if p: "p + length s \<le> length (take n (b # rest))" for p
        proof (cases "p = 0")
          case True
          then show ?thesis using here p by (simp add: min_def split: if_splits)
        next
          case False
          have "take (length s) (drop p (take n (b # rest))) = take (length s) (drop p (b # rest))"
            using p by (simp add: drop_take min_def split: if_splits)
          moreover have "p + length s \<le> n" using p by simp
          ultimately show ?thesis using s(3) Some False unfolding inside_assignment_def by (metis neq0_conv)
        qed
        from shows_no_plain [OF s(2) this] show ?thesis
          using 2(4) [OF plain nos Some 2(6)] plain nos Some by (simp add: redacted.simps)
      qed
    qed
  qed
qed

text \<open>
  C30. A redacted text consists of the bytes it shows and of marks, and between two marks no
  secret appears, wherever it stood in the text. This is said of the secrets that are not empty,
  that are not contained in the beginning of an assignment of a credential (a secret
  \<open>word\<close> is, in \<open>password=\<close>, whose beginning is shown), and that do not start with a byte that
  ends the value of an assignment (lemma \<open>quoted_secret_is_shown\<close>).
\<close>

theorem redacted_text_shows_no_secret:
  "\<exists>ps. redact_log_bytes secrets text = shown ps \<and>
     (\<forall>s \<in> set secrets. s \<noteq> [] \<longrightarrow> \<not> inside_assignment s \<longrightarrow> \<not> is_assignment_terminator (hd s) \<longrightarrow>
        (\<nexists>xs ys. ps = xs @ map Some s @ ys))"
proof (intro exI conjI ballI impI notI)
  show "redact_log_bytes secrets text = shown (redacted (used_secrets secrets) False text)"
    by (rule redact_log_eq)
  fix s assume "s \<in> set secrets" "s \<noteq> []" "\<not> inside_assignment s" "\<not> is_assignment_terminator (hd s)"
  then have "shows_no s (redacted (used_secrets secrets) False text)"
    by (intro redacted_shows_no) (auto simp: used_secrets_set)
  then have "\<nexists>xs ys. redacted (used_secrets secrets) False text = xs @ map Some s @ ys"
    by (simp only: shows_no_def not_False_eq_True)
  then show False if "\<exists>xs ys. redacted (used_secrets secrets) False text = xs @ map Some s @ ys"
    using that by blast
qed

section \<open>Secrets that no assignment contains\<close>

lemma assignment_bytes:
  assumes "assignment_at key v = Some n" and "b \<in> set (take n v)"
  shows "ascii_lower b \<in> set key \<or> is_ascii_white b \<or> b \<in> {58, 61}"
proof -
  define k where "k = length key"
  define i where "i = k + white_run (drop k v)"
  define j where "j = white_run (drop (i + 1) v)"
  have st: "starts_with_key key v" "i < length v" "v ! i \<in> {58, 61}" "n = i + 1 + j"
    using assms(1) by (auto simp: assignment_at_def Let_def i_def j_def k_def split: if_splits)
  have run: "set (take (white_run u) u) \<subseteq> Collect is_ascii_white" for u
    by (metis mem_Collect_eq set_takeWhileD subsetI takeWhile_eq_take white_run_def)
  have "take n v = take k v @ take (white_run (drop k v)) (drop k v) @ [v ! i] @ take j (drop (i + 1) v)"
  proof -
    have "take n v = take (i + 1) v @ take j (drop (i + 1) v)" by (simp only: st(4) take_add)
    also have "take (i + 1) v = take i v @ [v ! i]" using st(2) by (simp add: take_Suc_conv_app_nth)
    also have "take i v = take k v @ take (white_run (drop k v)) (drop k v)" by (simp only: i_def take_add)
    finally show ?thesis by simp
  qed
  then have "b \<in> set (take k v) \<or> is_ascii_white b \<or> b = v ! i"
    using assms(2) run [of "drop k v"] run [of "drop (i + 1) v"] by (auto simp: j_def)
  moreover have "ascii_lower b \<in> set key" if "b \<in> set (take k v)"
    using st(1) that by (metis image_eqI k_def list.set_map starts_with_key_def)
  ultimately show ?thesis using st(3) by auto
qed

lemma first_assignment_at: "first_assignment keys v = Some n \<Longrightarrow> \<exists>key \<in> set keys. assignment_at key v = Some n"
  by (induction keys) (auto split: option.splits)

lemma outside_assignment:
  assumes "b \<in> set s" and "\<not> is_ascii_white b" "b \<notin> {58, 61}"
    and "\<And>key. key \<in> set assignment_keys \<Longrightarrow> ascii_lower b \<notin> set key"
  shows "\<not> inside_assignment s"
proof
  assume "inside_assignment s"
  then obtain v n p where at: "sensitive_assignment_prefix v = Some n" "p + length s \<le> n" "take (length s) (drop p v) = s"
    by (auto simp: inside_assignment_def)
  then obtain key where key: "key \<in> set assignment_keys" "assignment_at key v = Some n"
    by (metis first_assignment_at sensitive_assignment_prefix_def)
  have "b \<in> set (drop p (take (p + length s) v))" using assms(1) at(3) by (simp add: drop_take)
  then have "b \<in> set (take n v)" using at(2) by (meson in_set_dropD set_take_subset_set_take subsetD)
  from assignment_bytes [OF key(2) this] assms(2,3,4) key(1) show False by blast
qed

theorem redacted_text_shows_no_secret_witness:
  "\<exists>ps. redact_log_bytes [lit ''123''] (lit ''id=123'') = shown ps \<and> (\<nexists>xs ys. ps = xs @ map Some (lit ''123'') @ ys)"
proof -
  have "\<not> inside_assignment (lit ''123'')"
    by (rule outside_assignment [of 49])
      (auto simp: lit_def is_ascii_white_def ascii_lower_def assignment_keys_def)
  moreover have "\<not> is_assignment_terminator (hd (lit ''123''))" "lit ''123'' \<noteq> []" "lit ''123'' \<in> set [lit ''123'']"
    by (simp_all add: lit_def is_assignment_terminator_def)
  ultimately show ?thesis using redacted_text_shows_no_secret [of "[lit ''123'']" "lit ''id=123''"] by blast
qed

text \<open>
  The last condition is needed: the value of an assignment is masked up to a quote, and after the
  quote the secret is no longer recognized, because its first byte is gone.
\<close>

lemma quoted_secret_is_shown:
  "redact_log_bytes [[34, 97, 98, 99]] (lit ''password=x'' @ [34, 97, 98, 99]) =
     lit ''password='' @ redaction_mark @ [34, 97, 98, 99]"
  by code_simp

section \<open>Redacting again\<close>

lemma redaction_mark_eq: "redaction_mark = [91, 82, 69, 68, 65, 67, 84, 69, 68, 93]"
  by (simp add: redaction_mark_def lit_def)

definition mark_or_end :: "bytes \<Rightarrow> bool" where
  "mark_or_end w \<longleftrightarrow> w = [] \<or> hd w = 91"

lemma mark_or_end_simps [simp]: "mark_or_end []" "mark_or_end (redaction_mark @ w)"
  by (simp_all add: mark_or_end_def redaction_mark_eq)

lemma key_plain: "key \<in> set assignment_keys \<Longrightarrow> 91 \<notin> set key \<and> key \<noteq> []"
  by (auto simp: assignment_keys_def lit_def)

lemma lower_bracket: "ascii_lower 91 = 91"
  by (simp add: ascii_lower_def)

lemma starts_with_key_plain:
  assumes key: "91 \<notin> set key" and w: "mark_or_end w" and st: "starts_with_key key (u @ w)"
  shows "length key \<le> length u"
proof (rule ccontr)
  assume "\<not> length key \<le> length u"
  moreover from st have len: "length key \<le> length (u @ w)" and eq: "map ascii_lower (take (length key) (u @ w)) = key"
    by (auto simp: starts_with_key_def)
  ultimately have "length u < length key" "w \<noteq> []" by auto
  with w have "(u @ w) ! length u = 91" by (cases w) (auto simp: mark_or_end_def)
  moreover have "map ascii_lower (take (length key) (u @ w)) ! length u = ascii_lower ((u @ w) ! length u)"
    using \<open>length u < length key\<close> len by (subst nth_map) (simp_all del: take_append map_append)
  ultimately have "key ! length u = 91" using eq lower_bracket by simp
  then show False using key \<open>length u < length key\<close> by (metis nth_mem)
qed

lemma white_run_plain: "mark_or_end w \<Longrightarrow> white_run (u @ w) = white_run u"
  by (induction u) (cases w; simp add: white_run_def mark_or_end_def is_ascii_white_def)+

text \<open>What follows a mark decides nothing about the assignment in front of it.\<close>

lemma assignment_at_plain:
  assumes key: "91 \<notin> set key" and w: "mark_or_end w"
  shows "assignment_at key (u @ w) = assignment_at key u"
proof (cases "length key \<le> length u")
  case True
  then have st: "starts_with_key key (u @ w) = starts_with_key key u" by (simp add: starts_with_key_def)
  define i where "i = length key + white_run (drop (length key) u)"
  have i: "length key + white_run (drop (length key) (u @ w)) = i"
    using True white_run_plain [OF w] by (simp add: i_def)
  have le: "i \<le> length u" using white_run_le [of "drop (length key) u"] True by (simp add: i_def)
  have sep: "(i < length (u @ w) \<and> (u @ w) ! i \<in> {58, 61}) = (i < length u \<and> u ! i \<in> {58, 61})"
  proof (cases "i < length u")
    case False
    with le have "i = length u" by simp
    then show ?thesis using w by (cases w) (auto simp: mark_or_end_def)
  qed (simp add: nth_append)
  have after: "white_run (drop (i + 1) (u @ w)) = white_run (drop (i + 1) u)" if "i < length u"
    using that white_run_plain [OF w] by simp
  have l: "assignment_at key (u @ w) = (if \<not> starts_with_key key u then None
      else if i < length u \<and> u ! i \<in> {58, 61} then Some (i + 1 + white_run (drop (i + 1) (u @ w))) else None)"
    by (simp only: assignment_at_def st Let_def i sep)
  have r: "assignment_at key u = (if \<not> starts_with_key key u then None
      else if i < length u \<and> u ! i \<in> {58, 61} then Some (i + 1 + white_run (drop (i + 1) u)) else None)"
    by (simp only: assignment_at_def Let_def i_def)
  show ?thesis
  proof (cases "i < length u")
    case True
    show ?thesis unfolding l r by (simp only: after [OF True])
  qed (simp add: l r)
next
  case False
  then have "\<not> starts_with_key key (u @ w)" using starts_with_key_plain [OF key w] by blast
  moreover have "\<not> starts_with_key key u" using False by (simp add: starts_with_key_def)
  ultimately show ?thesis by (simp only: assignment_at_def if_True simp_thms)
qed

lemma first_assignment_plain:
  assumes "mark_or_end w" and "\<And>key. key \<in> set keys \<Longrightarrow> 91 \<notin> set key"
  shows "first_assignment keys (u @ w) = first_assignment keys u"
  using assms(2) by (induction keys) (auto simp: assignment_at_plain [OF _ assms(1)] split: option.splits)

lemma sensitive_plain: "mark_or_end w \<Longrightarrow> sensitive_assignment_prefix (u @ w) = sensitive_assignment_prefix u"
  unfolding sensitive_assignment_prefix_def by (rule first_assignment_plain) (auto dest: key_plain)

lemma assignment_at_longer:
  assumes "assignment_at key u \<noteq> None"
  shows "assignment_at key (u @ w) \<noteq> None"
proof -
  let ?i = "length key + white_run (drop (length key) u)"
  have st: "length key \<le> length u" "starts_with_key key u" "?i < length u" "u ! ?i \<in> {58, 61}"
    using assms by (auto simp: assignment_at_def Let_def starts_with_key_def split: if_splits)
  have "white_run (drop (length key) u @ w) = white_run (drop (length key) u)"
    by (rule white_run_append) (use st(1,3) in simp)
  then have "length key + white_run (drop (length key) (u @ w)) = ?i" using st(1) by simp
  moreover have "starts_with_key key (u @ w)" using st(1,2) by (simp add: starts_with_key_def)
  ultimately show ?thesis using st(3,4) by (auto simp: assignment_at_def Let_def nth_append)
qed

lemma first_assignment_None: "first_assignment keys v = None \<longleftrightarrow> (\<forall>key \<in> set keys. assignment_at key v = None)"
  by (induction keys) (auto split: option.splits)

lemma sensitive_shorter: "sensitive_assignment_prefix (u @ w) = None \<Longrightarrow> sensitive_assignment_prefix u = None"
  unfolding sensitive_assignment_prefix_def first_assignment_None using assignment_at_longer by blast

lemma white_run_take: "white_run (take k u) = min k (white_run u)"
proof (induction u arbitrary: k)
  case (Cons b u)
  then show ?case by (cases k) (simp_all add: white_run_def)
qed (simp add: white_run_def)

lemma assignment_at_self:
  assumes "assignment_at key v = Some n"
  shows "assignment_at key (take n v) = Some n"
proof -
  define i where "i = length key + white_run (drop (length key) v)"
  define j where "j = white_run (drop (i + 1) v)"
  have st: "starts_with_key key v" "i < length v" "v ! i \<in> {58, 61}" "n = i + 1 + j"
    using assms by (auto simp: assignment_at_def Let_def i_def j_def split: if_splits)
  have le: "n \<le> length v" by (rule assignment_at_le [OF assms])
  have "length key \<le> i" by (simp add: i_def)
  then have kn: "length key \<le> n" using st(4) by simp
  then have sk: "starts_with_key key (take n v)" using st(1) le by (simp add: starts_with_key_def min_def)
  have i': "length key + white_run (drop (length key) (take n v)) = i"
    using st(4) by (simp add: drop_take white_run_take i_def min_def)
  have j': "white_run (drop (i + 1) (take n v)) = j"
    using st(4) by (simp add: drop_take white_run_take j_def)
  have "i < length (take n v)" "take n v ! i = v ! i" using le st(4) by simp_all
  then show ?thesis using sk st(3,4) j' unfolding assignment_at_def Let_def i' by simp
qed

lemma first_assignment_self:
  assumes "first_assignment keys v = Some n"
  shows "first_assignment keys (take n v) = Some n"
  using assms
proof (induction keys)
  case (Cons key keys)
  show ?case
  proof (cases "assignment_at key v")
    case None
    then have "assignment_at key (take n v) = None"
      by (metis assignment_at_longer append_take_drop_id)
    with Cons None show ?thesis by simp
  next
    case (Some m)
    with Cons.prems assignment_at_self [of key v n] show ?thesis by simp
  qed
qed simp

lemma sensitive_self:
  "sensitive_assignment_prefix v = Some n \<Longrightarrow> sensitive_assignment_prefix (take n v) = Some n"
  unfolding sensitive_assignment_prefix_def by (rule first_assignment_self)

lemma secret_at_none [simp]: "secret_at [] v = None"
  by (simp add: secret_at_def)

text \<open>A mark is neither an assignment nor the end of a value.\<close>

lemma no_assignment: "ascii_lower b \<notin> {112, 116, 115, 97} \<Longrightarrow> sensitive_assignment_prefix (b # v) = None"
  by (simp add: sensitive_assignment_prefix_def assignment_keys_def assignment_at_def starts_with_key_def lit_def)

lemma redacted_mark:
  "redacted [] False (redaction_mark @ w) = map Some redaction_mark @ redacted [] False w"
  "redacted [] True (redaction_mark @ w) = redacted [] True w"
proof -
  have no2: "sensitive_assignment_prefix (84 # 69 # v) = None" "sensitive_assignment_prefix (65 # 67 # v) = None" for v
    by (simp_all add: sensitive_assignment_prefix_def assignment_keys_def assignment_at_def starts_with_key_def lit_def
        ascii_lower_def)
  show "redacted [] False (redaction_mark @ w) = map Some redaction_mark @ redacted [] False w"
    by (simp add: redaction_mark_eq redacted.simps no_assignment no2 ascii_lower_def)
  show "redacted [] True (redaction_mark @ w) = redacted [] True w"
    by (simp add: redaction_mark_eq redacted.simps is_assignment_terminator_def)
qed

text \<open>Up to its first mark the redacted text is the text.\<close>

lemma redacted_front:
  "\<exists>u w x. shown (redacted secrets False v) = u @ w \<and> mark_or_end w \<and> v = u @ x"
proof (induction secrets "False" v rule: redacted.induct)
  case (1 secrets)
  show ?case by (simp add: redacted.simps)
next
  case (2 secrets b rest)
  show ?case
  proof (cases "secret_at secrets (b # rest)")
    case (Some s)
    have "shown (redacted secrets False (b # rest)) = [] @ redaction_mark @ shown (redacted secrets False (drop (length s) (b # rest)))"
      using Some by (simp add: redacted.simps)
    then show ?thesis using mark_or_end_simps(2) by blast
  next
    case nos: None
    show ?thesis
    proof (cases "sensitive_assignment_prefix (b # rest)")
      case (Some n)
      have "shown (redacted secrets False (b # rest)) =
          take n (b # rest) @ redaction_mark @ shown (redacted secrets True (drop n (b # rest)))"
        using Some nos by (simp add: redacted.simps)
      then show ?thesis using mark_or_end_simps(2) append_take_drop_id [of n "b # rest"] by metis
    next
      case None
      from 2(3) [OF _ nos None] obtain u w x
        where "shown (redacted secrets False rest) = u @ w" "mark_or_end w" "rest = u @ x" by auto
      then have "shown (redacted secrets False (b # rest)) = (b # u) @ w \<and> mark_or_end w \<and> b # rest = (b # u) @ x"
        using nos None by (simp add: redacted.simps)
      then show ?thesis by blast
    qed
  qed
qed

lemma redacted_again:
  "shown (redacted [] masking (shown (redacted secrets masking v))) = shown (redacted secrets masking v)"
proof (induction secrets masking v rule: redacted.induct)
  case (1 secrets masking)
  show ?case by (simp add: redacted.simps)
next
  case (2 secrets masking b rest)
  show ?case
  proof (cases masking)
    case masked: True
    show ?thesis using 2(1,2) [OF masked] masked by (auto simp: redacted.simps)
  next
    case plain: False
    show ?thesis
    proof (cases "secret_at secrets (b # rest)")
      case (Some s)
      show ?thesis using 2(5) [OF plain Some] plain Some by (simp add: redacted.simps redacted_mark)
    next
      case nos: None
      show ?thesis
      proof (cases "sensitive_assignment_prefix (b # rest)")
        case (Some n)
        let ?m = "shown (redacted secrets True (drop n (b # rest)))"
        let ?p = "take n (b # rest)"
        have eq: "shown (redacted secrets False (b # rest)) = ?p @ redaction_mark @ ?m"
          using Some nos by (simp add: redacted.simps)
        have n: "length ?p = n" using sensitive_le [OF Some] by simp
        have "?p \<noteq> []" using sensitive_pos [OF Some] by simp
        then obtain c q where p: "?p = c # q" by (cases ?p) auto
        have "sensitive_assignment_prefix (?p @ redaction_mark @ ?m) = Some n"
          by (simp only: sensitive_plain mark_or_end_simps sensitive_self [OF Some])
        then have "redacted [] False (?p @ redaction_mark @ ?m) =
            map Some (take n (?p @ redaction_mark @ ?m)) @ None # redacted [] True (drop n (?p @ redaction_mark @ ?m))"
          unfolding p by (simp add: redacted.simps)
        also have "\<dots> = map Some ?p @ None # redacted [] True ?m" using n by (simp add: redacted_mark)
        finally have "shown (redacted [] False (?p @ redaction_mark @ ?m)) = ?p @ redaction_mark @ shown (redacted [] True ?m)"
          by simp
        then show ?thesis using 2(4) [OF plain nos Some] plain by (simp only: eq)
      next
        case None
        obtain u w x where f: "shown (redacted secrets False rest) = u @ w" "mark_or_end w" "rest = u @ x"
          using redacted_front by blast
        have eq: "shown (redacted secrets False (b # rest)) = b # u @ w"
          using None nos f(1) by (simp add: redacted.simps)
        have "sensitive_assignment_prefix (b # u) = None"
          using None sensitive_shorter [of "b # u" x] f(3) by simp
        then have "sensitive_assignment_prefix (b # u @ w) = None" using sensitive_plain [OF f(2), of "b # u"] by simp
        then have "redacted [] False (b # u @ w) = Some b # redacted [] False (u @ w)" by (simp add: redacted.simps)
        then show ?thesis using 2(3) [OF plain nos None] plain by (simp add: eq f(1))
      qed
    qed
  qed
qed

text \<open>
  C31. What has been redacted is left as it is when it is redacted again without secrets, as the
  log service does with the output that the executor has redacted: redaction is idempotent.
\<close>

theorem redacting_again_changes_nothing:
  "redact_log_bytes [] (redact_log_bytes secrets text) = redact_log_bytes secrets text"
proof -
  have none: "used_secrets [] = []" by (simp add: used_secrets_def new_redactor_def Let_def)
  show ?thesis unfolding redact_log_eq none by (rule redacted_again)
qed

section \<open>Where the stream and the whole text differ\<close>

text \<open>
  A key at the end of a chunk, followed by as much white space as the redactor holds back,
  goes out before its separator arrives, and the value after it with it.
\<close>

lemma redacted_no_key:
  assumes "\<And>b. b \<in> set v \<Longrightarrow> ascii_lower b \<notin> {112, 116, 115, 97}"
  shows "redacted [] False v = map Some v"
  using assms
proof (induction v)
  case (Cons b v)
  from Cons.prems [of b] have "sensitive_assignment_prefix (b # v) = None" by (intro no_assignment) simp
  then show ?case using Cons by (simp add: redacted.simps)
qed (simp add: redacted.simps)

lemma white_run_replicate: "white_run (replicate n 32 @ b # v) = (if is_ascii_white b then n + white_run (b # v) else n)"
  by (induction n) (simp_all add: white_run_def is_ascii_white_def)

lemma key_start: "key \<in> set assignment_keys \<Longrightarrow> starts_with_key key v \<Longrightarrow> v \<noteq> [] \<and> ascii_lower (hd v) \<in> {112, 116, 115, 97}"
  by (cases v) (auto simp: assignment_keys_def starts_with_key_def lit_def)

lemma assignments_fit_no_key:
  assumes "\<And>b. b \<in> set v \<Longrightarrow> ascii_lower b \<notin> {112, 116, 115, 97}"
  shows "assignments_fit k v"
proof -
  have "\<not> starts_with_key key (drop i v)" if "i < length v" "key \<in> set assignment_keys" for i key
    using key_start [OF that(2), of "drop i v"] assms [of "v ! i"] that(1) by (auto simp: hd_drop_conv_nth)
  then show ?thesis by (simp add: assignments_fit_def)
qed

lemma late_separator:
  assumes "length spaces = 256" and "\<And>b v. \<not> is_ascii_white b \<Longrightarrow> white_run (spaces @ b # v) = 256"
    and "\<And>b. b \<in> set spaces \<Longrightarrow> b = 32" and "white_run spaces = 256"
  shows "redact_stream [] [lit ''token'' @ spaces, lit ''=xyz''] = lit ''token'' @ spaces @ lit ''=xyz''"
    and "redact_log_bytes [] (lit ''token'' @ spaces @ lit ''=xyz'') = lit ''token'' @ spaces @ lit ''='' @ redaction_mark"
proof -
  have none: "used_secrets [] = []" by (simp add: used_secrets_def new_redactor_def Let_def)
  have new: "new_redactor [] = \<lparr>rd_secrets = [], rd_pending = [], rd_overlap = 256, rd_masking = False\<rparr>"
    by (simp add: new_redactor_def Let_def)
  define r where "r = \<lparr>rd_secrets = [], rd_pending = spaces, rd_overlap = 256, rd_masking = False\<rparr>"
  have token: "sensitive_assignment_prefix (116 # 111 # 107 # 101 # 110 # spaces) = None"
    using assms(1,4) by (simp add: sensitive_assignment_prefix_def assignment_keys_def assignment_at_def
        starts_with_key_def lit_def ascii_lower_def)
  have first: "push (lit ''token'' @ spaces) (new_redactor []) = (lit ''token'', r)"
    using assms(1) by (simp add: push_def process_def new r_def lit_def process_from.simps token no_assignment ascii_lower_def)
  have plain: "ascii_lower b \<notin> {112, 116, 115, 97}" if "b \<in> set (spaces @ lit ''=xyz'')" for b
  proof -
    from that have "b \<in> {32, 61, 120, 121, 122}" using assms(3) by (auto simp: lit_def)
    then show ?thesis by (auto simp: ascii_lower_def)
  qed
  have rest: "redacted [] False (spaces @ lit ''=xyz'') = map Some (spaces @ lit ''=xyz'')"
    by (rule redacted_no_key [OF plain])
  have use: "in_use [] r" using new_in_use(1) [of "[]"] by (simp add: in_use_def r_def new)
  have fit: "assignments_fit (overlap_of []) (rd_pending r @ concat [lit ''=xyz''])"
    by (rule assignments_fit_no_key, rule plain) (simp add: r_def)
  obtain out r' where p: "push_all [lit ''=xyz''] r = (out, r')" by (cases "push_all [lit ''=xyz''] r")
  have "out @ fst (finish_redactor r') = spaces @ lit ''=xyz''"
    using push_all_decides [OF use fit p] rest by (simp add: r_def none)
  then show "redact_stream [] [lit ''token'' @ spaces, lit ''=xyz''] = lit ''token'' @ spaces @ lit ''=xyz''"
    using p by (simp add: redact_stream_def first del: push_all.simps(2)) (simp add: first)
  have "assignment_at (lit ''token'') (lit ''token'' @ spaces @ lit ''=xyz'') = Some 262"
    using assms(1,2) by (simp add: assignment_at_def starts_with_key_def lit_def ascii_lower_def is_ascii_white_def
        nth_append white_run_def)
  then have "sensitive_assignment_prefix (lit ''token'' @ spaces @ lit ''=xyz'') = Some 262"
    by (simp add: sensitive_assignment_prefix_def assignment_keys_def assignment_at_def starts_with_key_def lit_def
        ascii_lower_def)
  moreover have "take 262 (lit ''token'' @ spaces @ lit ''=xyz'') = lit ''token'' @ spaces @ lit ''=''"
    "drop 262 (lit ''token'' @ spaces @ lit ''=xyz'') = lit ''xyz''"
    using assms(1) by (simp_all add: lit_def)
  ultimately have "redacted [] False (lit ''token'' @ spaces @ lit ''=xyz'') =
      map Some (lit ''token'' @ spaces @ lit ''='') @ None # redacted [] True (lit ''xyz'')"
    by (simp add: redacted_unmasked lit_def)
  also have "redacted [] True (lit ''xyz'') = []" by (simp add: redacted.simps lit_def is_assignment_terminator_def)
  finally show "redact_log_bytes [] (lit ''token'' @ spaces @ lit ''=xyz'') =
      lit ''token'' @ spaces @ lit ''='' @ redaction_mark"
    by (simp add: redact_log_eq none)
qed

lemma late_separator_shows_the_value:
  "redact_stream [] [lit ''token'' @ replicate 256 32, lit ''=xyz''] =
     lit ''token'' @ replicate 256 32 @ lit ''=xyz''"
  "redact_log_bytes [] (lit ''token'' @ replicate 256 32 @ lit ''=xyz'') =
     lit ''token'' @ replicate 256 32 @ lit ''='' @ redaction_mark"
proof -
  have "white_run (replicate 256 32 @ b # v) = 256" if "\<not> is_ascii_white b" for b v
    using that by (simp only: white_run_replicate if_False)
  moreover have "white_run (replicate 256 32) = 256" by (simp add: white_run_def is_ascii_white_def)
  ultimately show "redact_stream [] [lit ''token'' @ replicate 256 32, lit ''=xyz''] =
      lit ''token'' @ replicate 256 32 @ lit ''=xyz''"
    "redact_log_bytes [] (lit ''token'' @ replicate 256 32 @ lit ''=xyz'') =
      lit ''token'' @ replicate 256 32 @ lit ''='' @ redaction_mark"
    by (intro late_separator; simp)+
qed

end
