(* ===== verification/Step_Logs.thy ===== *)
theory Step_Logs
  imports Redaction_Properties
begin

text \<open>
  The bounded log of a step (\<open>BoundedLogBuffer\<close>, \<open>TaskLogBudget\<close>): a head, a tail that moves
  on and the budget the steps of a task share, with the operations as the code has them and
  what a log keeps of the bytes it has received.
\<close>

section \<open>Counters\<close>

text \<open>\<open>+=\<close> on a \<open>u64\<close> as a release build computes it, and \<open>saturating_add\<close>.\<close>

definition add64 :: "nat \<Rightarrow> nat \<Rightarrow> nat" where
  "add64 a b = (a + b) mod 2 ^ 64"

definition sat_add64 :: "nat \<Rightarrow> nat \<Rightarrow> nat" where
  "sat_add64 a b = min (a + b) (2 ^ 64 - 1)"

section \<open>The budget of a task\<close>

record log_budget =
  bd_max :: nat
  bd_stored :: nat
  bd_received :: nat
  bd_dropped :: nat

definition new_budget :: "nat \<Rightarrow> log_budget" where
  "new_budget limit = \<lparr> bd_max = limit, bd_stored = 0, bd_received = 0, bd_dropped = 0 \<rparr>"

definition budget_from_usage :: "nat \<Rightarrow> nat \<Rightarrow> nat \<Rightarrow> nat \<Rightarrow> log_budget" where
  "budget_from_usage limit stored received dropped =
     \<lparr> bd_max = limit, bd_stored = min stored limit, bd_received = received, bd_dropped = dropped \<rparr>"

definition allocate :: "nat \<Rightarrow> log_budget \<Rightarrow> nat \<times> log_budget" where
  "allocate requested bd =
    (let allocated = min requested (bd_max bd - bd_stored bd)
     in (allocated, bd\<lparr>bd_stored := bd_stored bd + allocated\<rparr>))"

section \<open>The log of a step\<close>

record log_buffer =
  lb_head_limit :: nat
  lb_tail_limit :: nat
  lb_head :: bytes
  lb_tail :: bytes
  lb_received :: nat
  lb_dropped :: nat
  lb_redactor :: redactor

record log_snapshot =
  sn_head :: bytes
  sn_tail :: bytes
  sn_stored :: nat
  sn_received :: nat
  sn_dropped :: nat
  sn_truncated :: bool

type_synonym logging = "log_buffer \<times> log_budget"

definition new_buffer :: "nat \<Rightarrow> nat \<Rightarrow> bytes list \<Rightarrow> log_buffer" where
  "new_buffer head_limit tail_limit secrets =
     \<lparr> lb_head_limit = head_limit, lb_tail_limit = tail_limit, lb_head = [], lb_tail = [],
       lb_received = 0, lb_dropped = 0, lb_redactor = new_redactor secrets \<rparr>"

definition buffer_from_persisted ::
  "nat \<Rightarrow> nat \<Rightarrow> bytes \<Rightarrow> bytes \<Rightarrow> nat \<Rightarrow> nat \<Rightarrow> bytes list \<Rightarrow> log_buffer" where
  "buffer_from_persisted head_limit tail_limit head tail received dropped secrets =
     \<lparr> lb_head_limit = head_limit, lb_tail_limit = tail_limit, lb_head = take head_limit head,
       lb_tail = drop (length tail - tail_limit) tail,
       lb_received = received, lb_dropped = dropped, lb_redactor = new_redactor secrets \<rparr>"

definition record_drop :: "nat \<Rightarrow> logging \<Rightarrow> logging" where
  "record_drop n = (\<lambda>(lb, bd).
     (lb\<lparr>lb_dropped := add64 (lb_dropped lb) n\<rparr>, bd\<lparr>bd_dropped := add64 (bd_dropped bd) n\<rparr>))"

text \<open>The first part of \<open>append_redacted\<close>: fill the head, and what is left of the bytes.\<close>

definition keep_head :: "bytes \<Rightarrow> logging \<Rightarrow> bytes \<times> logging" where
  "keep_head bs = (\<lambda>(lb, bd).
     if length (lb_head lb) < lb_head_limit lb then
       let requested = min (lb_head_limit lb - length (lb_head lb)) (length bs);
           (allocated, bd) = allocate requested bd;
           lb = lb\<lparr>lb_head := lb_head lb @ take allocated bs\<rparr>
       in if allocated < requested
          then (drop requested bs, record_drop (requested - allocated) (lb, bd))
          else (drop allocated bs, lb, bd)
     else (bs, lb, bd))"

text \<open>The second part: let the tail grow.\<close>

definition keep_tail :: "bytes \<Rightarrow> logging \<Rightarrow> bytes \<times> logging" where
  "keep_tail remaining = (\<lambda>(lb, bd).
     if length (lb_tail lb) < lb_tail_limit lb \<and> remaining \<noteq> [] then
       let requested = min (lb_tail_limit lb - length (lb_tail lb)) (length remaining);
           (allocated, bd) = allocate requested bd
       in (drop allocated remaining, lb\<lparr>lb_tail := lb_tail lb @ take allocated remaining\<rparr>, bd)
     else (remaining, lb, bd))"

text \<open>The third part: the rest moves into the tail and the oldest bytes of the tail go.\<close>

definition rotate_tail :: "bytes \<Rightarrow> logging \<Rightarrow> logging" where
  "rotate_tail remaining = (\<lambda>(lb, bd).
     let retained = length (lb_tail lb) in
     if remaining = [] then (lb, bd)
     else if retained = 0 then record_drop (length remaining) (lb, bd)
     else record_drop (length remaining)
       (lb\<lparr>lb_tail := (if length remaining \<ge> retained then drop (length remaining - retained) remaining
                       else drop (length remaining) (lb_tail lb) @ remaining)\<rparr>, bd))"

definition append_redacted :: "bytes \<Rightarrow> logging \<Rightarrow> logging" where
  "append_redacted bs = (\<lambda>(lb, bd).
     if bs = [] then (lb, bd)
     else
       let lb = lb\<lparr>lb_received := add64 (lb_received lb) (length bs)\<rparr>;
           bd = bd\<lparr>bd_received := add64 (bd_received bd) (length bs)\<rparr>;
           (remaining, lg) = keep_head bs (lb, bd);
           (remaining, lg) = keep_tail remaining lg
       in rotate_tail remaining lg)"

definition append_chunk :: "bytes \<Rightarrow> logging \<Rightarrow> logging" where
  "append_chunk chunk = (\<lambda>(lb, bd).
     let (redacted, r) = push chunk (lb_redactor lb)
     in append_redacted redacted (lb\<lparr>lb_redactor := r\<rparr>, bd))"

definition finish_buffer :: "logging \<Rightarrow> logging" where
  "finish_buffer = (\<lambda>(lb, bd).
     let (redacted, r) = finish_redactor (lb_redactor lb)
     in append_redacted redacted (lb\<lparr>lb_redactor := r\<rparr>, bd))"

definition record_external_drop :: "nat \<Rightarrow> logging \<Rightarrow> logging" where
  "record_external_drop n = (\<lambda>(lb, bd).
     record_drop n (lb\<lparr>lb_received := sat_add64 (lb_received lb) n\<rparr>,
                        bd\<lparr>bd_received := sat_add64 (bd_received bd) n\<rparr>))"

definition snapshot_of :: "log_buffer \<Rightarrow> log_snapshot" where
  "snapshot_of lb =
     \<lparr> sn_head = lb_head lb, sn_tail = lb_tail lb, sn_stored = length (lb_head lb) + length (lb_tail lb),
       sn_received = lb_received lb, sn_dropped = lb_dropped lb, sn_truncated = (lb_dropped lb > 0) \<rparr>"

section \<open>What the log of a step keeps\<close>

definition exhausted :: "log_budget \<Rightarrow> bool" where
  "exhausted bd \<longleftrightarrow> bd_max bd \<le> bd_stored bd"

text \<open>
  The log of a step after the redacted bytes \<open>s\<close> have come in and \<open>ext\<close> bytes were lost before
  they reached it. A head or a tail below its limit has missed nothing unless the budget is used up.
\<close>

definition log_keeps :: "bytes \<Rightarrow> nat \<Rightarrow> log_buffer \<Rightarrow> log_budget \<Rightarrow> bool" where
  "log_keeps s ext lb bd \<longleftrightarrow>
     length (lb_head lb) \<le> lb_head_limit lb \<and> length (lb_tail lb) \<le> lb_tail_limit lb \<and>
     (\<exists>mid. s = lb_head lb @ mid @ lb_tail lb \<and> lb_dropped lb = length mid + ext \<and>
        (length (lb_head lb) < lb_head_limit lb \<longrightarrow> lb_tail lb = [] \<and> (mid = [] \<or> exhausted bd)) \<and>
        (length (lb_tail lb) < lb_tail_limit lb \<longrightarrow> mid = [] \<or> exhausted bd))"

definition logs_stream :: "bytes \<Rightarrow> nat \<Rightarrow> log_buffer \<Rightarrow> log_budget \<Rightarrow> bool" where
  "logs_stream s ext lb bd \<longleftrightarrow> log_keeps s ext lb bd \<and> lb_received lb = length s + ext"

lemma add64_exact: "a + b < 2 ^ 64 \<Longrightarrow> add64 a b = a + b"
  by (simp add: add64_def)

lemma log_keepsI:
  assumes "length (lb_head lb) \<le> lb_head_limit lb" and "length (lb_tail lb) \<le> lb_tail_limit lb"
    and "s = lb_head lb @ mid @ lb_tail lb" and "lb_dropped lb = length mid + ext"
    and "length (lb_head lb) < lb_head_limit lb \<Longrightarrow> lb_tail lb = [] \<and> (mid = [] \<or> exhausted bd)"
    and "length (lb_tail lb) < lb_tail_limit lb \<Longrightarrow> mid = [] \<or> exhausted bd"
  shows "log_keeps s ext lb bd"
  using assms unfolding log_keeps_def by blast

lemma log_keepsE:
  assumes "log_keeps s ext lb bd"
  obtains mid where "length (lb_head lb) \<le> lb_head_limit lb" "length (lb_tail lb) \<le> lb_tail_limit lb"
    "s = lb_head lb @ mid @ lb_tail lb" "lb_dropped lb = length mid + ext"
    "length (lb_head lb) < lb_head_limit lb \<Longrightarrow> lb_tail lb = [] \<and> (mid = [] \<or> exhausted bd)"
    "length (lb_tail lb) < lb_tail_limit lb \<Longrightarrow> mid = [] \<or> exhausted bd"
  using assms unfolding log_keeps_def by blast

lemma keep_head_keeps:
  assumes k: "log_keeps s ext lb bd" and small: "length s + ext + length bs < 2 ^ 64"
    and h: "keep_head bs (lb, bd) = (rest, lb', bd')"
  shows "\<exists>now. bs = now @ rest \<and> log_keeps (s @ now) ext lb' bd' \<and>
     (rest \<noteq> [] \<longrightarrow> length (lb_head lb') = lb_head_limit lb' \<or> exhausted bd')"
proof (cases "length (lb_head lb) < lb_head_limit lb")
  case False
  then have "rest = bs" "lb' = lb" "bd' = bd" using h by (simp_all add: keep_head_def)
  with k False show ?thesis by (auto elim: log_keepsE intro: exI [of _ "[]"])
next
  case True
  from k obtain mid where m: "length (lb_tail lb) \<le> lb_tail_limit lb" "s = lb_head lb @ mid @ lb_tail lb"
      "lb_dropped lb = length mid + ext" "lb_tail lb = []" "mid = [] \<or> exhausted bd"
    using True by (auto elim: log_keepsE)
  define r where "r = min (lb_head_limit lb - length (lb_head lb)) (length bs)"
  define a where "a = min r (bd_max bd - bd_stored bd)"
  have none: "a = 0" if "exhausted bd" using that by (simp add: a_def exhausted_def)
  show ?thesis
  proof (cases "a < r")
    case less: True
    then have a: "a = bd_max bd - bd_stored bd" by (auto simp: a_def)
    have eqs: "rest = drop r bs"
      "lb' = lb\<lparr>lb_head := lb_head lb @ take a bs, lb_dropped := add64 (lb_dropped lb) (r - a)\<rparr>"
      "bd' = bd\<lparr>bd_stored := bd_stored bd + a, bd_dropped := add64 (bd_dropped bd) (r - a)\<rparr>"
      using h True less by (simp_all add: keep_head_def allocate_def Let_def record_drop_def flip: r_def a_def)
    have "a < lb_head_limit lb - length (lb_head lb)" "a \<le> length bs" using less by (simp_all add: r_def)
    then have le: "length (lb_head lb) + min (length bs) a \<le> lb_head_limit lb" by simp
    have ex: "exhausted bd'" using a by (simp add: eqs exhausted_def)
    have "lb_dropped lb' = length (mid @ drop a (take r bs)) + ext"
      using small m(2,3) by (simp add: eqs add64_exact r_def)
    moreover have "s @ take r bs = lb_head lb' @ (mid @ drop a (take r bs)) @ lb_tail lb'"
    proof -
      have "take a bs @ drop a (take r bs) = take r bs"
        using append_take_drop_id [of a "take r bs"] less by (simp add: min_def)
      then have "s @ take r bs = lb_head lb @ (mid @ take a bs) @ drop a (take r bs)" by (simp add: m(2,4))
      also have "mid @ take a bs = take a bs @ mid" using m(5) none by auto
      finally show ?thesis by (simp add: eqs m(4))
    qed
    ultimately have "log_keeps (s @ take r bs) ext lb' bd'"
      using m(1,4) ex le by (intro log_keepsI [where mid = "mid @ drop a (take r bs)"]) (simp_all, simp_all add: eqs)
    then show ?thesis using ex eqs(1) by (intro exI [of _ "take r bs"]) simp
  next
    case False
    then have a: "a = r" by (simp add: a_def)
    have eqs: "rest = drop r bs" "lb' = lb\<lparr>lb_head := lb_head lb @ take r bs\<rparr>" "bd' = bd\<lparr>bd_stored := bd_stored bd + r\<rparr>"
      using h True a by (simp_all add: keep_head_def allocate_def Let_def flip: r_def a_def)
    have mid: "mid = [] \<or> take r bs = [] \<and> exhausted bd'" using m(5) none a by (auto simp: eqs exhausted_def)
    then have "log_keeps (s @ take r bs) ext lb' bd'"
      using m(1,2,3,4) True by (intro log_keepsI [of _ _ mid]) (auto simp: eqs r_def)
    moreover have "length (lb_head lb') = lb_head_limit lb'" if "rest \<noteq> []"
      using that True by (simp add: eqs r_def)
    ultimately show ?thesis using eqs(1) by (intro exI [of _ "take r bs"]) simp
  qed
qed

lemma keep_tail_keeps:
  assumes k: "log_keeps s ext lb bd" and full: "bs \<noteq> [] \<Longrightarrow> length (lb_head lb) = lb_head_limit lb \<or> exhausted bd"
    and h: "keep_tail bs (lb, bd) = (rest, lb', bd')"
  shows "\<exists>now. bs = now @ rest \<and> log_keeps (s @ now) ext lb' bd' \<and>
     (rest \<noteq> [] \<longrightarrow> length (lb_tail lb') = lb_tail_limit lb' \<or> exhausted bd')"
proof (cases "length (lb_tail lb) < lb_tail_limit lb \<and> bs \<noteq> []")
  case False
  then have "rest = bs" "lb' = lb" "bd' = bd" using h by (auto simp: keep_tail_def split: if_splits)
  with k False show ?thesis by (auto elim: log_keepsE intro: exI [of _ "[]"])
next
  case True
  from k obtain mid where m: "length (lb_head lb) \<le> lb_head_limit lb" "s = lb_head lb @ mid @ lb_tail lb"
      "lb_dropped lb = length mid + ext" "mid = [] \<or> exhausted bd"
      "length (lb_head lb) < lb_head_limit lb \<Longrightarrow> lb_tail lb = []"
    using True by (auto elim: log_keepsE)
  define r where "r = min (lb_tail_limit lb - length (lb_tail lb)) (length bs)"
  define a where "a = min r (bd_max bd - bd_stored bd)"
  have eqs: "rest = drop a bs" "lb' = lb\<lparr>lb_tail := lb_tail lb @ take a bs\<rparr>" "bd' = bd\<lparr>bd_stored := bd_stored bd + a\<rparr>"
    using h True by (simp_all add: keep_tail_def allocate_def Let_def flip: r_def a_def)
  have ex: "exhausted bd \<Longrightarrow> a = 0 \<and> exhausted bd'" by (simp add: eqs exhausted_def a_def)
  have "log_keeps (s @ take a bs) ext lb' bd'"
    using m ex full True by (intro log_keepsI [of _ _ mid]) (auto simp: eqs a_def r_def)
  moreover have "length (lb_tail lb') = lb_tail_limit lb' \<or> exhausted bd'" if "rest \<noteq> []"
    using that True by (auto simp: eqs exhausted_def a_def r_def min_def split: if_splits)
  ultimately show ?thesis using eqs(1) by (intro exI [of _ "take a bs"]) simp
qed

lemma rotate_tail_keeps:
  assumes k: "log_keeps s ext lb bd" and full: "bs \<noteq> [] \<Longrightarrow> length (lb_tail lb) = lb_tail_limit lb \<or> exhausted bd"
    and head: "bs \<noteq> [] \<Longrightarrow> length (lb_head lb) = lb_head_limit lb \<or> exhausted bd"
    and small: "length s + ext + length bs < 2 ^ 64"
    and h: "rotate_tail bs (lb, bd) = (lb', bd')"
  shows "log_keeps (s @ bs) ext lb' bd'"
proof (cases "bs = []")
  case True
  with k h show ?thesis by (simp add: rotate_tail_def)
next
  case False
  from k obtain mid where m: "length (lb_head lb) \<le> lb_head_limit lb" "length (lb_tail lb) \<le> lb_tail_limit lb"
      "s = lb_head lb @ mid @ lb_tail lb" "lb_dropped lb = length mid + ext"
      "length (lb_head lb) < lb_head_limit lb \<Longrightarrow> lb_tail lb = []"
    by (auto elim: log_keepsE)
  let ?ret = "length (lb_tail lb)"
  define t where "t = (if ?ret \<le> length bs then drop (length bs - ?ret) bs else drop (length bs) (lb_tail lb) @ bs)"
  define mid' where "mid' = (if ?ret \<le> length bs then mid @ lb_tail lb @ take (length bs - ?ret) bs else mid @ take (length bs) (lb_tail lb))"
  have eqs: "lb' = lb\<lparr>lb_tail := t, lb_dropped := add64 (lb_dropped lb) (length bs)\<rparr>"
    "bd' = bd\<lparr>bd_dropped := add64 (bd_dropped bd) (length bs)\<rparr>"
    using h False by (auto simp: rotate_tail_def record_drop_def Let_def t_def split: if_splits)
  have ex: "exhausted bd' = exhausted bd" by (simp add: eqs exhausted_def)
  have len: "length t = ?ret" by (auto simp: t_def)
  have "lb_dropped lb' = length mid' + ext"
    using small m(3,4) by (simp add: eqs mid'_def add64_exact)
  moreover have "s @ bs = lb_head lb' @ mid' @ lb_tail lb'"
    by (simp add: eqs t_def mid'_def m(3))
  moreover have "t = []" if "lb_tail lb = []" using that len by simp
  ultimately show ?thesis using m full head False len
    by (intro log_keepsI [of _ _ mid']) (auto simp: ex, auto simp: eqs)
qed

lemma received_kept:
  "lb_received (fst (snd (keep_head bs lg))) = lb_received (fst lg)"
  "lb_received (fst (snd (keep_tail bs lg))) = lb_received (fst lg)"
  "lb_received (fst (rotate_tail bs lg)) = lb_received (fst lg)"
  by (cases lg; simp add: keep_head_def keep_tail_def rotate_tail_def record_drop_def allocate_def Let_def)+

lemma append_redacted_logs:
  assumes s: "logs_stream s ext lb bd" and small: "length s + ext + length bs < 2 ^ 64"
    and a: "append_redacted bs (lb, bd) = (lb', bd')"
  shows "logs_stream (s @ bs) ext lb' bd'"
proof (cases "bs = []")
  case True
  with s a show ?thesis by (simp add: append_redacted_def)
next
  case False
  let ?lb = "lb\<lparr>lb_received := add64 (lb_received lb) (length bs)\<rparr>"
  let ?bd = "bd\<lparr>bd_received := add64 (bd_received bd) (length bs)\<rparr>"
  obtain r1 lb1 bd1 where h: "keep_head bs (?lb, ?bd) = (r1, lb1, bd1)" by (metis prod_cases3)
  obtain r2 lb2 bd2 where t: "keep_tail r1 (lb1, bd1) = (r2, lb2, bd2)" by (metis prod_cases3)
  have r: "rotate_tail r2 (lb2, bd2) = (lb', bd')"
    using a False h t by (simp add: append_redacted_def Let_def)
  have "log_keeps s ext ?lb ?bd"
    using s by (auto simp: logs_stream_def exhausted_def elim!: log_keepsE intro!: log_keepsI)
  from keep_head_keeps [OF this small h] obtain n1 where
    n1: "bs = n1 @ r1" "log_keeps (s @ n1) ext lb1 bd1"
      "r1 \<noteq> [] \<Longrightarrow> length (lb_head lb1) = lb_head_limit lb1 \<or> exhausted bd1" by blast
  from keep_tail_keeps [OF n1(2,3) t] obtain n2 where
    n2: "r1 = n2 @ r2" "log_keeps ((s @ n1) @ n2) ext lb2 bd2"
      "r2 \<noteq> [] \<Longrightarrow> length (lb_tail lb2) = lb_tail_limit lb2 \<or> exhausted bd2" by blast
  have "length (lb_head lb2) = lb_head_limit lb2 \<or> exhausted bd2" if "r2 \<noteq> []"
    using n1(3) n2(1) t that by (auto simp: keep_tail_def allocate_def Let_def exhausted_def split: if_splits)
  moreover have "length ((s @ n1) @ n2) + ext + length r2 < 2 ^ 64" using small n1(1) n2(1) by simp
  ultimately have "log_keeps (((s @ n1) @ n2) @ r2) ext lb' bd'"
    by (intro rotate_tail_keeps [OF n2(2,3) _ _ r])
  moreover have "lb_received lb' = length (s @ bs) + ext"
    using received_kept [of bs "(?lb, ?bd)"] received_kept [of r1 "(lb1, bd1)"] received_kept [of r2 "(lb2, bd2)"]
      s small by (simp add: h t r add64_exact logs_stream_def)
  ultimately show ?thesis using n1(1) n2(1) by (simp add: logs_stream_def)
qed

lemma record_external_drop_logs:
  assumes s: "logs_stream s ext lb bd" and small: "length s + ext + n < 2 ^ 64"
    and a: "record_external_drop n (lb, bd) = (lb', bd')"
  shows "logs_stream s (ext + n) lb' bd'"
proof -
  have eqs: "lb' = lb\<lparr>lb_received := sat_add64 (lb_received lb) n, lb_dropped := add64 (lb_dropped lb) n\<rparr>"
    "bd' = bd\<lparr>bd_received := sat_add64 (bd_received bd) n, bd_dropped := add64 (bd_dropped bd) n\<rparr>"
    using a by (simp_all add: record_external_drop_def record_drop_def)
  have ex: "exhausted bd' = exhausted bd" by (simp add: eqs exhausted_def)
  have "lb_received lb' = length s + (ext + n)" using s small by (simp add: eqs logs_stream_def sat_add64_def)
  moreover have "log_keeps s (ext + n) lb' bd'"
  proof -
    from s obtain mid where m: "length (lb_head lb) \<le> lb_head_limit lb" "length (lb_tail lb) \<le> lb_tail_limit lb"
      "s = lb_head lb @ mid @ lb_tail lb" "lb_dropped lb = length mid + ext"
      "length (lb_head lb) < lb_head_limit lb \<longrightarrow> lb_tail lb = [] \<and> (mid = [] \<or> exhausted bd)"
      "length (lb_tail lb) < lb_tail_limit lb \<longrightarrow> mid = [] \<or> exhausted bd"
      unfolding logs_stream_def log_keeps_def by blast
    have "lb_dropped lb' = length mid + (ext + n)" using m(3,4) small by (simp add: eqs add64_exact)
    then show ?thesis using m(1,2,3,5,6) by (intro log_keepsI [of _ _ mid]) (simp_all add: ex, simp_all add: eqs)
  qed
  ultimately show ?thesis by (simp add: logs_stream_def)
qed

text \<open>The budget of a task pays for every byte one of its logs gains.\<close>

definition buffer_size :: "log_buffer \<Rightarrow> nat" where
  "buffer_size lb = length (lb_head lb) + length (lb_tail lb)"

definition paid :: "logging \<Rightarrow> logging \<Rightarrow> bool" where
  "paid = (\<lambda>(lb, bd) (lb', bd'). buffer_size lb \<le> buffer_size lb' \<and> bd_max bd' = bd_max bd \<and>
     bd_stored bd' + buffer_size lb = bd_stored bd + buffer_size lb' \<and>
     (bd_stored bd \<le> bd_max bd \<longrightarrow> bd_stored bd' \<le> bd_max bd') \<and>
     lb_head_limit lb' = lb_head_limit lb \<and> lb_tail_limit lb' = lb_tail_limit lb)"

lemma paid_refl: "paid lg lg" and paid_trans: "paid lg lg1 \<Longrightarrow> paid lg1 lg2 \<Longrightarrow> paid lg lg2"
  by (auto simp: paid_def split: prod.splits)

lemma within_budget: "stored \<le> limit \<Longrightarrow> stored + min requested (limit - stored) \<le> (limit :: nat)"
  by simp

lemma keep_head_paid: "paid lg (snd (keep_head bs lg))"
  by (cases lg) (auto simp: keep_head_def paid_def allocate_def record_drop_def buffer_size_def Let_def within_budget)

lemma keep_tail_paid: "paid lg (snd (keep_tail bs lg))"
  by (cases lg) (auto simp: keep_tail_def paid_def allocate_def buffer_size_def Let_def)

lemma rotate_tail_paid: "paid lg (rotate_tail bs lg)"
  by (cases lg) (auto simp: rotate_tail_def paid_def record_drop_def buffer_size_def Let_def)

lemma append_redacted_paid: "paid lg (append_redacted bs lg)"
proof (cases lg)
  case (Pair lb bd)
  let ?lg = "(lb\<lparr>lb_received := add64 (lb_received lb) (length bs)\<rparr>,
    bd\<lparr>bd_received := add64 (bd_received bd) (length bs)\<rparr>)"
  obtain r1 lg1 where h: "keep_head bs ?lg = (r1, lg1)" by (cases "keep_head bs ?lg")
  obtain r2 lg2 where t: "keep_tail r1 lg1 = (r2, lg2)" by (cases "keep_tail r1 lg1")
  have "paid lg ?lg" by (simp add: Pair paid_def buffer_size_def)
  moreover have "paid ?lg lg1" using keep_head_paid [of ?lg bs] h by simp
  moreover have "paid lg1 lg2" using keep_tail_paid [of lg1 r1] t by simp
  ultimately have "paid lg (rotate_tail r2 lg2)" by (blast intro: paid_trans rotate_tail_paid)
  then show ?thesis using h t by (cases "bs = []") (auto simp: append_redacted_def Pair Let_def paid_refl)
qed

lemma redactor_paid: "paid (lb, bd) lg \<longleftrightarrow> paid (lb\<lparr>lb_redactor := r\<rparr>, bd) lg"
  by (simp add: paid_def buffer_size_def)

lemma append_chunk_paid: "paid lg (append_chunk chunk lg)"
  unfolding append_chunk_def
  by (auto simp: Let_def split: prod.splits) (metis append_redacted_paid redactor_paid)

lemma finish_buffer_paid: "paid lg (finish_buffer lg)"
  unfolding finish_buffer_def
  by (auto simp: Let_def split: prod.splits) (metis append_redacted_paid redactor_paid)

lemma record_external_drop_paid: "paid lg (record_external_drop n lg)"
  by (cases lg) (simp add: record_external_drop_def record_drop_def paid_def buffer_size_def)

lemma logs_stream_budget:
  "logs_stream s ext lb bd \<Longrightarrow> (exhausted bd \<Longrightarrow> exhausted bd') \<Longrightarrow> logs_stream s ext lb bd'"
  unfolding logs_stream_def by (auto elim!: log_keepsE intro!: log_keepsI)

lemma paid_exhausted: "paid (lb, bd) (lb', bd') \<Longrightarrow> exhausted bd \<Longrightarrow> exhausted bd'"
  by (auto simp: paid_def exhausted_def)

end
