(* ===== verification/Store.thy ===== *)
theory Store
  imports Step_Logs Orchestrator
begin

text \<open>
  The tables that the log service, the release service and the retention service keep beside
  those of the orchestrator, as the migrations declare them, the errors of the retention
  services, and ordered maps, the model of \<open>BTreeMap\<close>.
\<close>

section \<open>The tables of the logs\<close>

record budget_row =
  bg_task :: int
  bg_stored :: nat
  bg_received :: nat
  bg_dropped :: nat
  bg_max :: nat
  bg_truncated :: bool

record buffer_row =
  bf_step :: int
  bf_task :: int
  bf_head :: bytes
  bf_tail :: bytes
  bf_stored :: nat
  bf_received :: nat
  bf_dropped :: nat
  bf_head_limit :: nat
  bf_tail_limit :: nat
  bf_truncated :: bool
  bf_finished :: bool
  bf_updated :: time

text \<open>The titles and details of the events that cleaning up leaves, one constructor per message.\<close>

datatype cleanup_message =
    LogsDeleted | BytesReleased nat
  | HistoryDeleted | HistoryDetail int int bool nat
  | ReleaseArchived | ReleaseDeleted | ReleaseDetail ustr int
  | ArtifactCleanupStarted | ArtifactCleanupEnded | ArtifactCleanupFailed
  | SnapshotCleared | ResultsKept | CleanupText ustr

record cleanup_event =
  ce_level :: ustr
  ce_target :: ustr
  ce_target_id :: int
  ce_title :: cleanup_message
  ce_operator :: ustr
  ce_detail :: cleanup_message

section \<open>Errors\<close>

text \<open>Why something may not be cleaned up yet, one constructor per message of the source.\<close>

datatype blocker =
    UsedByReleases nat | UsedByRuntimes nat | UsedBySnapshots nat
  | CurrentInEnvironments nat | UsedByActiveRuns nat | UsedByRunHistory nat
  | InActiveQueue nat | InQueueHistory nat | InTaskHistory nat | InLegacyHistory nat | BaseOfReleases nat
  | RunStillActive run_status | SnapshotKept | LogsKept | QueueStillActive

datatype retention_message =
    NoStepLog | NoTaskStep | NoLogTask | StepLogFinished | LogsInUse
  | NoArtifact | NoRelease | NoHistory | NoSnapshot | RunInUse
  | HistoryBlocked "blocker list" | ArchiveBlocked ustr "blocker list" | DeleteBlocked ustr "blocker list"
  | CleanupBlocked artifact_status "blocker list"

datatype retention_error = RetentionNotFound retention_message | RetentionState retention_message

section \<open>The tables of releases\<close>

datatype version_scope = AppScope | UnitScope | ConfigScope

record counter_row =
  vc_kind :: version_scope
  vc_scope :: int
  vc_next :: int

record stage_row =
  sg_id :: int
  sg_no :: int

record stage_link_row =
  lk_stage :: int
  lk_unit :: int
  lk_order :: int
  lk_removal :: int

datatype queue_status = QueueScheduled | QueueQueued | QueueRunning | QueueSuccess | QueueFailed | QueueCanceled

record queue_row =
  qu_id :: int
  qu_release :: int
  qu_task :: "int option"
  qu_status :: queue_status

text \<open>
  The database with the tables that the logs, the releases and the retention service add.
  \<open>step_updated\<close> is the column of that name that the rows of the steps leave out;
  \<open>legacy_runs\<close> are the releases that the rows of \<open>deployment_runs\<close> name.
\<close>

record store =
  core :: db
  log_budgets :: "budget_row list"
  log_buffers :: "buffer_row list"
  step_updated :: "int \<Rightarrow> time"
  events :: "cleanup_event list"
  app_ids :: "int list"
  counters :: "counter_row list"
  stages :: "stage_row list"
  stage_links :: "stage_link_row list"
  queue :: "queue_row list"
  legacy_runs :: "int option list"
  release_seq :: int
  unit_release_seq :: int

text \<open>A database without any of the added rows.\<close>

definition bare_store :: "db \<Rightarrow> store" where
  "bare_store d = \<lparr> core = d, log_budgets = [], log_buffers = [], step_updated = (\<lambda>_. 0), events = [],
     app_ids = [], counters = [], stages = [], stage_links = [], queue = [], legacy_runs = [],
     release_seq = 0, unit_release_seq = 0 \<rparr>"

section \<open>Ordered maps\<close>

text \<open>A \<open>BTreeMap\<close> is the list of its entries in the order of the keys.\<close>

fun btree_insert :: "int \<Rightarrow> 'v \<Rightarrow> (int \<times> 'v) list \<Rightarrow> (int \<times> 'v) list" where
  "btree_insert k v [] = [(k, v)]"
| "btree_insert k v ((l, w) # rest) =
    (if k < l then (k, v) # (l, w) # rest
     else if k = l then (k, v) # rest
     else (l, w) # btree_insert k v rest)"

definition btree_of :: "(int \<times> 'v) list \<Rightarrow> (int \<times> 'v) list" where
  "btree_of entries = fold (\<lambda>(k, v). btree_insert k v) entries []"

definition btree_ok :: "(int \<times> 'v) list \<Rightarrow> bool" where
  "btree_ok m \<longleftrightarrow> sorted (map fst m) \<and> distinct (map fst m)"

lemma btree_insert_keys: "set (map fst (btree_insert k v m)) = insert k (set (map fst m))"
  by (induction k v m rule: btree_insert.induct) auto

lemma btree_insert_ok: "btree_ok m \<Longrightarrow> btree_ok (btree_insert k v m)"
proof (induction k v m rule: btree_insert.induct)
  case (2 k v l w rest)
  then show ?case using btree_insert_keys [of k v rest] by (auto simp: btree_ok_def)
qed (simp add: btree_ok_def)

lemma map_of_btree_insert: "btree_ok m \<Longrightarrow> map_of (btree_insert k v m) = (map_of m)(k \<mapsto> v)"
proof (induction k v m rule: btree_insert.induct)
  case (2 k v l w rest)
  then have "btree_ok rest" by (simp add: btree_ok_def)
  moreover have "k < l \<Longrightarrow> map_of rest l = None" using 2 by (simp add: btree_ok_def map_of_eq_None_iff)
  ultimately show ?case using 2 by (auto simp: fun_eq_iff)
qed simp

lemma btree_fold_ok: "btree_ok m \<Longrightarrow> btree_ok (fold (\<lambda>(k, v). btree_insert k v) es m)"
  by (induction es arbitrary: m) (auto simp: btree_insert_ok)

lemma btree_of_ok: "btree_ok (btree_of entries)"
  unfolding btree_of_def by (rule btree_fold_ok) (simp add: btree_ok_def)

lemma btree_fold_keys:
  "fst ` set (fold (\<lambda>(k, v). btree_insert k v) es m) = fst ` set es \<union> fst ` set m"
proof (induction es arbitrary: m)
  case (Cons e es)
  then show ?case using btree_insert_keys [of "fst e" "snd e" m] by (cases e) auto
qed simp

lemma btree_of_keys: "fst ` set (btree_of entries) = fst ` set entries"
  unfolding btree_of_def by (simp add: btree_fold_keys)

lemma btree_insert_entries: "set (btree_insert k v m) \<subseteq> insert (k, v) (set m)"
  by (induction k v m rule: btree_insert.induct) auto

lemma btree_fold_entries: "set (fold (\<lambda>(k, v). btree_insert k v) es m) \<subseteq> set es \<union> set m"
proof (induction es arbitrary: m)
  case (Cons e es)
  then show ?case using btree_insert_entries [of "fst e" "snd e" m] by (cases e) fastforce
qed simp

lemma btree_of_entries: "set (btree_of entries) \<subseteq> set entries"
  unfolding btree_of_def using btree_fold_entries [of entries "[]"] by simp

end
