(* ===== verification/Log_Service.thy ===== *)
theory Log_Service
  imports Store "HOL-Library.AList"
begin

text \<open>
  \<open>DeploymentLogService\<close> of \<open>api/src/deployment_retention.rs\<close>: the logs of the running steps
  in memory, one budget per task, their checkpoints in the database, reading them back after a
  restart, previews, and deleting the logs of a task. Each call is one step: the lock of a task
  is held while its logs change, and a checkpoint writes in one transaction.
\<close>

section \<open>The service\<close>

record active_step =
  as_buffer :: log_buffer
  as_finished :: bool
  as_updated :: time

record active_log =
  al_budget :: log_budget
  al_steps :: "(int \<times> active_step) list"

record log_service =
  lv_store :: store
  lv_active :: "int \<rightharpoonup> active_log"
  lv_head_limit :: nat
  lv_tail_limit :: nat
  lv_task_limit :: nat

type_synonym 'a log_op = "(log_service, retention_error, 'a) operation"

definition active_log_of :: "int \<Rightarrow> log_service \<Rightarrow> active_log \<times> log_service" where
  "active_log_of task sv =
    (case lv_active sv task of
       Some al \<Rightarrow> (al, sv)
     | None \<Rightarrow>
         let budget = (case find (\<lambda>b. bg_task b = task) (log_budgets (lv_store sv)) of
               Some b \<Rightarrow> budget_from_usage (max (bg_max b) 1) (bg_stored b) (bg_received b) (bg_dropped b)
             | None \<Rightarrow> new_budget (lv_task_limit sv));
             al = \<lparr> al_budget = budget, al_steps = [] \<rparr>
         in (al, sv\<lparr>lv_active := (lv_active sv)(task \<mapsto> al)\<rparr>))"

record persisted_step =
  pe_head :: bytes
  pe_tail :: bytes
  pe_received :: nat
  pe_dropped :: nat
  pe_head_limit :: nat
  pe_tail_limit :: nat
  pe_finished :: bool
  pe_updated :: time

definition load_step :: "int \<Rightarrow> int \<Rightarrow> log_service \<Rightarrow> retention_error + persisted_step" where
  "load_step task step sv =
    (case find (\<lambda>s. step_id s = step \<and> step_task s = task) (steps (core (lv_store sv))) of
       None \<Rightarrow> Inl (RetentionNotFound NoTaskStep)
     | Some s \<Rightarrow> Inr (case find (\<lambda>b. bf_step b = step_id s) (log_buffers (lv_store sv)) of
         Some b \<Rightarrow> \<lparr> pe_head = bf_head b, pe_tail = bf_tail b, pe_received = bf_received b,
             pe_dropped = bf_dropped b, pe_head_limit = bf_head_limit b, pe_tail_limit = bf_tail_limit b,
             pe_finished = bf_finished b, pe_updated = bf_updated b \<rparr>
       | None \<Rightarrow> \<lparr> pe_head = [], pe_tail = [], pe_received = 0, pe_dropped = 0,
             pe_head_limit = lv_head_limit sv, pe_tail_limit = lv_tail_limit sv,
             pe_finished = False, pe_updated = step_updated (lv_store sv) step \<rparr>))"

definition active_step_of :: "bytes list \<Rightarrow> persisted_step \<Rightarrow> active_step" where
  "active_step_of secrets p =
     \<lparr> as_buffer = buffer_from_persisted (pe_head_limit p) (pe_tail_limit p) (pe_head p) (pe_tail p)
         (pe_received p) (pe_dropped p) secrets,
       as_finished = pe_finished p, as_updated = pe_updated p \<rparr>"

text \<open>What one call does to the log of a step that may be written, and to the budget.\<close>

definition write_step :: "bytes option \<Rightarrow> nat \<Rightarrow> bool \<Rightarrow> active_step \<Rightarrow> log_budget \<Rightarrow> active_step \<times> log_budget" where
  "write_step chunk dropped finish st budget =
    (let lg = (as_buffer st, budget);
         lg = (case chunk of Some c \<Rightarrow> append_chunk c lg | None \<Rightarrow> lg);
         lg = (if 0 < dropped then record_external_drop dropped lg else lg);
         ending = (finish \<and> \<not> as_finished st);
         (lb, bd) = (if ending then finish_buffer lg else lg)
     in (st\<lparr>as_buffer := lb, as_finished := as_finished st \<or> ending\<rparr>, bd))"

definition mutate_buffer ::
  "int \<Rightarrow> int \<Rightarrow> bytes list \<Rightarrow> bytes option \<Rightarrow> nat \<Rightarrow> bool \<Rightarrow> unit log_op" where
  "mutate_buffer task step secrets chunk dropped finish sv =
    (let (al, sv) = active_log_of task sv in
     case (case map_of (al_steps al) step of
         Some st \<Rightarrow> Inr st
       | None \<Rightarrow> map_sum id (active_step_of secrets) (load_step task step sv)) of
       Inl e \<Rightarrow> (Inl e, sv)
     | Inr st \<Rightarrow>
         let keep = (\<lambda>st bd. sv\<lparr>lv_active := (lv_active sv)(task \<mapsto>
               \<lparr>al_budget = bd, al_steps = AList.update step st (al_steps al)\<rparr>)\<rparr>)
         in if as_finished st \<and> \<not> finish then (Inl (RetentionState StepLogFinished), keep st (al_budget al))
            else let (st, bd) = write_step chunk dropped finish st (al_budget al)
                 in (Inr (), keep st bd))"

record log_checkpoint =
  cp_step :: log_snapshot
  cp_head_limit :: nat
  cp_tail_limit :: nat
  cp_max :: nat
  cp_stored :: nat
  cp_received :: nat
  cp_dropped :: nat
  cp_truncated :: bool
  cp_finished :: bool

definition persistence_snapshot :: "int \<Rightarrow> int \<Rightarrow> log_service \<Rightarrow> log_checkpoint option" where
  "persistence_snapshot task step sv =
    Option.bind (lv_active sv task) (\<lambda>al. map_option (\<lambda>st.
      \<lparr> cp_step = snapshot_of (as_buffer st), cp_head_limit = lb_head_limit (as_buffer st),
        cp_tail_limit = lb_tail_limit (as_buffer st), cp_max = bd_max (al_budget al),
        cp_stored = bd_stored (al_budget al), cp_received = bd_received (al_budget al),
        cp_dropped = bd_dropped (al_budget al), cp_truncated = (0 < bd_dropped (al_budget al)),
        cp_finished = as_finished st \<rparr>) (map_of (al_steps al) step))"

text \<open>The two \<open>INSERT ... ON CONFLICT DO UPDATE\<close> of \<open>persist\<close>.\<close>

definition persist_budget :: "int \<Rightarrow> log_checkpoint \<Rightarrow> budget_row list \<Rightarrow> budget_row list" where
  "persist_budget task cp rows =
    (if \<exists>b \<in> set rows. bg_task b = task
     then modify (\<lambda>b. bg_task b = task) (\<lambda>b. b\<lparr> bg_stored := max (bg_stored b) (cp_stored cp),
       bg_received := max (bg_received b) (cp_received cp), bg_dropped := max (bg_dropped b) (cp_dropped cp),
       bg_max := cp_max cp, bg_truncated := (bg_truncated b \<or> cp_truncated cp) \<rparr>) rows
     else rows @ [\<lparr> bg_task = task, bg_stored = cp_stored cp, bg_received = cp_received cp,
       bg_dropped = cp_dropped cp, bg_max = cp_max cp, bg_truncated = cp_truncated cp \<rparr>])"

definition persist_buffer :: "int \<Rightarrow> int \<Rightarrow> log_checkpoint \<Rightarrow> time \<Rightarrow> buffer_row list \<Rightarrow> buffer_row list" where
  "persist_buffer task step cp now rows =
    (let sn = cp_step cp in
     if \<exists>b \<in> set rows. bf_step b = step
     then modify (\<lambda>b. bf_step b = step \<and> bf_received b \<le> sn_received sn) (\<lambda>b. b\<lparr> bf_head := sn_head sn,
       bf_tail := sn_tail sn, bf_stored := sn_stored sn, bf_received := sn_received sn,
       bf_dropped := sn_dropped sn, bf_truncated := sn_truncated sn,
       bf_finished := (bf_finished b \<or> cp_finished cp), bf_updated := now \<rparr>) rows
     else rows @ [\<lparr> bf_step = step, bf_task = task, bf_head = sn_head sn, bf_tail = sn_tail sn,
       bf_stored = sn_stored sn, bf_received = sn_received sn, bf_dropped = sn_dropped sn,
       bf_head_limit = cp_head_limit cp, bf_tail_limit = cp_tail_limit cp,
       bf_truncated = sn_truncated sn, bf_finished = cp_finished cp, bf_updated = now \<rparr>])"

definition persist :: "int \<Rightarrow> int \<Rightarrow> log_checkpoint \<Rightarrow> time \<Rightarrow> store \<Rightarrow> store" where
  "persist task step cp now s =
     s\<lparr> log_budgets := persist_budget task cp (log_budgets s),
        log_buffers := persist_buffer task step cp now (log_buffers s) \<rparr>"

definition log_snapshot_of :: "int \<Rightarrow> int \<Rightarrow> log_service \<Rightarrow> retention_error + log_snapshot" where
  "log_snapshot_of task step sv =
    (case find (\<lambda>b. bf_task b = task \<and> bf_step b = step) (log_buffers (lv_store sv)) of
       None \<Rightarrow> Inl (RetentionNotFound NoStepLog)
     | Some b \<Rightarrow> Inr \<lparr> sn_head = bf_head b, sn_tail = bf_tail b, sn_stored = bf_stored b,
         sn_received = bf_received b, sn_dropped = bf_dropped b, sn_truncated = bf_truncated b \<rparr>)"

definition append_buffered :: "int \<Rightarrow> int \<Rightarrow> bytes list \<Rightarrow> bytes \<Rightarrow> unit log_op" where
  "append_buffered task step secrets chunk = mutate_buffer task step secrets (Some chunk) 0 False"

definition record_dropped :: "int \<Rightarrow> int \<Rightarrow> bytes list \<Rightarrow> nat \<Rightarrow> unit log_op" where
  "record_dropped task step secrets n = mutate_buffer task step secrets None n False"

definition checkpoint :: "int \<Rightarrow> int \<Rightarrow> time \<Rightarrow> log_snapshot log_op" where
  "checkpoint task step now sv =
    (case persistence_snapshot task step sv of
       None \<Rightarrow> (log_snapshot_of task step sv, sv)
     | Some cp \<Rightarrow> (Inr (cp_step cp), sv\<lparr>lv_store := persist task step cp now (lv_store sv)\<rparr>))"

definition append_log_chunk :: "int \<Rightarrow> int \<Rightarrow> bytes list \<Rightarrow> bytes \<Rightarrow> time \<Rightarrow> log_snapshot log_op" where
  "append_log_chunk task step secrets chunk now sv =
    (case append_buffered task step secrets chunk sv of
       (Inl e, sv) \<Rightarrow> (Inl e, sv)
     | (Inr u, sv) \<Rightarrow> checkpoint task step now sv)"

definition finish_log :: "int \<Rightarrow> int \<Rightarrow> time \<Rightarrow> log_snapshot log_op" where
  "finish_log task step now sv =
    (case mutate_buffer task step [] None 0 True sv of
       (Inl e, sv) \<Rightarrow> (Inl e, sv)
     | (Inr u, sv) \<Rightarrow>
       (case persistence_snapshot task step sv of
          None \<Rightarrow> (Inl (RetentionNotFound NoStepLog), sv)
        | Some cp \<Rightarrow>
            (Inr (cp_step cp),
             sv\<lparr> lv_store := persist task step cp now (lv_store sv),
                 lv_active := (lv_active sv)(task := map_option
                   (\<lambda>al. al\<lparr>al_steps := AList.delete step (al_steps al)\<rparr>) (lv_active sv task)) \<rparr>)))"

text \<open>Starting the server again forgets the logs in memory.\<close>

definition restart_logs :: "log_service \<Rightarrow> log_service" where
  "restart_logs sv = sv\<lparr>lv_active := (\<lambda>_. None)\<rparr>"

text \<open>\<open>text_bytes\<close> is the length of a log line as UTF-8, which the texts of the model do not show.\<close>

definition delete_task_logs :: "(memo \<Rightarrow> nat) \<Rightarrow> int \<Rightarrow> ustr \<Rightarrow> nat log_op" where
  "delete_task_logs text_bytes task operator sv =
    (let s = lv_store sv; d = core s in
     case find (\<lambda>t. task_id t = task) (tasks d) of
       None \<Rightarrow> (Inl (RetentionNotFound NoLogTask), sv)
     | Some t \<Rightarrow>
         if task_status t \<in> {TaskQueued, TaskRunning} \<or>
            (\<exists>r \<in> set (runs d). run_task r = Some task \<and> run_status r = RunReconciling)
         then (Inl (RetentionState LogsInUse), sv)
         else
           let released = sum_list (map bf_stored (filter (\<lambda>b. bf_task b = task) (log_buffers s)))
                 + sum_list (map (text_bytes \<circ> log_content) (filter (\<lambda>l. log_task l = task) (logs d)))
           in (Inr released,
               sv\<lparr> lv_store := s\<lparr> log_buffers := filter (\<lambda>b. bf_task b \<noteq> task) (log_buffers s),
                     log_budgets := filter (\<lambda>b. bg_task b \<noteq> task) (log_budgets s),
                     core := d\<lparr>logs := filter (\<lambda>l. log_task l \<noteq> task) (logs d)\<rparr>,
                     events := events s @ [\<lparr> ce_level = lit ''info'', ce_target = lit ''task'',
                       ce_target_id = task, ce_title = LogsDeleted, ce_operator = trim operator,
                       ce_detail = BytesReleased released \<rparr>] \<rparr>,
                   lv_active := (lv_active sv)(task := None) \<rparr>))"

section \<open>Previews\<close>

record log_preview =
  pv_step :: int
  pv_head :: bytes
  pv_tail :: bytes
  pv_stored :: nat
  pv_dropped :: nat
  pv_truncated :: bool
  pv_omitted :: nat
  pv_updated :: time
  pv_live :: bool

definition buffer_preview :: "nat \<Rightarrow> nat \<Rightarrow> log_buffer \<Rightarrow> log_preview" where
  "buffer_preview head_limit tail_limit lb =
    (let h = take head_limit (lb_head lb); t = drop (length (lb_tail lb) - tail_limit) (lb_tail lb);
         stored = length (lb_head lb) + length (lb_tail lb)
     in \<lparr> pv_step = 0, pv_head = h, pv_tail = t, pv_stored = stored, pv_dropped = lb_dropped lb,
          pv_truncated = (0 < lb_dropped lb), pv_omitted = stored - (length h + length t),
          pv_updated = 0, pv_live = True \<rparr>)"

text \<open>A row as the query cuts it: \<open>substr(x, 1, n)\<close> and \<open>substr(x, -n)\<close>.\<close>

definition row_preview :: "nat \<Rightarrow> nat \<Rightarrow> buffer_row \<Rightarrow> log_preview" where
  "row_preview head_limit tail_limit b =
    (let h = take head_limit (bf_head b); t = drop (length (bf_tail b) - tail_limit) (bf_tail b)
     in \<lparr> pv_step = bf_step b, pv_head = h, pv_tail = t, pv_stored = bf_stored b, pv_dropped = bf_dropped b,
          pv_truncated = bf_truncated b, pv_omitted = bf_stored b - length h - length t,
          pv_updated = bf_updated b, pv_live = False \<rparr>)"

definition show_live :: "nat \<Rightarrow> nat \<Rightarrow> int \<times> active_step \<Rightarrow> log_preview list \<Rightarrow> log_preview list" where
  "show_live head_limit tail_limit = (\<lambda>(step, st) previews.
    (let p = (buffer_preview head_limit tail_limit (as_buffer st))\<lparr>pv_step := step, pv_updated := as_updated st\<rparr>
     in if \<exists>q \<in> set previews. pv_step q = step then modify (\<lambda>q. pv_step q = step) (\<lambda>_. p) previews
        else previews @ [p]))"

definition task_previews :: "nat \<Rightarrow> nat \<Rightarrow> nat \<Rightarrow> int \<Rightarrow> log_service \<Rightarrow> log_preview list" where
  "task_previews head_limit tail_limit max_steps task sv =
    (let rows = take (max max_steps 1) (sort_key (\<lambda>b. (- int (bf_updated b), - bf_step b))
           (filter (\<lambda>b. bf_task b = task) (log_buffers (lv_store sv))));
         stored = map (row_preview head_limit tail_limit) rows;
         shown = (case lv_active sv task of None \<Rightarrow> stored
           | Some al \<Rightarrow> fold (show_live head_limit tail_limit) (al_steps al) stored)
     in sort_key pv_step (take (max max_steps 1)
          (sort_key (\<lambda>p. (\<not> pv_live p, - int (pv_updated p), - pv_step p)) shown)))"

end
