(* ===== verification/Log_Invariant.thy ===== *)
theory Log_Invariant
  imports Log_Service
begin

text \<open>
  What every call to the log service keeps: the logs of a task, in memory and in the database,
  are paid for by its budget, and each log fits the limits of its row.
\<close>

section \<open>The steps of a task\<close>

definition steps_of_task :: "db \<Rightarrow> int \<Rightarrow> int set" where
  "steps_of_task d task = step_id ` {s \<in> set (steps d). step_task s = task}"

lemma finite_steps_of_task [simp]: "finite (steps_of_task d task)"
  by (simp add: steps_of_task_def)

text \<open>How many bytes the database and the memory hold for a step.\<close>

definition row_size :: "buffer_row list \<Rightarrow> int \<Rightarrow> nat" where
  "row_size rows step = (case find (\<lambda>b. bf_step b = step) rows of Some b \<Rightarrow> bf_stored b | None \<Rightarrow> 0)"

definition live_size :: "buffer_row list \<Rightarrow> active_log \<Rightarrow> int \<Rightarrow> nat" where
  "live_size rows al step = (case map_of (al_steps al) step of
     Some st \<Rightarrow> buffer_size (as_buffer st) | None \<Rightarrow> row_size rows step)"

text \<open>A row fits its limits, and the log in memory fits the limits of its row.\<close>

definition row_ok :: "buffer_row \<Rightarrow> bool" where
  "row_ok b \<longleftrightarrow> bf_stored b = length (bf_head b) + length (bf_tail b) \<and>
     length (bf_head b) \<le> bf_head_limit b \<and> length (bf_tail b) \<le> bf_tail_limit b"

definition within_limits :: "log_buffer \<Rightarrow> bool" where
  "within_limits lb \<longleftrightarrow> length (lb_head lb) \<le> lb_head_limit lb \<and> length (lb_tail lb) \<le> lb_tail_limit lb"

definition step_ok :: "buffer_row list \<Rightarrow> int \<Rightarrow> active_step \<Rightarrow> bool" where
  "step_ok rows step st \<longleftrightarrow> within_limits (as_buffer st) \<and>
     (\<forall>b \<in> set rows. bf_step b = step \<longrightarrow> bf_stored b \<le> buffer_size (as_buffer st) \<and>
        bf_head_limit b = lb_head_limit (as_buffer st) \<and> bf_tail_limit b = lb_tail_limit (as_buffer st))"

text \<open>The logs of one task: what is in the database, and what is in memory.\<close>

definition rows_within :: "nat \<Rightarrow> store \<Rightarrow> int \<Rightarrow> bool" where
  "rows_within limit s task \<longleftrightarrow>
     (case find (\<lambda>b. bg_task b = task) (log_budgets s) of
        Some b \<Rightarrow> bg_max b = limit \<and> bg_stored b \<le> limit \<and>
          (\<Sum>i \<in> steps_of_task (core s) task. row_size (log_buffers s) i) \<le> bg_stored b
      | None \<Rightarrow> (\<Sum>i \<in> steps_of_task (core s) task. row_size (log_buffers s) i) = 0)"

definition memory_within :: "nat \<Rightarrow> store \<Rightarrow> int \<Rightarrow> active_log \<Rightarrow> bool" where
  "memory_within limit s task al \<longleftrightarrow> bd_max (al_budget al) = limit \<and> bd_stored (al_budget al) \<le> limit \<and>
     (\<forall>step st. map_of (al_steps al) step = Some st \<longrightarrow>
        step \<in> steps_of_task (core s) task \<and> step_ok (log_buffers s) step st) \<and>
     (\<Sum>i \<in> steps_of_task (core s) task. live_size (log_buffers s) al i) \<le> bd_stored (al_budget al)"

definition log_inv :: "log_service \<Rightarrow> bool" where
  "log_inv sv \<longleftrightarrow> 0 < lv_task_limit sv \<and>
     distinct (map step_id (steps (core (lv_store sv)))) \<and>
     distinct (map bf_step (log_buffers (lv_store sv))) \<and>
     (\<forall>b \<in> set (log_buffers (lv_store sv)). row_ok b \<and> bf_step b \<in> steps_of_task (core (lv_store sv)) (bf_task b)) \<and>
     (\<forall>task. rows_within (lv_task_limit sv) (lv_store sv) task) \<and>
     (\<forall>task al. lv_active sv task = Some al \<longrightarrow> memory_within (lv_task_limit sv) (lv_store sv) task al)"

section \<open>Writing keeps the limits\<close>

lemma keep_head_within: "within_limits (fst lg) \<Longrightarrow> within_limits (fst (snd (keep_head bs lg)))"
  by (cases lg) (auto simp: keep_head_def within_limits_def allocate_def record_drop_def Let_def min_def)

lemma keep_tail_within: "within_limits (fst lg) \<Longrightarrow> within_limits (fst (snd (keep_tail bs lg)))"
  by (cases lg) (auto simp: keep_tail_def within_limits_def allocate_def Let_def min_def)

lemma rotate_tail_within: "within_limits (fst lg) \<Longrightarrow> within_limits (fst (rotate_tail bs lg))"
  by (cases lg) (auto simp: rotate_tail_def within_limits_def record_drop_def Let_def)

lemma append_redacted_within: "within_limits (fst lg) \<Longrightarrow> within_limits (fst (append_redacted bs lg))"
proof (cases lg)
  case (Pair lb bd)
  assume w: "within_limits (fst lg)"
  let ?lg = "(lb\<lparr>lb_received := add64 (lb_received lb) (length bs)\<rparr>,
    bd\<lparr>bd_received := add64 (bd_received bd) (length bs)\<rparr>)"
  obtain r1 lg1 where h: "keep_head bs ?lg = (r1, lg1)" by (cases "keep_head bs ?lg")
  obtain r2 lg2 where t: "keep_tail r1 lg1 = (r2, lg2)" by (cases "keep_tail r1 lg1")
  have "within_limits (fst ?lg)" using w by (simp add: Pair within_limits_def)
  from keep_head_within [OF this, of bs] have "within_limits (fst lg1)" by (simp only: h snd_conv)
  from keep_tail_within [OF this, of r1] have "within_limits (fst lg2)" by (simp only: t snd_conv)
  then have "within_limits (fst (rotate_tail r2 lg2))" by (rule rotate_tail_within)
  then show ?thesis using w h t by (cases "bs = []") (auto simp: append_redacted_def Pair Let_def)
qed

lemma within_redactor: "within_limits (lb\<lparr>lb_redactor := r\<rparr>) = within_limits lb"
  by (simp add: within_limits_def)

lemma append_chunk_within: "within_limits (fst lg) \<Longrightarrow> within_limits (fst (append_chunk c lg))"
  by (cases lg) (simp add: append_chunk_def Let_def append_redacted_within within_redactor split: prod.split)

lemma finish_buffer_within: "within_limits (fst lg) \<Longrightarrow> within_limits (fst (finish_buffer lg))"
  by (cases lg) (simp add: finish_buffer_def Let_def append_redacted_within within_redactor split: prod.split)

lemma record_external_drop_within: "within_limits (fst lg) \<Longrightarrow> within_limits (fst (record_external_drop n lg))"
  by (cases lg) (simp add: record_external_drop_def record_drop_def within_limits_def)

lemma write_step_paid:
  assumes "write_step chunk dropped fin st bd = (st', bd')"
  shows "paid (as_buffer st, bd) (as_buffer st', bd')"
    and "within_limits (as_buffer st) \<Longrightarrow> within_limits (as_buffer st')"
proof -
  define lg1 where "lg1 = (case chunk of Some c \<Rightarrow> append_chunk c (as_buffer st, bd) | None \<Rightarrow> (as_buffer st, bd))"
  define lg2 where "lg2 = (if 0 < dropped then record_external_drop dropped lg1 else lg1)"
  define lg3 where "lg3 = (if fin \<and> \<not> as_finished st then finish_buffer lg2 else lg2)"
  have "(as_buffer st', bd') = lg3"
    using assms by (auto simp: write_step_def Let_def lg3_def lg2_def lg1_def split: prod.splits)
  moreover have "paid (as_buffer st, bd) lg1"
    by (simp add: lg1_def append_chunk_paid paid_refl split: option.split)
  moreover have "paid lg1 lg2" by (simp add: lg2_def record_external_drop_paid paid_refl)
  moreover have "paid lg2 lg3" by (simp add: lg3_def finish_buffer_paid paid_refl)
  ultimately show "paid (as_buffer st, bd) (as_buffer st', bd')" by (metis paid_trans)
  assume "within_limits (as_buffer st)"
  then have "within_limits (fst lg1)"
    using append_chunk_within [of "(as_buffer st, bd)"] by (simp add: lg1_def split: option.split)
  then have "within_limits (fst lg2)" by (simp add: lg2_def record_external_drop_within)
  then have "within_limits (fst lg3)" by (simp add: lg3_def finish_buffer_within)
  then show "within_limits (as_buffer st')" using \<open>(as_buffer st', bd') = lg3\<close> by (metis fst_conv)
qed

section \<open>The calls keep the budget\<close>

lemma steps_of_task_unique:
  assumes "distinct (map step_id (steps d))" and "i \<in> steps_of_task d t" and "i \<in> steps_of_task d t'"
  shows "t = t'"
  using assms by (auto simp: steps_of_task_def) (metis distinct_map inj_onD)

lemma find_one_row:
  assumes "distinct (map f xs)" and "x \<in> set xs"
  shows "find (\<lambda>y. f y = f x) xs = Some x"
  using assms by (induction xs) auto

lemma row_size_row: "distinct (map bf_step rows) \<Longrightarrow> b \<in> set rows \<Longrightarrow> row_size rows (bf_step b) = bf_stored b"
  by (simp add: row_size_def find_one_row)

lemma row_size_none: "(\<And>b. b \<in> set rows \<Longrightarrow> bf_step b \<noteq> i) \<Longrightarrow> row_size rows i = 0"
  by (simp add: row_size_def find_None_iff split: option.split) (meson find_SomeD)

lemma sum_change:
  assumes "finite S" and "i \<in> S" and "\<And>j. j \<in> S \<Longrightarrow> j \<noteq> i \<Longrightarrow> g j = f j"
  shows "sum g S + f i = sum f S + (g i :: nat)"
proof -
  have "sum g (S - {i}) = sum f (S - {i})" using assms(3) by (intro sum.cong) auto
  then show ?thesis using sum.remove [OF assms(1,2), of g] sum.remove [OF assms(1,2), of f] by simp
qed

lemma row_le_live:
  assumes "memory_within limit s task al"
  shows "row_size (log_buffers s) i \<le> live_size (log_buffers s) al i"
proof (cases "map_of (al_steps al) i")
  case (Some st)
  then have "step_ok (log_buffers s) i st" using assms by (simp add: memory_within_def)
  then show ?thesis using Some
    by (auto simp: live_size_def row_size_def step_ok_def split: option.split dest: find_SomeD)
qed (simp add: live_size_def)

lemma memory_put:
  assumes m: "memory_within limit s task al" and step: "step \<in> steps_of_task (core s) task"
    and ok: "step_ok (log_buffers s) step st" and bd: "bd_max bd = limit" "bd_stored bd \<le> limit"
    and pay: "bd_stored bd + live_size (log_buffers s) al step = bd_stored (al_budget al) + buffer_size (as_buffer st)"
  shows "memory_within limit s task \<lparr>al_budget = bd, al_steps = AList.update step st (al_steps al)\<rparr>"
proof -
  let ?al = "\<lparr>al_budget = bd, al_steps = AList.update step st (al_steps al)\<rparr>"
  have at: "live_size (log_buffers s) ?al i =
      (if i = step then buffer_size (as_buffer st) else live_size (log_buffers s) al i)" for i
    by (simp add: live_size_def update_conv')
  have "(\<Sum>i \<in> steps_of_task (core s) task. live_size (log_buffers s) ?al i) + live_size (log_buffers s) al step =
      (\<Sum>i \<in> steps_of_task (core s) task. live_size (log_buffers s) al i) + buffer_size (as_buffer st)"
    using sum_change [OF finite_steps_of_task step, where g = "live_size (log_buffers s) ?al" and f = "live_size (log_buffers s) al"]
    by (simp add: at)
  moreover have "(\<Sum>i \<in> steps_of_task (core s) task. live_size (log_buffers s) al i) \<le> bd_stored (al_budget al)"
    using m by (simp add: memory_within_def)
  ultimately have "(\<Sum>i \<in> steps_of_task (core s) task. live_size (log_buffers s) ?al i) \<le> bd_stored bd" using pay by linarith
  then show ?thesis using m step ok bd by (auto simp: memory_within_def update_conv')
qed

lemma log_inv_put:
  "log_inv sv \<Longrightarrow> (\<And>al. x = Some al \<Longrightarrow> memory_within (lv_task_limit sv) (lv_store sv) task al) \<Longrightarrow>
     log_inv (sv\<lparr>lv_active := (lv_active sv)(task := x)\<rparr>)"
  by (auto simp: log_inv_def)

lemma active_log_of_inv:
  assumes inv: "log_inv sv" and a: "active_log_of task sv = (al, sv')"
  shows "log_inv sv'" and "lv_active sv' task = Some al" and "lv_store sv' = lv_store sv"
    and "lv_task_limit sv' = lv_task_limit sv"
proof -
  show store: "lv_store sv' = lv_store sv" and limit: "lv_task_limit sv' = lv_task_limit sv"
    and active: "lv_active sv' task = Some al"
    using a by (auto simp: active_log_of_def Let_def split: option.splits)
  have "memory_within (lv_task_limit sv) (lv_store sv) task al"
  proof (cases "lv_active sv task")
    case (Some al0)
    then show ?thesis using a inv by (auto simp: active_log_of_def log_inv_def)
  next
    case None
    have rows: "rows_within (lv_task_limit sv) (lv_store sv) task" and pos: "0 < lv_task_limit sv"
      using inv by (simp_all add: log_inv_def)
    have live: "live_size (log_buffers (lv_store sv)) \<lparr>al_budget = bd, al_steps = []\<rparr> = row_size (log_buffers (lv_store sv))" for bd
      by (simp add: live_size_def fun_eq_iff)
    show ?thesis
      using a None rows pos
      by (auto simp: active_log_of_def Let_def memory_within_def rows_within_def live budget_from_usage_def
          new_budget_def split: option.splits)
  qed
  moreover have "sv' = sv \<or> sv' = sv\<lparr>lv_active := (lv_active sv)(task := Some al)\<rparr>"
    using a by (auto simp: active_log_of_def Let_def split: option.splits)
  ultimately show "log_inv sv'" using inv log_inv_put [OF inv, of "Some al" task] by auto
qed

lemma loaded_step_ok:
  assumes inv: "log_inv sv" and l: "load_step task step sv = Inr p"
  shows "step \<in> steps_of_task (core (lv_store sv)) task"
    and "step_ok (log_buffers (lv_store sv)) step (active_step_of secrets p)"
    and "buffer_size (as_buffer (active_step_of secrets p)) = row_size (log_buffers (lv_store sv)) step"
proof -
  let ?rows = "log_buffers (lv_store sv)"
  have dist: "distinct (map bf_step ?rows)" and ok: "\<And>b. b \<in> set ?rows \<Longrightarrow> row_ok b" using inv by (auto simp: log_inv_def)
  obtain s where s: "find (\<lambda>s. step_id s = step \<and> step_task s = task) (steps (core (lv_store sv))) = Some s"
    using l by (auto simp: load_step_def split: option.splits)
  then have "s \<in> set (steps (core (lv_store sv)))" "step_id s = step" "step_task s = task" by (auto dest: find_SomeD)
  then show "step \<in> steps_of_task (core (lv_store sv)) task" by (auto simp: steps_of_task_def)
  have "step_ok ?rows step (active_step_of secrets p) \<and>
      buffer_size (as_buffer (active_step_of secrets p)) = row_size ?rows step"
  proof (cases "find (\<lambda>b. bf_step b = step) ?rows")
    case (Some b)
    then have b: "b \<in> set ?rows" "bf_step b = step" by (auto dest: find_SomeD)
    have uniq: "c = b" if "c \<in> set ?rows" "bf_step c = step" for c
      using dist that b by (metis distinct_map inj_onD)
    have "p = \<lparr> pe_head = bf_head b, pe_tail = bf_tail b, pe_received = bf_received b,
             pe_dropped = bf_dropped b, pe_head_limit = bf_head_limit b, pe_tail_limit = bf_tail_limit b,
             pe_finished = bf_finished b, pe_updated = bf_updated b \<rparr>"
      using l s Some \<open>step_id s = step\<close> by (simp add: load_step_def)
    then show ?thesis using ok [OF b(1)] uniq Some
      by (auto simp: step_ok_def active_step_of_def buffer_from_persisted_def within_limits_def buffer_size_def
          row_ok_def row_size_def)
  next
    case None
    then have "\<And>b. b \<in> set ?rows \<Longrightarrow> bf_step b \<noteq> step" by (auto simp: find_None_iff)
    moreover have "pe_head p = []" "pe_tail p = []"
      using l s None \<open>step_id s = step\<close> by (auto simp: load_step_def)
    ultimately show ?thesis
      by (auto simp: step_ok_def active_step_of_def buffer_from_persisted_def within_limits_def buffer_size_def
          row_size_none)
  qed
  then show "step_ok ?rows step (active_step_of secrets p)"
    "buffer_size (as_buffer (active_step_of secrets p)) = row_size ?rows step" by auto
qed

text \<open>A call that writes.\<close>

lemma mutate_buffer_inv:
  assumes inv: "log_inv sv" and c: "mutate_buffer task step secrets chunk dropped fin sv = (res, sv')"
  shows "log_inv sv'" and "lv_store sv' = lv_store sv"
proof -
  obtain al sv1 where a: "active_log_of task sv = (al, sv1)" by (cases "active_log_of task sv")
  note a_inv = active_log_of_inv [OF inv a]
  have m: "memory_within (lv_task_limit sv1) (lv_store sv1) task al"
    using a_inv(1,2) by (auto simp: log_inv_def)
  let ?ld = "case map_of (al_steps al) step of Some st \<Rightarrow> Inr st
     | None \<Rightarrow> map_sum id (active_step_of secrets) (load_step task step sv1)"
  show "log_inv sv'"
  proof (cases ?ld)
    case (Inl e)
    then have "sv' = sv1" using c a by (simp add: mutate_buffer_def)
    with a_inv(1) show ?thesis by simp
  next
    case (Inr st)
    have st: "step \<in> steps_of_task (core (lv_store sv1)) task" "step_ok (log_buffers (lv_store sv1)) step st"
        "live_size (log_buffers (lv_store sv1)) al step = buffer_size (as_buffer st)"
    proof -
      have "step \<in> steps_of_task (core (lv_store sv1)) task \<and> step_ok (log_buffers (lv_store sv1)) step st \<and>
        live_size (log_buffers (lv_store sv1)) al step = buffer_size (as_buffer st)"
      proof (cases "map_of (al_steps al) step")
        case (Some st')
        then show ?thesis using m Inr by (auto simp: memory_within_def live_size_def)
      next
        case None
        then obtain p where p: "load_step task step sv1 = Inr p" "st = active_step_of secrets p"
          using Inr by (cases "load_step task step sv1") auto
        show ?thesis using loaded_step_ok [OF a_inv(1) p(1)] None p(2) by (simp add: live_size_def)
      qed
      then show "step \<in> steps_of_task (core (lv_store sv1)) task" "step_ok (log_buffers (lv_store sv1)) step st"
        "live_size (log_buffers (lv_store sv1)) al step = buffer_size (as_buffer st)" by auto
    qed
    define put where "put st bd = sv1\<lparr>lv_active := (lv_active sv1)(task \<mapsto>
        \<lparr>al_budget = bd, al_steps = AList.update step st (al_steps al)\<rparr>)\<rparr>" for st bd
    have put_inv: "log_inv (put st' bd')" if ok: "step_ok (log_buffers (lv_store sv1)) step st'"
      and p: "paid (as_buffer st, al_budget al) (as_buffer st', bd')" for st' bd'
    proof -
      have "memory_within (lv_task_limit sv1) (lv_store sv1) task
          \<lparr>al_budget = bd', al_steps = AList.update step st' (al_steps al)\<rparr>"
        by (rule memory_put [OF m st(1) ok]) (use m p st(3) in \<open>auto simp: paid_def memory_within_def\<close>)
      then show ?thesis unfolding put_def by (intro log_inv_put [OF a_inv(1)]) simp
    qed
    show ?thesis
    proof (cases "as_finished st \<and> \<not> fin")
      case True
      then have "sv' = put st (al_budget al)" using c a Inr by (simp add: mutate_buffer_def put_def Let_def)
      with put_inv [OF st(2) paid_refl] show ?thesis by simp
    next
      case False
      obtain st' bd' where w: "write_step chunk dropped fin st (al_budget al) = (st', bd')"
        by (cases "write_step chunk dropped fin st (al_budget al)")
      have "sv' = put st' bd'" using c a Inr False w by (auto simp: mutate_buffer_def put_def Let_def)
      moreover have p: "paid (as_buffer st, al_budget al) (as_buffer st', bd')" by (rule write_step_paid(1) [OF w])
      moreover have "step_ok (log_buffers (lv_store sv1)) step st'"
        using st(2) p write_step_paid(2) [OF w] by (fastforce simp: step_ok_def paid_def)
      ultimately show ?thesis using put_inv by simp
    qed
  qed
  show "lv_store sv' = lv_store sv"
    using c a a_inv(3) by (auto simp: mutate_buffer_def Let_def split: sum.splits if_splits prod.splits)
qed

section \<open>Writing to the database\<close>

lemma modify_find:
  assumes "\<And>r. q (f r) = q r"
  shows "find q (modify p f rs) = map_option (\<lambda>r. if p r then f r else r) (find q rs)"
  using assms by (rule find_modify)

lemma persist_budget_find:
  "find (\<lambda>b. bg_task b = t) (persist_budget task cp rows) =
     (if t = task then Some (case find (\<lambda>b. bg_task b = task) rows of
        Some b \<Rightarrow> b\<lparr> bg_stored := max (bg_stored b) (cp_stored cp),
           bg_received := max (bg_received b) (cp_received cp), bg_dropped := max (bg_dropped b) (cp_dropped cp),
           bg_max := cp_max cp, bg_truncated := (bg_truncated b \<or> cp_truncated cp) \<rparr>
      | None \<Rightarrow> \<lparr> bg_task = task, bg_stored = cp_stored cp, bg_received = cp_received cp,
           bg_dropped = cp_dropped cp, bg_max = cp_max cp, bg_truncated = cp_truncated cp \<rparr>)
      else find (\<lambda>b. bg_task b = t) rows)"
proof (cases "\<exists>b \<in> set rows. bg_task b = task")
  case True
  then obtain b where b: "find (\<lambda>b. bg_task b = task) rows = Some b"
    by (metis (mono_tags, lifting) find_None_iff not_None_eq)
  then have "bg_task b = task" by (auto dest: find_SomeD)
  show ?thesis
  proof (cases "t = task")
    case True
    then show ?thesis using \<open>\<exists>b \<in> set rows. bg_task b = task\<close> b \<open>bg_task b = task\<close>
      by (simp add: persist_budget_def find_modify)
  next
    case False
    have "find (\<lambda>b. bg_task b = t) (modify (\<lambda>b. bg_task b = task) g rows) = find (\<lambda>b. bg_task b = t) rows"
      if "\<And>b. bg_task (g b) = bg_task b" for g
      using False that by (induction rows) auto
    then show ?thesis using False True by (simp add: persist_budget_def)
  qed
next
  case False
  then have none: "find (\<lambda>b. bg_task b = task) rows = None" by (auto simp: find_None_iff)
  have snoc: "find q (rows @ [x]) = (case find q rows of Some b \<Rightarrow> Some b | None \<Rightarrow> if q x then Some x else None)" for q :: "budget_row \<Rightarrow> bool" and x
    by (induction rows) auto
  show ?thesis using False none by (simp add: persist_budget_def snoc split: option.split)
qed

lemma persist_buffer_rows:
  assumes b: "b \<in> set (persist_buffer task step cp now rows)"
  shows "b \<in> set rows \<or> bf_step b = step \<and> bf_head b = sn_head (cp_step cp) \<and> bf_tail b = sn_tail (cp_step cp) \<and>
     bf_stored b = sn_stored (cp_step cp) \<and>
     ((\<exists>c \<in> set rows. bf_step c = step \<and> bf_task b = bf_task c \<and> bf_head_limit b = bf_head_limit c \<and>
         bf_tail_limit b = bf_tail_limit c) \<or>
      bf_task b = task \<and> bf_head_limit b = cp_head_limit cp \<and> bf_tail_limit b = cp_tail_limit cp)"
proof (cases "\<exists>c \<in> set rows. bf_step c = step")
  case True
  then have "b \<in> set (modify (\<lambda>b. bf_step b = step \<and> bf_received b \<le> sn_received (cp_step cp)) (\<lambda>b. b\<lparr> bf_head := sn_head (cp_step cp),
       bf_tail := sn_tail (cp_step cp), bf_stored := sn_stored (cp_step cp), bf_received := sn_received (cp_step cp),
       bf_dropped := sn_dropped (cp_step cp), bf_truncated := sn_truncated (cp_step cp),
       bf_finished := (bf_finished b \<or> cp_finished cp), bf_updated := now \<rparr>) rows)"
    using b by (simp add: persist_buffer_def Let_def)
  then show ?thesis by (elim in_set_modifyE) (auto split: if_splits)
next
  case False
  then show ?thesis using b by (auto simp: persist_buffer_def Let_def)
qed

lemma persist_buffer_steps:
  "map bf_step (persist_buffer task step cp now rows) =
     (if \<exists>b \<in> set rows. bf_step b = step then map bf_step rows else map bf_step rows @ [step])"
  by (simp add: persist_buffer_def Let_def map_modify)

lemma persist_buffer_other:
  assumes "i \<noteq> step"
  shows "find (\<lambda>b. bf_step b = i) (persist_buffer task step cp now rows) = find (\<lambda>b. bf_step b = i) rows"
proof -
  have "find (\<lambda>b. bf_step b = i) (modify (\<lambda>b. bf_step b = step \<and> r b) g rows) = find (\<lambda>b. bf_step b = i) rows"
    if "\<And>b. bf_step (g b) = bf_step b" for g r
    using assms that by (induction rows) auto
  moreover have "find (\<lambda>b. bf_step b = i) (rows @ [x]) = find (\<lambda>b. bf_step b = i) rows" if "bf_step x = step" for x
    using assms that by (induction rows) auto
  ultimately show ?thesis by (simp add: persist_buffer_def Let_def)
qed

lemma persist_inv:
  assumes inv: "log_inv sv" and cp: "persistence_snapshot task step sv = Some cp"
  shows "log_inv (sv\<lparr>lv_store := persist task step cp now (lv_store sv)\<rparr>)"
proof -
  let ?s = "lv_store sv" and ?limit = "lv_task_limit sv"
  let ?rows = "log_buffers ?s"
  let ?rows' = "persist_buffer task step cp now ?rows"
  let ?s' = "persist task step cp now ?s"
  have s': "core ?s' = core ?s" "log_buffers ?s' = ?rows'" "log_budgets ?s' = persist_budget task cp (log_budgets ?s)"
    by (simp_all add: persist_def)
  obtain al st where al: "lv_active sv task = Some al" and st: "map_of (al_steps al) step = Some st"
    and cp_eq: "sn_head (cp_step cp) = lb_head (as_buffer st)" "sn_tail (cp_step cp) = lb_tail (as_buffer st)"
      "sn_stored (cp_step cp) = buffer_size (as_buffer st)" "cp_head_limit cp = lb_head_limit (as_buffer st)"
      "cp_tail_limit cp = lb_tail_limit (as_buffer st)" "cp_max cp = bd_max (al_budget al)"
      "cp_stored cp = bd_stored (al_budget al)"
    using cp by (auto simp: persistence_snapshot_def bind_eq_Some_conv snapshot_of_def buffer_size_def)
  have dist: "distinct (map bf_step ?rows)" "distinct (map step_id (steps (core ?s)))"
    and rows: "\<And>b. b \<in> set ?rows \<Longrightarrow> row_ok b \<and> bf_step b \<in> steps_of_task (core ?s) (bf_task b)"
    and mem: "\<And>t al. lv_active sv t = Some al \<Longrightarrow> memory_within ?limit ?s t al"
    and within: "\<And>t. rows_within ?limit ?s t" and pos: "0 < ?limit"
    using inv by (auto simp: log_inv_def)
  have m: "memory_within ?limit ?s task al" by (rule mem [OF al])
  have step: "step \<in> steps_of_task (core ?s) task" and ok: "step_ok ?rows step st"
    using m st by (auto simp: memory_within_def)
  have new: "row_ok b \<and> bf_step b \<in> steps_of_task (core ?s) (bf_task b)" if "b \<in> set ?rows'" for b
  proof
    show "row_ok b" using persist_buffer_rows [OF that] rows ok
      by (auto simp: cp_eq row_ok_def buffer_size_def step_ok_def within_limits_def)
    show "bf_step b \<in> steps_of_task (core ?s) (bf_task b)" using persist_buffer_rows [OF that] rows step by metis
  qed
  have dist': "distinct (map bf_step ?rows')" using dist(1) by (auto simp: persist_buffer_steps)
  have size: "row_size ?rows' i = row_size ?rows i" if "i \<noteq> step" for i
    using persist_buffer_other [OF that] by (simp add: row_size_def)
  have ok': "step_ok ?rows' i st'" if "step_ok ?rows i st'" "i = step \<longrightarrow> st' = st" for i st'
    unfolding step_ok_def
  proof (intro conjI ballI impI)
    show "within_limits (as_buffer st')" using that(1) by (simp add: step_ok_def)
    fix b assume "b \<in> set ?rows'" "bf_step b = i"
    with persist_buffer_rows [OF \<open>b \<in> set ?rows'\<close>] that ok
    show "bf_stored b \<le> buffer_size (as_buffer st')" "bf_head_limit b = lb_head_limit (as_buffer st')"
      "bf_tail_limit b = lb_tail_limit (as_buffer st')"
      by (auto simp: step_ok_def cp_eq)
  qed
  have live: "live_size ?rows' al' i = live_size ?rows al' i" if "i = step \<longrightarrow> map_of (al_steps al') i = Some st" for al' i
    using that size by (cases "i = step") (auto simp: live_size_def split: option.split)
  have mem': "memory_within ?limit ?s' t al'" if act: "lv_active sv t = Some al'" for t al'
  proof -
    have own: "t = task \<and> al' = al" if "step \<in> steps_of_task (core ?s) t"
      using steps_of_task_unique [OF dist(2) that step] act al by simp
    have "live_size ?rows' al' i = live_size ?rows al' i" if "i \<in> steps_of_task (core ?s) t" for i
      using own that st by (intro live) auto
    then have "(\<Sum>i \<in> steps_of_task (core ?s) t. live_size ?rows' al' i) =
        (\<Sum>i \<in> steps_of_task (core ?s) t. live_size ?rows al' i)" by (intro sum.cong) auto
    moreover have "step_ok ?rows' i st'" if "map_of (al_steps al') i = Some st'" for i st'
    proof (rule ok')
      have "i \<in> steps_of_task (core ?s) t" "step_ok ?rows i st'" using mem [OF act] that by (auto simp: memory_within_def)
      then show "step_ok ?rows i st'" "i = step \<longrightarrow> st' = st" using own that st by auto
    qed
    ultimately show ?thesis using mem [OF act] by (simp add: memory_within_def s')
  qed
  have within': "rows_within ?limit ?s' t" for t
  proof (cases "t = task")
    case True
    have "row_size ?rows' i \<le> live_size ?rows' al i" for i
      using row_le_live [OF mem' [OF al], of i] by (simp add: s')
    then have "(\<Sum>i \<in> steps_of_task (core ?s) task. row_size ?rows' i) \<le> (\<Sum>i \<in> steps_of_task (core ?s) task. live_size ?rows' al i)"
      by (rule sum_mono)
    also have "\<dots> \<le> bd_stored (al_budget al)" using mem' [OF al] by (simp add: memory_within_def s')
    finally show ?thesis using m within [of task] True
      by (auto simp: rows_within_def s' persist_budget_find cp_eq memory_within_def split: option.split)
  next
    case False
    then have "step \<notin> steps_of_task (core ?s) t" using steps_of_task_unique [OF dist(2) step] by blast
    then have "(\<Sum>i \<in> steps_of_task (core ?s) t. row_size ?rows' i) = (\<Sum>i \<in> steps_of_task (core ?s) t. row_size ?rows i)"
      by (intro sum.cong refl size) auto
    then show ?thesis using within [of t] False unfolding rows_within_def s'
      by (simp add: persist_budget_find cong: option.case_cong)
  qed
  show ?thesis using new dist dist' mem' within' pos by (auto simp: log_inv_def s')
qed

lemma checkpoint_inv: "log_inv sv \<Longrightarrow> log_inv (snd (checkpoint task step now sv))"
  by (auto simp: checkpoint_def persist_inv split: option.split)

lemma finish_log_inv:
  assumes inv: "log_inv sv"
  shows "log_inv (snd (finish_log task step now sv))"
proof -
  obtain res sv1 where mb: "mutate_buffer task step [] None 0 True sv = (res, sv1)"
    by (cases "mutate_buffer task step [] None 0 True sv")
  have inv1: "log_inv sv1" by (rule mutate_buffer_inv(1) [OF inv mb])
  show ?thesis
  proof (cases res)
    case (Inl e)
    then show ?thesis using inv1 by (simp add: finish_log_def mb)
  next
    case (Inr u)
    show ?thesis
    proof (cases "persistence_snapshot task step sv1")
      case None
      then show ?thesis using inv1 Inr by (simp add: finish_log_def mb)
    next
      case (Some cp)
      let ?sv = "sv1\<lparr>lv_store := persist task step cp now (lv_store sv1)\<rparr>"
      have inv2: "log_inv ?sv" by (rule persist_inv [OF inv1 Some])
      obtain al where al: "lv_active sv1 task = Some al"
        using Some by (auto simp: persistence_snapshot_def bind_eq_Some_conv)
      let ?al = "al\<lparr>al_steps := AList.delete step (al_steps al)\<rparr>"
      have m: "memory_within (lv_task_limit ?sv) (lv_store ?sv) task al"
        using inv2 al by (simp add: log_inv_def)
      have "live_size (log_buffers (lv_store ?sv)) ?al i \<le> live_size (log_buffers (lv_store ?sv)) al i" for i
        using row_le_live [OF m, of i] by (cases "i = step") (auto simp: live_size_def delete_conv')
      then have "(\<Sum>i \<in> steps_of_task (core (lv_store ?sv)) task. live_size (log_buffers (lv_store ?sv)) ?al i) \<le>
          (\<Sum>i \<in> steps_of_task (core (lv_store ?sv)) task. live_size (log_buffers (lv_store ?sv)) al i)"
        by (rule sum_mono)
      then have "memory_within (lv_task_limit ?sv) (lv_store ?sv) task ?al"
        using m by (auto simp: memory_within_def delete_conv' split: if_splits)
      from log_inv_put [OF inv2, of "Some ?al" task] this
      have "log_inv (?sv\<lparr>lv_active := (lv_active ?sv)(task := Some ?al)\<rparr>)" by simp
      then show ?thesis using Inr Some al by (simp add: finish_log_def mb)
    qed
  qed
qed

lemma restart_logs_inv: "log_inv sv \<Longrightarrow> log_inv (restart_logs sv)"
  by (simp add: log_inv_def restart_logs_def)

lemma find_filter_other: "(\<And>x. x \<in> set xs \<Longrightarrow> q x \<Longrightarrow> p x) \<Longrightarrow> find q (filter p xs) = find q xs"
  by (induction xs) auto

lemma logs_deleted:
  fixes sv :: log_service
  assumes "snd (delete_task_logs tb task operator sv) \<noteq> sv"
  defines "sv' \<equiv> snd (delete_task_logs tb task operator sv)" and "s \<equiv> lv_store sv"
  shows "steps (core (lv_store sv')) = steps (core s)"
    "log_buffers (lv_store sv') = filter (\<lambda>b. bf_task b \<noteq> task) (log_buffers s)"
    "log_budgets (lv_store sv') = filter (\<lambda>b. bg_task b \<noteq> task) (log_budgets s)"
    "lv_active sv' = (lv_active sv)(task := None)" "lv_task_limit sv' = lv_task_limit sv"
proof -
  obtain t where t: "find (\<lambda>t. task_id t = task) (tasks (core s)) = Some t"
    using assms(1) by (cases "find (\<lambda>t. task_id t = task) (tasks (core s))") (simp_all add: delete_task_logs_def s_def)
  have g: "\<not> (task_status t \<in> {TaskQueued, TaskRunning} \<or>
      (\<exists>r \<in> set (runs (core s)). run_task r = Some task \<and> run_status r = RunReconciling))" (is "\<not> ?used")
  proof
    assume "?used"
    then have "snd (delete_task_logs tb task operator sv) = sv"
      using t unfolding s_def by (simp only: delete_task_logs_def Let_def option.case if_True snd_conv)
    with assms(1) show False by contradiction
  qed
  note e = delete_task_logs_def [of tb task operator sv, folded s_def, unfolded Let_def t option.case if_not_P [OF g]]
  show "steps (core (lv_store sv')) = steps (core s)"
    "log_buffers (lv_store sv') = filter (\<lambda>b. bf_task b \<noteq> task) (log_buffers s)"
    "log_budgets (lv_store sv') = filter (\<lambda>b. bg_task b \<noteq> task) (log_budgets s)"
    "lv_active sv' = (lv_active sv)(task := None)" "lv_task_limit sv' = lv_task_limit sv"
    by (simp_all add: sv'_def e)
qed

lemma delete_task_logs_inv:
  assumes inv: "log_inv sv"
  shows "log_inv (snd (delete_task_logs tb task operator sv))"
proof -
  let ?s = "lv_store sv"
  let ?rows = "log_buffers ?s" and ?rows' = "filter (\<lambda>b. bf_task b \<noteq> task) (log_buffers ?s)"
  define sv' where "sv' = snd (delete_task_logs tb task operator sv)"
  show ?thesis
  proof (cases "sv' = sv")
    case True
    with inv show ?thesis by (simp add: sv'_def)
  next
    case False
    then have sv': "steps (core (lv_store sv')) = steps (core ?s)" "log_buffers (lv_store sv') = ?rows'"
      "log_budgets (lv_store sv') = filter (\<lambda>b. bg_task b \<noteq> task) (log_budgets ?s)"
      "lv_active sv' = (lv_active sv)(task := None)" "lv_task_limit sv' = lv_task_limit sv"
      using logs_deleted [OF False [unfolded sv'_def]] unfolding sv'_def by simp_all
    have eq: "steps_of_task (core (lv_store sv')) = steps_of_task (core ?s)" by (simp add: steps_of_task_def sv' fun_eq_iff)
    have dist: "distinct (map bf_step ?rows)" "distinct (map step_id (steps (core ?s)))"
      and rows: "\<And>b. b \<in> set ?rows \<Longrightarrow> row_ok b \<and> bf_step b \<in> steps_of_task (core ?s) (bf_task b)"
      using inv by (auto simp: log_inv_def)
    have other: "row_size ?rows' i = row_size ?rows i" if "i \<in> steps_of_task (core ?s) t" "t \<noteq> task" for i t
    proof -
      have "bf_task b \<noteq> task" if "b \<in> set ?rows" "bf_step b = i" for b
        using rows [OF that(1)] that(2) \<open>i \<in> _\<close> \<open>t \<noteq> task\<close> steps_of_task_unique [OF dist(2)] by metis
      then have "find (\<lambda>b. bf_step b = i) ?rows' = find (\<lambda>b. bf_step b = i) ?rows"
        by (intro find_filter_other) auto
      then show ?thesis by (simp add: row_size_def)
    qed
    have gone: "row_size ?rows' i = 0" if "i \<in> steps_of_task (core ?s) task" for i
      using rows steps_of_task_unique [OF dist(2) that] by (intro row_size_none) auto
    have same: "(\<Sum>i \<in> steps_of_task (core ?s) t. row_size ?rows' i) = (\<Sum>i \<in> steps_of_task (core ?s) t. row_size ?rows i)"
      "(\<Sum>i \<in> steps_of_task (core ?s) t. live_size ?rows' al i) = (\<Sum>i \<in> steps_of_task (core ?s) t. live_size ?rows al i)"
      if "t \<noteq> task" for t al
      using other [OF _ that] by (auto intro!: sum.cong simp: live_size_def split: option.split)
    have "rows_within (lv_task_limit sv') (lv_store sv') t" for t
    proof (cases "t = task")
      case True
      then show ?thesis using gone by (auto simp: rows_within_def sv' eq find_None_iff split: option.split dest: find_SomeD)
    next
      case False
      have "find (\<lambda>b. bg_task b = t) (filter (\<lambda>b. bg_task b \<noteq> task) (log_budgets ?s)) = find (\<lambda>b. bg_task b = t) (log_budgets ?s)"
        using False by (intro find_filter_other) auto
      moreover have "rows_within (lv_task_limit sv) ?s t" using inv by (simp add: log_inv_def)
      ultimately show ?thesis using same(1) [OF False] unfolding rows_within_def sv' eq
        by (simp cong: option.case_cong)
    qed
    moreover have "memory_within (lv_task_limit sv') (lv_store sv') t al" if "lv_active sv' t = Some al" for t al
    proof -
      have t: "t \<noteq> task" "lv_active sv t = Some al" using that by (auto simp: sv' split: if_splits)
      then have "memory_within (lv_task_limit sv) ?s t al" using inv by (simp add: log_inv_def)
      then show ?thesis using same(2) [OF t(1)] by (auto simp: memory_within_def sv' eq step_ok_def)
    qed
    ultimately show ?thesis using inv dist by (auto simp: log_inv_def sv' eq sv'_def [symmetric] distinct_map_filter)
  qed
qed

section \<open>Any sequence of calls\<close>

datatype log_call =
    CallAppend int int "bytes list" bytes | CallDrop int int "bytes list" nat
  | CallCheckpoint int int time | CallFinish int int time
  | CallDelete int ustr | CallRestart

fun do_call :: "(memo \<Rightarrow> nat) \<Rightarrow> log_call \<Rightarrow> log_service \<Rightarrow> log_service" where
  "do_call tb (CallAppend task step secrets chunk) sv = snd (append_buffered task step secrets chunk sv)"
| "do_call tb (CallDrop task step secrets n) sv = snd (record_dropped task step secrets n sv)"
| "do_call tb (CallCheckpoint task step now) sv = snd (checkpoint task step now sv)"
| "do_call tb (CallFinish task step now) sv = snd (finish_log task step now sv)"
| "do_call tb (CallDelete task operator) sv = snd (delete_task_logs tb task operator sv)"
| "do_call tb CallRestart sv = restart_logs sv"

lemma do_call_inv: "log_inv sv \<Longrightarrow> log_inv (do_call tb c sv)"
  by (cases c) (simp_all add: append_buffered_def record_dropped_def checkpoint_inv finish_log_inv
      delete_task_logs_inv restart_logs_inv mutate_buffer_inv(1) [OF _ surjective_pairing])

lemma calls_inv: "log_inv sv \<Longrightarrow> log_inv (fold (do_call tb) calls sv)"
  by (induction calls arbitrary: sv) (simp_all add: do_call_inv)

definition limits :: "log_service \<Rightarrow> nat \<times> nat \<times> nat" where
  "limits sv = (lv_head_limit sv, lv_tail_limit sv, lv_task_limit sv)"

lemma active_log_of_limit: "limits (snd (active_log_of task sv)) = limits sv"
  by (simp add: active_log_of_def limits_def Let_def split: option.split)

lemma mutate_buffer_limit: "limits (snd (mutate_buffer task step secrets chunk dropped fin sv)) = limits sv"
  using active_log_of_limit [of task sv]
  by (auto simp: mutate_buffer_def limits_def Let_def split: sum.split prod.split)

lemma do_call_limit: "limits (do_call tb c sv) = limits sv"
proof (cases c)
  case (CallFinish task step now)
  then show ?thesis using mutate_buffer_limit [of task step "[]" None 0 True sv]
    by (auto simp: finish_log_def limits_def split: sum.split prod.split option.split)
qed (simp_all add: append_buffered_def record_dropped_def mutate_buffer_limit, simp_all add: checkpoint_def
    delete_task_logs_def restart_logs_def limits_def Let_def split: option.split)

lemma calls_limit: "limits (fold (do_call tb) calls sv) = limits sv"
  by (induction calls arbitrary: sv) (simp_all add: do_call_limit)

end
