(* ===== verification/Log_Properties.thy ===== *)
theory Log_Properties
  imports Log_Invariant Samples
begin

text \<open>
  Properties of the log service: budgets, checkpoints that come late, and what the log of a
  step shows of the output it was given among the calls of other steps.
\<close>

section \<open>Within the budget\<close>

lemma sum_rows:
  assumes dist: "distinct (map bf_step rows)" and own: "\<And>b. b \<in> set rows \<Longrightarrow> bf_task b = task \<Longrightarrow> bf_step b \<in> S"
    and other: "\<And>b. b \<in> set rows \<Longrightarrow> bf_step b \<in> S \<Longrightarrow> bf_task b = task" and fin: "finite S"
  shows "sum_list (map bf_stored (filter (\<lambda>b. bf_task b = task) rows)) = (\<Sum>i \<in> S. row_size rows i)"
proof -
  let ?mine = "filter (\<lambda>b. bf_task b = task) rows"
  have d: "distinct (map bf_step ?mine)" using dist by (rule distinct_map_filter)
  have "sum_list (map bf_stored ?mine) = (\<Sum>b \<in> set ?mine. bf_stored b)"
    using d by (simp add: sum_list_distinct_conv_sum_set distinct_map)
  also have "\<dots> = (\<Sum>b \<in> set ?mine. row_size rows (bf_step b))"
    using dist by (intro sum.cong) (auto simp: row_size_row)
  also have "\<dots> = (\<Sum>i \<in> bf_step ` set ?mine. row_size rows i)"
    using d by (simp add: sum.reindex distinct_map o_def)
  also have "\<dots> = (\<Sum>i \<in> S. row_size rows i)"
  proof (rule sum.mono_neutral_left [OF fin])
    show "bf_step ` set ?mine \<subseteq> S" using own by auto
    show "\<forall>i \<in> S - bf_step ` set ?mine. row_size rows i = 0"
      using other by (auto intro!: row_size_none)
  qed
  finally show ?thesis .
qed

lemma log_inv_start:
  assumes "distinct (map step_id (steps (core (lv_store sv))))" and "0 < lv_task_limit sv"
    and "log_buffers (lv_store sv) = []" and "log_budgets (lv_store sv) = []" and "lv_active sv = (\<lambda>_. None)"
  shows "log_inv sv"
  using assms by (simp add: log_inv_def rows_within_def row_size_def)

lemma log_inv_total:
  assumes inv: "log_inv sv"
  shows "sum_list (map bf_stored (filter (\<lambda>b. bf_task b = task) (log_buffers (lv_store sv)))) \<le> lv_task_limit sv"
proof -
  let ?rows = "log_buffers (lv_store sv)" and ?S = "steps_of_task (core (lv_store sv)) task"
  have dist: "distinct (map bf_step ?rows)" "distinct (map step_id (steps (core (lv_store sv))))"
    and own: "\<And>b. b \<in> set ?rows \<Longrightarrow> bf_step b \<in> steps_of_task (core (lv_store sv)) (bf_task b)"
    and w: "rows_within (lv_task_limit sv) (lv_store sv) task"
    using inv by (auto simp: log_inv_def)
  have "sum_list (map bf_stored (filter (\<lambda>b. bf_task b = task) ?rows)) = (\<Sum>i \<in> ?S. row_size ?rows i)"
    by (rule sum_rows [OF dist(1)]) (use own steps_of_task_unique [OF dist(2)] in auto)
  also have "\<dots> \<le> lv_task_limit sv" using w by (auto simp: rows_within_def split: option.splits)
  finally show ?thesis .
qed

text \<open>
  C32. However the calls to the log service and restarts follow each other, the logs of the
  steps of a task that the database holds never take more bytes together than one task may
  have, and each keeps to the limits of its head and its tail. A checkpoint is written in the
  call that takes it: a write that is still under way while other calls go on, for example
  while the logs of the task are deleted, is not covered.
\<close>

theorem task_logs_stay_within_budget:
  assumes "distinct (map step_id (steps (core (lv_store sv))))" and "0 < lv_task_limit sv"
    and "log_buffers (lv_store sv) = []" and "log_budgets (lv_store sv) = []" and "lv_active sv = (\<lambda>_. None)"
  shows "let s = lv_store (fold (do_call tb) calls sv) in
     sum_list (map bf_stored (filter (\<lambda>b. bf_task b = task) (log_buffers s))) \<le> lv_task_limit sv \<and>
     (\<forall>b \<in> set (log_buffers s). bf_stored b = length (bf_head b) + length (bf_tail b) \<and>
        length (bf_head b) \<le> bf_head_limit b \<and> length (bf_tail b) \<le> bf_tail_limit b)"
proof -
  have inv: "log_inv (fold (do_call tb) calls sv)" by (rule calls_inv [OF log_inv_start [OF assms]])
  have "\<forall>b \<in> set (log_buffers (lv_store (fold (do_call tb) calls sv))). row_ok b" using inv by (simp add: log_inv_def)
  then show ?thesis using log_inv_total [OF inv, of task] calls_limit [of tb calls sv]
    by (simp add: Let_def limits_def row_ok_def)
qed

section \<open>Late checkpoints\<close>

text \<open>
  C33. A checkpoint that was taken before a newer one has been written leaves the log of the step
  as it is, and no counter of the task goes back.
\<close>

theorem late_checkpoints_keep_the_newer_log:
  assumes "distinct (map bf_step (log_buffers s))" and "b \<in> set (log_buffers s)"
    and "bf_step b = step" and "sn_received (cp_step cp) < bf_received b"
  shows "log_buffers (persist task step cp now s) = log_buffers s \<and>
     (\<forall>g \<in> set (log_budgets s). \<exists>g' \<in> set (log_budgets (persist task step cp now s)). bg_task g' = bg_task g \<and>
        bg_stored g \<le> bg_stored g' \<and> bg_received g \<le> bg_received g' \<and> bg_dropped g \<le> bg_dropped g' \<and>
        (bg_truncated g \<longrightarrow> bg_truncated g'))"
proof
  have "b' = b" if "b' \<in> set (log_buffers s)" "bf_step b' = step" for b'
    using assms that by (metis distinct_map inj_onD)
  then show "log_buffers (persist task step cp now s) = log_buffers s"
  proof -
    have "\<exists>c \<in> set (log_buffers s). bf_step c = step" using assms(2,3) by blast
    moreover have "modify (\<lambda>b. bf_step b = step \<and> bf_received b \<le> sn_received (cp_step cp)) f (log_buffers s) = log_buffers s" for f
      using \<open>\<And>b'. b' \<in> set (log_buffers s) \<Longrightarrow> bf_step b' = step \<Longrightarrow> b' = b\<close> assms(4)
      by (intro modify_id_when) force
    ultimately show ?thesis by (simp add: persist_def persist_buffer_def Let_def)
  qed
  show "\<forall>g \<in> set (log_budgets s). \<exists>g' \<in> set (log_budgets (persist task step cp now s)). bg_task g' = bg_task g \<and>
        bg_stored g \<le> bg_stored g' \<and> bg_received g \<le> bg_received g' \<and> bg_dropped g \<le> bg_dropped g' \<and>
        (bg_truncated g \<longrightarrow> bg_truncated g')"
  proof
    fix g :: budget_row
    assume g: "g \<in> set (log_budgets s)"
    define f :: "budget_row \<Rightarrow> budget_row" where "f b = b\<lparr> bg_stored := max (bg_stored b) (cp_stored cp),
       bg_received := max (bg_received b) (cp_received cp), bg_dropped := max (bg_dropped b) (cp_dropped cp),
       bg_max := cp_max cp, bg_truncated := (bg_truncated b \<or> cp_truncated cp) \<rparr>" for b
    have "(if bg_task g = task then f g else g) \<in> set (log_budgets (persist task step cp now s))"
      using g by (auto simp: persist_def persist_budget_def set_modify f_def)
    then show "\<exists>g' \<in> set (log_budgets (persist task step cp now s)). bg_task g' = bg_task g \<and>
        bg_stored g \<le> bg_stored g' \<and> bg_received g \<le> bg_received g' \<and> bg_dropped g \<le> bg_dropped g' \<and>
        (bg_truncated g \<longrightarrow> bg_truncated g')"
      by (rule bexI [rotated]) (simp add: f_def)
  qed
qed

section \<open>The log of one step\<close>









section \<open>What a call does to the view of a step\<close>



















section \<open>Writing on the step\<close>













section \<open>The other calls\<close>



















lemma find_all: "xs \<noteq> [] \<Longrightarrow> (\<exists>x \<in> set xs. q x) \<Longrightarrow> \<exists>x. find q xs = Some x"
  by (metis (mono_tags, lifting) find_None_iff not_None_eq)




definition sample_logs :: log_service where
  "sample_logs = \<lparr> lv_store = bare_store (sample_db\<lparr>steps := [\<lparr> step_id = 1, step_task = 21, step_phase = None,
       step_node = None, step_no = 1, step_key = [], step_title = Told [], step_command = [],
       step_status = StepRunning, step_exit_code = None, step_started = None, step_finished = None \<rparr>]\<rparr>),
     lv_active = (\<lambda>_. None), lv_head_limit = 1, lv_tail_limit = 1, lv_task_limit = 3 \<rparr>"



theorem task_logs_stay_within_budget_witness:
  "sum_list (map bf_stored (filter (\<lambda>b. bf_task b = 21) (log_buffers (lv_store
     (fold (do_call (\<lambda>_. 0)) [CallAppend 21 1 [] (lit ''x y''), CallCheckpoint 21 1 5] sample_logs))))) \<le> 3"
proof -
  have "distinct (map step_id (steps (core (lv_store sample_logs))))" "0 < lv_task_limit sample_logs"
    "log_buffers (lv_store sample_logs) = []" "log_budgets (lv_store sample_logs) = []"
    "lv_active sample_logs = (\<lambda>_. None)" "lv_task_limit sample_logs = 3"
    by (simp_all add: sample_logs_def bare_store_def)
  with task_logs_stay_within_budget [of sample_logs "\<lambda>_. 0" "[CallAppend 21 1 [] (lit ''x y''), CallCheckpoint 21 1 5]" 21]
  show ?thesis by (simp only: Let_def)
qed

definition sample_buffer_row :: buffer_row where
  "sample_buffer_row = \<lparr> bf_step = 1, bf_task = 21, bf_head = [120], bf_tail = [121], bf_stored = 2,
     bf_received = 9, bf_dropped = 7, bf_head_limit = 1, bf_tail_limit = 1, bf_truncated = True,
     bf_finished = True, bf_updated = 4 \<rparr>"

definition sample_checkpoint :: log_checkpoint where
  "sample_checkpoint = \<lparr> cp_step = \<lparr> sn_head = [120], sn_tail = [], sn_stored = 1, sn_received = 3, sn_dropped = 2,
       sn_truncated = True \<rparr>, cp_head_limit = 1, cp_tail_limit = 1, cp_max = 3, cp_stored = 1,
     cp_received = 3, cp_dropped = 2, cp_truncated = True, cp_finished = False \<rparr>"

theorem late_checkpoints_keep_the_newer_log_witness:
  "log_buffers (persist 21 1 sample_checkpoint 5 (lv_store sample_logs\<lparr>log_buffers := [sample_buffer_row]\<rparr>))
     = [sample_buffer_row]"
  using late_checkpoints_keep_the_newer_log [of "lv_store sample_logs\<lparr>log_buffers := [sample_buffer_row]\<rparr>"
      sample_buffer_row 1 sample_checkpoint 21 5]
  by (simp add: sample_buffer_row_def sample_checkpoint_def)

end
