(* ===== verification/Releases.thy ===== *)
theory Releases
  imports Store
begin

text \<open>
Releases of units and of applications (\<open>ApplicationReleaseService\<close> of
  \<open>api/src/application_releases.rs\<close>): what is validated, how version codes are given out, and
  how a release is resolved from its base, its changes and its selections.
\<close>

section \<open>Versions and checksums\<close>

text \<open>\<open>str::split\<close> at one character: one part more than there are separators.\<close>

fun split_at :: "nat \<Rightarrow> ustr \<Rightarrow> ustr list" where
  "split_at c [] = [[]]"
| "split_at c (x # xs) =
    (if x = c then [] # split_at c xs
     else case split_at c xs of [] \<Rightarrow> [[x]] | p # ps \<Rightarrow> (x # p) # ps)"

definition version_part :: "ustr \<Rightarrow> bool" where
  "version_part p \<longleftrightarrow> p \<noteq> [] \<and> (\<forall>c \<in> set p. is_digit c) \<and> (p = [48] \<or> hd p \<noteq> 48) \<and> digits_value p < 2 ^ 64"

datatype release_message =
    BadVersion | BadChecksum | NoPackageName | NegativeSize | BadSource | BadStorage
  | NoUnit | ChecksumDiffers | NoApplication | VersionExists | NoUnits | DuplicateChange
  | ForeignUnit | BadDesired | ActiveNeedsRelease | BadUnitRelease | UnitsUnresolved
  | DuplicateSelection | BadSelection | EnvironmentsUnresolved | BadBase | ManifestExists
  | NotSerializable

datatype release_error =
    ReleaseInvalid release_message | ReleaseConflict release_message
  | ReleaseNotFound release_message | ReleaseDatabase

definition validate_version :: "ustr \<Rightarrow> release_error + unit" where
  "validate_version version =
    (let parts = split_at 46 (trim version)
     in if length parts = 3 \<and> (\<forall>p \<in> set parts. version_part p) then Inr () else Inl (ReleaseInvalid BadVersion))"

definition is_hexdigit :: "nat \<Rightarrow> bool" where
  "is_hexdigit c \<longleftrightarrow> (48 \<le> c \<and> c \<le> 57) \<or> (65 \<le> c \<and> c \<le> 70) \<or> (97 \<le> c \<and> c \<le> 102)"

definition validate_checksum :: "ustr \<Rightarrow> release_error + unit" where
  "validate_checksum checksum =
    (if length (utf8 checksum) = 64 \<and> (\<forall>c \<in> set (utf8 checksum). is_hexdigit c) then Inr ()
     else Inl (ReleaseInvalid BadChecksum))"

section \<open>Registering a release of a unit\<close>

record unit_storage =
  us_provider :: ustr
  us_bucket :: ustr
  us_object_key :: ustr
  us_endpoint :: ustr
  us_object_version :: ustr
  us_integrity :: ustr

definition local_storage :: unit_storage where
  "local_storage = \<lparr> us_provider = lit ''local'', us_bucket = [], us_object_key = [], us_endpoint = [],
     us_object_version = [], us_integrity = lit ''local'' \<rparr>"

text \<open>\<open>ri_metadata\<close> is the JSON text of the metadata, which a JSON value always has.\<close>

record register_input =
  ri_unit :: int
  ri_version :: ustr
  ri_package_name :: ustr
  ri_package_path :: ustr
  ri_extract_dir :: ustr
  ri_checksum :: ustr
  ri_size :: int
  ri_published :: ustr
  ri_source :: ustr
  ri_metadata :: ustr
  ri_storage :: unit_storage

record unit_release_result =
  ux_release :: int
  ux_unit :: int
  ux_version :: ustr
  ux_code :: int
  ux_checksum :: ustr

definition storage_ok :: "unit_storage \<Rightarrow> bool" where
  "storage_ok st \<longleftrightarrow>
     us_provider st = lit ''local'' \<and> us_integrity st = lit ''local'' \<or>
     us_provider st = lit ''aliyun_oss'' \<and> us_integrity st \<in> {lit ''unique_key'', lit ''version_pinned''} \<and>
       trim (us_bucket st) \<noteq> [] \<and> trim (us_object_key st) \<noteq> []"

definition validate_unit_release_input :: "register_input \<Rightarrow> release_error + unit" where
  "validate_unit_release_input inp =
    (if trim (ri_package_name inp) = [] then Inl (ReleaseInvalid NoPackageName)
     else if ri_size inp < 0 then Inl (ReleaseInvalid NegativeSize)
     else if ri_source inp \<notin> {lit ''openapi'', lit ''web'', lit ''migration''} then Inl (ReleaseInvalid BadSource)
     else if storage_ok (ri_storage inp) then Inr () else Inl (ReleaseInvalid BadStorage))"

text \<open>The counter is made with 100 unless it is there, then its value is given out.\<close>

definition allocate_version_code :: "version_scope \<Rightarrow> int \<Rightarrow> store \<Rightarrow> int \<times> store" where
  "allocate_version_code kind scope s =
    (let mine = (\<lambda>c. vc_kind c = kind \<and> vc_scope c = scope);
         rows = (if \<exists>c \<in> set (counters s). mine c then counters s
                 else counters s @ [\<lparr> vc_kind = kind, vc_scope = scope, vc_next = 100 \<rparr>]);
         code = (case find mine rows of Some c \<Rightarrow> vc_next c | None \<Rightarrow> 0)
     in (code, s\<lparr>counters := modify mine (\<lambda>c. c\<lparr>vc_next := vc_next c + 1\<rparr>) rows\<rparr>))"

definition new_unit_release :: "register_input \<Rightarrow> int \<Rightarrow> int \<Rightarrow> unit_release_row" where
  "new_unit_release inp rid code =
    \<lparr> ur_id = rid, ur_unit = ri_unit inp, ur_version = ri_version inp, ur_code = code,
      ur_package_name = trim (ri_package_name inp), ur_package_path = trim (ri_package_path inp),
      ur_extract_dir = trim (ri_extract_dir inp), ur_source = trim (ri_source inp),
      ur_checksum = ri_checksum inp, ur_size = ri_size inp, ur_published = trim (ri_published inp),
      ur_metadata = ri_metadata inp, ur_provider = us_provider (ri_storage inp),
      ur_bucket = us_bucket (ri_storage inp), ur_object_key = us_object_key (ri_storage inp),
      ur_endpoint = us_endpoint (ri_storage inp), ur_object_version = us_object_version (ri_storage inp),
      ur_integrity = us_integrity (ri_storage inp), ur_artifact = ArtifactActive, ur_cleanup_error = [] \<rparr>"

type_synonym 'a release_op = "(store, release_error, 'a) operation"

definition register_tx :: "register_input \<Rightarrow> unit_release_result release_op" where
  "register_tx inp s =
    (if \<not> (\<exists>u \<in> set (units (core s)). unit_id u = ri_unit inp) then (Inl (ReleaseNotFound NoUnit), s)
     else case find (\<lambda>r. ur_unit r = ri_unit inp \<and> ur_version r = ri_version inp) (unit_releases (core s)) of
       Some r \<Rightarrow>
         if ur_checksum r \<noteq> ri_checksum inp then (Inl (ReleaseConflict ChecksumDiffers), s)
         else (Inr \<lparr> ux_release = ur_id r, ux_unit = ri_unit inp, ux_version = ri_version inp,
                    ux_code = ur_code r, ux_checksum = ur_checksum r \<rparr>, s)
     | None \<Rightarrow>
         let (code, s) = allocate_version_code UnitScope (ri_unit inp) s;
             rid = unit_release_seq s + 1;
             s = s\<lparr> core := (core s)\<lparr>unit_releases := unit_releases (core s) @ [new_unit_release inp rid code]\<rparr>,
                    unit_release_seq := rid \<rparr>
         in (Inr \<lparr> ux_release = rid, ux_unit = ri_unit inp, ux_version = ri_version inp,
                  ux_code = code, ux_checksum = ri_checksum inp \<rparr>, s))"

definition register_unit_release :: "register_input \<Rightarrow> unit_release_result release_op" where
  "register_unit_release inp s =
    (case validate_version (ri_version inp) of Inl e \<Rightarrow> (Inl e, s) | Inr u \<Rightarrow>
    (case validate_checksum (ri_checksum inp) of Inl e \<Rightarrow> (Inl e, s) | Inr u \<Rightarrow>
    (case validate_unit_release_input inp of Inl e \<Rightarrow> (Inl e, s) | Inr u \<Rightarrow>
       transaction (register_tx inp) s)))"

section \<open>Creating a release of an application\<close>

record unit_change =
  ch_unit :: int
  ch_release :: "int option"
  ch_desired :: ustr

definition active_change :: "int \<Rightarrow> int \<Rightarrow> unit_change" where
  "active_change unit release = \<lparr> ch_unit = unit, ch_release = Some release, ch_desired = lit ''active'' \<rparr>"

definition disabled_change :: "int \<Rightarrow> unit_change" where
  "disabled_change unit = \<lparr> ch_unit = unit, ch_release = None, ch_desired = lit ''disabled'' \<rparr>"

record create_release_input =
  cx_app :: int
  cx_version :: ustr
  cx_base :: "int option"
  cx_units :: "unit_change list"
  cx_environments :: "(int \<times> int) list"
  cx_created_by :: ustr

record manifest_unit =
  mu_unit :: int
  mu_release :: "int option"
  mu_desired :: ustr
  mu_stage :: int
  mu_order :: int
  mu_removal :: int
  mu_fingerprint :: ustr

record release_result =
  rx_release :: int
  rx_version :: ustr
  rx_code :: int
  rx_hash :: ustr
  rx_units :: "manifest_unit list"
  rx_environments :: "(int \<times> int) list"

text \<open>Code outside the repository: the digest, and \<open>serde_json\<close> on a manifest.\<close>

record release_crates =
  release_sha256 :: "nat list \<Rightarrow> ustr"
  manifest_document :: "manifest_unit list \<Rightarrow> (int \<times> int) list \<Rightarrow> nat list option"

record configured_unit =
  cu_unit :: int
  cu_stage :: "int option"
  cu_order :: "int option"
  cu_removal :: "int option"

text \<open>The two left joins: a unit that is linked to no stage has one row without a link.\<close>

definition unit_links :: "store \<Rightarrow> int \<Rightarrow> stage_link_row option list" where
  "unit_links s unit = (case filter (\<lambda>l. lk_unit l = unit) (stage_links s) of [] \<Rightarrow> [None] | ls \<Rightarrow> map Some ls)"

definition coalesce_max :: "int option \<Rightarrow> int" where
  "coalesce_max n = (case n of Some i \<Rightarrow> i | None \<Rightarrow> 2147483647)"

definition configured_units :: "store \<Rightarrow> int \<Rightarrow> configured_unit list" where
  "configured_units s app =
    sort_key (\<lambda>c. (coalesce_max (cu_stage c), coalesce_max (cu_order c), cu_unit c))
     [\<lparr> cu_unit = unit_id u,
        cu_stage = Option.bind l (\<lambda>l. map_option sg_no (find (\<lambda>g. sg_id g = lk_stage l) (stages s))),
        cu_order = map_option lk_order l, cu_removal = map_option lk_removal l \<rparr>.
      u \<leftarrow> units (core s), unit_app u = app, l \<leftarrow> unit_links s (unit_id u)]"

definition ensure_app_and_version_available :: "store \<Rightarrow> int \<Rightarrow> ustr \<Rightarrow> release_error + unit" where
  "ensure_app_and_version_available s app version =
    (if app \<notin> set (app_ids s) then Inl (ReleaseNotFound NoApplication)
     else if \<exists>r \<in> set (releases (core s)). rel_app r = app \<and> rel_version r = version
     then Inl (ReleaseConflict VersionExists) else Inr ())"

definition ensure_base_release :: "store \<Rightarrow> int \<Rightarrow> int \<Rightarrow> release_error + unit" where
  "ensure_base_release s app base =
    (if \<exists>r \<in> set (releases (core s)). \<exists>m \<in> set (manifests (core s)).
        man_release m = rel_id r \<and> rel_id r = base \<and> rel_app r = app \<and> man_status m = lit ''ready''
     then Inr () else Inl (ReleaseInvalid BadBase))"

definition manifest_unit_of :: "release_unit_row \<Rightarrow> manifest_unit" where
  "manifest_unit_of r = \<lparr> mu_unit = ru_unit r, mu_release = ru_unit_release r, mu_desired = ru_desired r,
     mu_stage = ru_stage r, mu_order = ru_order r, mu_removal = ru_removal r, mu_fingerprint = ru_fingerprint r \<rparr>"

definition load_manifest_units :: "store \<Rightarrow> int \<Rightarrow> (int \<times> manifest_unit) list" where
  "load_manifest_units s release =
    btree_of (map (\<lambda>r. (ru_unit r, manifest_unit_of r))
      (sort_key (\<lambda>r. (ru_stage r, ru_order r, ru_unit r))
        (filter (\<lambda>r. ru_release r = release) (release_units (core s)))))"

definition load_environment_configs :: "store \<Rightarrow> int \<Rightarrow> (int \<times> int) list" where
  "load_environment_configs s release =
    btree_of (map (\<lambda>r. (sel_env r, sel_config r))
      (sort_key sel_env (filter (\<lambda>r. sel_release r = release) (selections (core s)))))"

definition ensure_unit_release :: "store \<Rightarrow> int \<Rightarrow> int \<Rightarrow> release_error + unit" where
  "ensure_unit_release s unit release =
    (if \<exists>r \<in> set (unit_releases (core s)). ur_id r = release \<and> ur_unit r = unit \<and> ur_artifact r = ArtifactActive
     then Inr () else Inl (ReleaseInvalid BadUnitRelease))"

definition ensure_environment_config :: "store \<Rightarrow> int \<Rightarrow> int \<Rightarrow> int \<Rightarrow> release_error + unit" where
  "ensure_environment_config s app environment config =
    (if \<exists>e \<in> set (envs (core s)). \<exists>v \<in> set (revisions (core s)). rev_id v = config \<and> rev_app v = env_app e \<and>
        env_id e = environment \<and> env_app e = app \<and> env_status e \<noteq> lit ''disabled''
     then Inr () else Inl (ReleaseInvalid BadSelection))"

definition unit_target_fingerprint :: "release_crates \<Rightarrow> store \<Rightarrow> int option \<Rightarrow> ustr \<Rightarrow> release_error + ustr" where
  "unit_target_fingerprint C s release desired =
    (case release of
       None \<Rightarrow> Inr (release_sha256 C (utf8 (desired @ [58])))
     | Some rid \<Rightarrow> (case find (\<lambda>r. ur_id r = rid) (unit_releases (core s)) of
         None \<Rightarrow> Inl ReleaseDatabase
       | Some r \<Rightarrow> Inr (release_sha256 C (utf8 (desired @ [58] @ ur_checksum r)))))"

text \<open>One round of the loop over the changes, with the units that were already changed.\<close>

definition apply_change ::
  "release_crates \<Rightarrow> store \<Rightarrow> configured_unit list \<Rightarrow> unit_change \<Rightarrow> int list \<times> (int \<times> manifest_unit) list \<Rightarrow>
     release_error + int list \<times> (int \<times> manifest_unit) list"
where
  "apply_change C s configured change = (\<lambda>(changed, mus).
    if ch_unit change \<in> set changed then Inl (ReleaseInvalid DuplicateChange)
    else case find (\<lambda>c. cu_unit c = ch_unit change) configured of
      None \<Rightarrow> Inl (ReleaseInvalid ForeignUnit)
    | Some c \<Rightarrow>
      if ch_desired change \<noteq> lit ''active'' \<and> ch_desired change \<noteq> lit ''disabled''
      then Inl (ReleaseInvalid BadDesired)
      else case (if ch_desired change = lit ''active''
          then case ch_release change of
              None \<Rightarrow> Inl (ReleaseInvalid ActiveNeedsRelease)
            | Some rid \<Rightarrow> map_sum id (\<lambda>_. Some rid) (ensure_unit_release s (ch_unit change) rid)
          else Inr None) of
        Inl e \<Rightarrow> Inl e
      | Inr release \<Rightarrow>
        (case unit_target_fingerprint C s release (ch_desired change) of
           Inl e \<Rightarrow> Inl e
         | Inr fingerprint \<Rightarrow> Inr (ch_unit change # changed, btree_insert (ch_unit change)
             \<lparr> mu_unit = ch_unit change, mu_release = release, mu_desired = ch_desired change,
               mu_stage = (case cu_stage c of Some n \<Rightarrow> n | None \<Rightarrow> 1),
               mu_order = (case cu_order c of Some n \<Rightarrow> n | None \<Rightarrow> 1),
               mu_removal = (case cu_removal c of Some n \<Rightarrow> n | None \<Rightarrow> 1),
               mu_fingerprint = fingerprint \<rparr> mus)))"

fun apply_changes ::
  "release_crates \<Rightarrow> store \<Rightarrow> configured_unit list \<Rightarrow> unit_change list \<Rightarrow> int list \<times> (int \<times> manifest_unit) list \<Rightarrow>
     release_error + int list \<times> (int \<times> manifest_unit) list"
where
  "apply_changes C s configured [] acc = Inr acc"
| "apply_changes C s configured (change # changes) acc =
    (case apply_change C s configured change acc of
       Inl e \<Rightarrow> Inl e
     | Inr acc \<Rightarrow> apply_changes C s configured changes acc)"

fun apply_selections ::
  "store \<Rightarrow> int \<Rightarrow> (int \<times> int) list \<Rightarrow> int list \<times> (int \<times> int) list \<Rightarrow> release_error + int list \<times> (int \<times> int) list"
where
  "apply_selections s app [] acc = Inr acc"
| "apply_selections s app ((environment, config) # rest) (changed, configs) =
    (if environment \<in> set changed then Inl (ReleaseInvalid DuplicateSelection)
     else case ensure_environment_config s app environment config of
       Inl e \<Rightarrow> Inl e
     | Inr u \<Rightarrow> apply_selections s app rest (environment # changed, btree_insert environment config configs))"

definition enabled_environments :: "store \<Rightarrow> int \<Rightarrow> int set" where
  "enabled_environments s app =
     set (map env_id (filter (\<lambda>e. env_app e = app \<and> env_status e \<noteq> lit ''disabled'') (envs (core s))))"

text \<open>What the transaction decides before it writes: the units and the configurations.\<close>

definition resolve_release ::
  "release_crates \<Rightarrow> create_release_input \<Rightarrow> store \<Rightarrow> release_error + manifest_unit list \<times> (int \<times> int) list"
where
  "resolve_release C inp s =
    (case ensure_app_and_version_available s (cx_app inp) (cx_version inp) of Inl e \<Rightarrow> Inl e | Inr u \<Rightarrow>
     let configured = configured_units s (cx_app inp) in
     if configured = [] then Inl (ReleaseInvalid NoUnits)
     else case (case cx_base inp of None \<Rightarrow> Inr []
         | Some base \<Rightarrow> map_sum id (\<lambda>_. load_manifest_units s base) (ensure_base_release s (cx_app inp) base)) of
       Inl e \<Rightarrow> Inl e
     | Inr inherited \<Rightarrow>
    (case apply_changes C s configured (cx_units inp) ([], inherited) of Inl e \<Rightarrow> Inl e | Inr (changed, mus) \<Rightarrow>
     if set (map fst mus) \<noteq> set (map cu_unit configured) then Inl (ReleaseInvalid UnitsUnresolved)
     else
    (case apply_selections s (cx_app inp) (cx_environments inp)
        ([], case cx_base inp of None \<Rightarrow> [] | Some base \<Rightarrow> load_environment_configs s base) of
       Inl e \<Rightarrow> Inl e
     | Inr (changed, configs) \<Rightarrow>
       if set (map fst configs) \<noteq> enabled_environments s (cx_app inp) then Inl (ReleaseInvalid EnvironmentsUnresolved)
       else Inr (map snd mus, configs))))"

definition release_unit_of :: "int \<Rightarrow> manifest_unit \<Rightarrow> release_unit_row" where
  "release_unit_of rid u = \<lparr> ru_release = rid, ru_unit = mu_unit u, ru_unit_release = mu_release u,
     ru_desired = mu_desired u, ru_stage = mu_stage u, ru_order = mu_order u, ru_removal = mu_removal u,
     ru_fingerprint = mu_fingerprint u \<rparr>"

definition insert_release ::
  "create_release_input \<Rightarrow> manifest_unit list \<Rightarrow> (int \<times> int) list \<Rightarrow> nat list \<Rightarrow> ustr \<Rightarrow> store \<Rightarrow> release_result \<times> store"
where
  "insert_release inp mus configs json hash s =
    (let (code, s) = allocate_version_code AppScope (cx_app inp) s;
         rid = release_seq s + 1; d = core s;
         row = \<lparr> rel_id = rid, rel_app = cx_app inp, rel_version = cx_version inp, rel_code = code,
           rel_status = lit ''received'', rel_source = lit ''openapi'', rel_checksum = hash,
           rel_metadata = [123, 34] @ lit ''kind'' @ [34, 58, 34] @ lit ''application_manifest'' @ [34, 125] \<rparr>;
         manifest = \<lparr> man_release = rid, man_status = lit ''ready'', man_base = cx_base inp, man_hash = hash,
           man_json = json, man_created_by = trim (cx_created_by inp), man_archived = None \<rparr>
     in (\<lparr> rx_release = rid, rx_version = cx_version inp, rx_code = code, rx_hash = hash,
           rx_units = mus, rx_environments = configs \<rparr>,
         s\<lparr> release_seq := rid,
            core := d\<lparr> releases := releases d @ [row], manifests := manifests d @ [manifest],
              release_units := release_units d @ map (release_unit_of rid) mus,
              selections := selections d @ map (\<lambda>(environment, config).
                \<lparr> sel_release = rid, sel_env = environment, sel_config = config \<rparr>) configs \<rparr> \<rparr>))"

definition create_release_tx :: "release_crates \<Rightarrow> create_release_input \<Rightarrow> release_result release_op" where
  "create_release_tx C inp s =
    (case resolve_release C inp s of
       Inl e \<Rightarrow> (Inl e, s)
     | Inr (mus, configs) \<Rightarrow>
       (case manifest_document C mus configs of
          None \<Rightarrow> (Inl (ReleaseInvalid NotSerializable), s)
        | Some json \<Rightarrow>
          let hash = release_sha256 C json in
          if \<exists>m \<in> set (manifests (core s)). man_hash m = hash then (Inl (ReleaseConflict ManifestExists), s)
          else let (result, s) = insert_release inp mus configs json hash s in (Inr result, s)))"

definition create_application_release :: "release_crates \<Rightarrow> create_release_input \<Rightarrow> release_result release_op" where
  "create_application_release C inp s =
    (case validate_version (cx_version inp) of
       Inl e \<Rightarrow> (Inl e, s)
     | Inr u \<Rightarrow> transaction (create_release_tx C inp) s)"

end
