(* ===== verification/Retention.thy ===== *)
theory Retention
  imports Releases
begin

text \<open>
The retention service (\<open>DeploymentRetentionService\<close> of \<open>api/src/deployment_retention.rs\<close>):
  previews with their blockers, archiving and deleting releases, deleting histories and snapshots,
  and cleaning up artifacts in two transactions around the deletion itself.
\<close>

section \<open>Previews of what may be cleaned up\<close>

type_synonym 'a retention_op = "(store, retention_error, 'a) operation"

record artifact_preview =
  ap_release :: int
  ap_version :: ustr
  ap_size :: nat
  ap_status :: artifact_status
  ap_blockers :: "blocker list"

definition artifact_allowed :: "artifact_preview \<Rightarrow> bool" where
  "artifact_allowed p \<longleftrightarrow> ap_blockers p = [] \<and>
     ap_status p \<in> {ArtifactActive, ArtifactDeleteFailed, ArtifactDeleting}"

definition block :: "(nat \<Rightarrow> blocker) \<Rightarrow> nat \<Rightarrow> blocker list" where
  "block b n = (if 0 < n then [b n] else [])"

text \<open>\<open>SELECT COUNT(*) ... JOIN application_release_manifests\<close>: the live releases that use it.\<close>

definition release_references :: "db \<Rightarrow> int \<Rightarrow> nat" where
  "release_references d unit_release = length [(u, m).
     u \<leftarrow> release_units d, ru_unit_release u = Some unit_release,
     m \<leftarrow> manifests d, man_release m = ru_release u \<and> man_status m \<noteq> lit ''deleted'']"

definition snapshot_references :: "db \<Rightarrow> int \<Rightarrow> nat" where
  "snapshot_references d unit_release = length [(x, r).
     x \<leftarrow> results d, res_release x = Some unit_release,
     r \<leftarrow> runs d, run_id r = res_run x \<and> run_snapshot r = SnapshotActive]"

definition artifact_cleanup_preview :: "store \<Rightarrow> int \<Rightarrow> retention_error + artifact_preview" where
  "artifact_cleanup_preview s unit_release =
    (let d = core s in
     case find (\<lambda>r. ur_id r = unit_release) (unit_releases d) of
       None \<Rightarrow> Inl (RetentionNotFound NoArtifact)
     | Some r \<Rightarrow> Inr \<lparr> ap_release = unit_release, ap_version = ur_version r, ap_size = nat (ur_size r),
         ap_status = ur_artifact r,
         ap_blockers = block UsedByReleases (release_references d unit_release) @
           block UsedByRuntimes (affected (\<lambda>t. rt_release t = Some unit_release) (runtimes d)) @
           block UsedBySnapshots (snapshot_references d unit_release) \<rparr>)"

record release_preview =
  rp_release :: int
  rp_version :: ustr
  rp_code :: int
  rp_status :: ustr
  rp_bytes :: nat
  rp_archive_blockers :: "blocker list"
  rp_blockers :: "blocker list"

definition can_archive :: "release_preview \<Rightarrow> bool" where
  "can_archive p \<longleftrightarrow> rp_status p = lit ''ready'' \<and> rp_archive_blockers p = []"

definition can_delete :: "release_preview \<Rightarrow> bool" where
  "can_delete p \<longleftrightarrow> rp_status p = lit ''archived'' \<and> rp_blockers p = []"

definition active_queue :: "queue_status \<Rightarrow> bool" where
  "active_queue q \<longleftrightarrow> q \<in> {QueueScheduled, QueueQueued, QueueRunning}"

definition application_release_cleanup_preview :: "store \<Rightarrow> int \<Rightarrow> int \<Rightarrow> retention_error + release_preview" where
  "application_release_cleanup_preview s app release =
    (let d = core s in
     case [(r, m). r \<leftarrow> releases d, rel_id r = release \<and> rel_app r = app,
             m \<leftarrow> manifests d, man_release m = rel_id r \<and> man_status m \<noteq> lit ''deleted''] of
       [] \<Rightarrow> Inl (RetentionNotFound NoRelease)
     | (r, m) # _ \<Rightarrow>
         let current = block CurrentInEnvironments (affected (\<lambda>e. env_current_release e = Some release) (envs d))
         in Inr \<lparr> rp_release = release, rp_version = rel_version r, rp_code = rel_code r,
           rp_status = man_status m, rp_bytes = length (man_json m) + length (utf8 (rel_metadata r)),
           rp_archive_blockers = current @
             block UsedByActiveRuns (affected (\<lambda>r. run_release r = release \<and> active_run (run_status r)) (runs d)) @
             block InActiveQueue (affected (\<lambda>q. qu_release q = release \<and> active_queue (qu_status q)) (queue s)),
           rp_blockers = current @
             block UsedByRunHistory (affected (\<lambda>r. run_release r = release) (runs d)) @
             block InQueueHistory (affected (\<lambda>q. qu_release q = release) (queue s)) @
             block InTaskHistory (affected (\<lambda>t. task_release t = Some release) (tasks d)) @
             block InLegacyHistory (affected (\<lambda>l. l = Some release) (legacy_runs s)) @
             block BaseOfReleases (affected (\<lambda>m. man_base m = Some release \<and> man_status m \<noteq> lit ''deleted'') (manifests d)) \<rparr>)"

record history_preview =
  hp_run :: int
  hp_release :: int
  hp_task :: "int option"
  hp_status :: run_status
  hp_snapshot :: snapshot_status
  hp_logs :: nat
  hp_results :: nat
  hp_queue :: nat
  hp_blockers :: "blocker list"

definition deployment_history_delete_preview :: "store \<Rightarrow> int \<Rightarrow> int \<Rightarrow> retention_error + history_preview" where
  "deployment_history_delete_preview s app rid =
    (let d = core s in
     case find (\<lambda>r. run_id r = rid \<and> run_app r = app) (runs d) of
       None \<Rightarrow> Inl (RetentionNotFound NoHistory)
     | Some r \<Rightarrow>
         let (log_refs, queue_refs) = (case run_task r of
               None \<Rightarrow> (0, 0)
             | Some task \<Rightarrow>
                 (affected (\<lambda>b. bf_task b = task) (log_buffers s) + affected (\<lambda>b. bg_task b = task) (log_budgets s) +
                    affected (\<lambda>l. log_task l = task) (logs d),
                  affected (\<lambda>q. qu_task q = Some task \<and> qu_release q = run_release r \<and> active_queue (qu_status q)) (queue s)))
         in Inr \<lparr> hp_run = rid, hp_release = run_release r, hp_task = run_task r, hp_status = run_status r,
           hp_snapshot = run_snapshot r, hp_logs = log_refs,
           hp_results = affected (\<lambda>x. res_run x = rid) (results d), hp_queue = queue_refs,
           hp_blockers = (if active_run (run_status r) then [RunStillActive (run_status r)] else []) @
             (if run_snapshot r \<noteq> SnapshotDeleted then [SnapshotKept] else []) @
             (if 0 < log_refs then [LogsKept] else []) @
             (if 0 < queue_refs then [QueueStillActive] else []) \<rparr>)"

section \<open>Cleaning up\<close>

definition insert_cleanup_event ::
  "ustr \<Rightarrow> int \<Rightarrow> ustr \<Rightarrow> cleanup_message \<Rightarrow> ustr \<Rightarrow> cleanup_message \<Rightarrow> store \<Rightarrow> store"
where
  "insert_cleanup_event target target_id level title operator detail s = s\<lparr>events := events s @
     [\<lparr> ce_level = level, ce_target = target, ce_target_id = target_id, ce_title = title,
        ce_operator = trim operator, ce_detail = detail \<rparr>]\<rparr>"

record history_result =
  hx_run :: int
  hx_release :: int
  hx_task :: "int option"
  hx_results :: nat
  hx_queue :: nat
  hx_cleared :: bool

text \<open>The rows that depend on a run go with it; a runtime state forgets it.\<close>

definition delete_run :: "int \<Rightarrow> int \<Rightarrow> db \<Rightarrow> db" where
  "delete_run app rid d = d\<lparr> runs := filter (\<lambda>r. \<not> (run_id r = rid \<and> run_app r = app)) (runs d),
     results := filter (\<lambda>x. res_run x \<noteq> rid) (results d),
     runtimes := modify (\<lambda>t. rt_last_run t = Some rid) (\<lambda>t. t\<lparr>rt_last_run := None\<rparr>) (runtimes d) \<rparr>"

definition delete_history_tx :: "int \<Rightarrow> int \<Rightarrow> ustr \<Rightarrow> history_result retention_op" where
  "delete_history_tx app rid operator s =
    (case deployment_history_delete_preview s app rid of
       Inl e \<Rightarrow> (Inl e, s)
     | Inr p \<Rightarrow>
       if hp_blockers p \<noteq> [] then (Inl (RetentionState (HistoryBlocked (hp_blockers p))), s)
       else
         let old = (\<lambda>q. qu_task q = hp_task p \<and> qu_task q \<noteq> None \<and> qu_release q = hp_release p \<and> \<not> active_queue (qu_status q));
             refers = (\<lambda>t. Some (task_id t) = hp_task p \<and> task_release t = Some (hp_release p));
             gone = affected old (queue s);
             cleared = (0 < affected refers (tasks (core s)));
             s = s\<lparr> queue := filter (\<lambda>q. \<not> old q) (queue s),
                    core := update_tasks refers (\<lambda>t. t\<lparr>task_release := None\<rparr>) (core s) \<rparr>;
             s = insert_cleanup_event (lit ''environment_deployment_run'') rid (lit ''warning'') HistoryDeleted operator
                   (HistoryDetail (int (hp_results p)) (hp_release p) cleared gone) s;
             deleted = affected (\<lambda>r. run_id r = rid \<and> run_app r = app) (runs (core s))
         in if deleted \<noteq> 1 then (Inl (RetentionNotFound NoHistory), s)
            else (Inr \<lparr> hx_run = rid, hx_release = hp_release p, hx_task = hp_task p,
                    hx_results = hp_results p, hx_queue = gone, hx_cleared = cleared \<rparr>,
                  s\<lparr>core := delete_run app rid (core s)\<rparr>))"

definition delete_deployment_history :: "int \<Rightarrow> int \<Rightarrow> ustr \<Rightarrow> history_result retention_op" where
  "delete_deployment_history app rid operator = transaction (delete_history_tx app rid operator)"

definition archive_tx :: "time \<Rightarrow> int \<Rightarrow> int \<Rightarrow> ustr \<Rightarrow> release_preview retention_op" where
  "archive_tx now app release operator s =
    (case application_release_cleanup_preview s app release of
       Inl e \<Rightarrow> (Inl e, s)
     | Inr p \<Rightarrow>
       if \<not> can_archive p then (Inl (RetentionState (ArchiveBlocked (rp_status p) (rp_archive_blockers p))), s)
       else
         let s = s\<lparr>core := (core s)\<lparr>manifests := modify
               (\<lambda>m. man_release m = release \<and> man_status m = lit ''ready'')
               (\<lambda>m. m\<lparr>man_status := lit ''archived'', man_archived := Some now\<rparr>) (manifests (core s))\<rparr>\<rparr>;
             s = insert_cleanup_event (lit ''application_release'') release (lit ''info'') ReleaseArchived operator
                   (ReleaseDetail (rp_version p) (rp_code p)) s
         in (application_release_cleanup_preview s app release, s))"

definition archive_application_release :: "time \<Rightarrow> int \<Rightarrow> int \<Rightarrow> ustr \<Rightarrow> release_preview retention_op" where
  "archive_application_release now app release operator = transaction (archive_tx now app release operator)"

text \<open>The rows that depend on a release go with it.\<close>

definition drop_release :: "int \<Rightarrow> int \<Rightarrow> store \<Rightarrow> store" where
  "drop_release app release s = s\<lparr>
     core := (core s)\<lparr> releases := filter (\<lambda>r. \<not> (rel_id r = release \<and> rel_app r = app)) (releases (core s)),
       manifests := filter (\<lambda>m. man_release m \<noteq> release) (manifests (core s)),
       release_units := filter (\<lambda>u. ru_release u \<noteq> release) (release_units (core s)),
       selections := filter (\<lambda>x. sel_release x \<noteq> release) (selections (core s)) \<rparr>,
     queue := filter (\<lambda>q. qu_release q \<noteq> release) (queue s) \<rparr>"

definition delete_release_tx :: "int \<Rightarrow> int \<Rightarrow> ustr \<Rightarrow> nat retention_op" where
  "delete_release_tx app release operator s =
    (case application_release_cleanup_preview s app release of
       Inl e \<Rightarrow> (Inl e, s)
     | Inr p \<Rightarrow>
       if \<not> can_delete p then (Inl (RetentionState (DeleteBlocked (rp_status p) (rp_blockers p))), s)
       else
         let s = insert_cleanup_event (lit ''application_release'') release (lit ''info'') ReleaseDeleted operator
                   (ReleaseDetail (rp_version p) (rp_code p)) s
         in if affected (\<lambda>r. rel_id r = release \<and> rel_app r = app) (releases (core s)) \<noteq> 1
            then (Inl (RetentionNotFound NoRelease), s)
            else (Inr (rp_bytes p), drop_release app release s))"

definition delete_application_release :: "int \<Rightarrow> int \<Rightarrow> ustr \<Rightarrow> nat retention_op" where
  "delete_application_release app release operator = transaction (delete_release_tx app release operator)"

section \<open>Cleaning up an artifact\<close>

record deletion_target =
  dt_provider :: ustr
  dt_package_path :: ustr
  dt_extract_dir :: ustr
  dt_bucket :: ustr
  dt_endpoint :: ustr
  dt_object_key :: ustr
  dt_object_version :: ustr

definition target_of :: "unit_release_row \<Rightarrow> deletion_target" where
  "target_of r = \<lparr> dt_provider = ur_provider r, dt_package_path = ur_package_path r,
     dt_extract_dir = ur_extract_dir r, dt_bucket = ur_bucket r, dt_endpoint = ur_endpoint r,
     dt_object_key = ur_object_key r, dt_object_version = ur_object_version r \<rparr>"

definition update_unit_release :: "(unit_release_row \<Rightarrow> bool) \<Rightarrow> (unit_release_row \<Rightarrow> unit_release_row) \<Rightarrow> store \<Rightarrow> store" where
  "update_unit_release p f s = s\<lparr>core := (core s)\<lparr>unit_releases := modify p f (unit_releases (core s))\<rparr>\<rparr>"

text \<open>The first transaction: claim the artifact and read where it is.\<close>

definition begin_cleanup :: "int \<Rightarrow> ustr \<Rightarrow> deletion_target retention_op" where
  "begin_cleanup unit_release operator s =
    (case artifact_cleanup_preview s unit_release of
       Inl e \<Rightarrow> (Inl e, s)
     | Inr p \<Rightarrow>
       if \<not> artifact_allowed p then (Inl (RetentionState (CleanupBlocked (ap_status p) (ap_blockers p))), s)
       else case find (\<lambda>r. ur_id r = unit_release) (unit_releases (core s)) of
         None \<Rightarrow> (Inl (RetentionNotFound NoArtifact), s)
       | Some r \<Rightarrow>
         (Inr (target_of r),
          insert_cleanup_event (lit ''deployment_artifact'') unit_release (lit ''info'') ArtifactCleanupStarted operator
            (CleanupText []) (update_unit_release (\<lambda>r. ur_id r = unit_release)
              (\<lambda>r. r\<lparr>ur_artifact := ArtifactDeleting, ur_cleanup_error := []\<rparr>) s)))"

record cleanup_result =
  cl_release :: int
  cl_status :: artifact_status
  cl_error :: ustr

definition truncate_cleanup_error :: "ustr \<Rightarrow> ustr" where
  "truncate_cleanup_error e = take 1000 e"

text \<open>The second transaction, after the store of the artifact has answered (\<open>None\<close> is success).\<close>

definition end_cleanup :: "int \<Rightarrow> ustr \<Rightarrow> ustr option \<Rightarrow> store \<Rightarrow> cleanup_result \<times> store" where
  "end_cleanup unit_release operator answer s =
    (let claimed = (\<lambda>r. ur_id r = unit_release \<and> ur_artifact r = ArtifactDeleting) in
     case answer of
       None \<Rightarrow> (\<lparr> cl_release = unit_release, cl_status = ArtifactDeleted, cl_error = [] \<rparr>,
         insert_cleanup_event (lit ''deployment_artifact'') unit_release (lit ''info'') ArtifactCleanupEnded operator
           (CleanupText []) (update_unit_release claimed
             (\<lambda>r. r\<lparr> ur_artifact := ArtifactDeleted, ur_cleanup_error := [], ur_package_path := [],
                ur_extract_dir := [], ur_bucket := [], ur_object_key := [], ur_endpoint := [],
                ur_object_version := [] \<rparr>) s))
     | Some text \<Rightarrow>
         let e = truncate_cleanup_error text
         in (\<lparr> cl_release = unit_release, cl_status = ArtifactDeleteFailed, cl_error = e \<rparr>,
             insert_cleanup_event (lit ''deployment_artifact'') unit_release (lit ''error'') ArtifactCleanupFailed operator
               (CleanupText e) (update_unit_release claimed
                 (\<lambda>r. r\<lparr>ur_artifact := ArtifactDeleteFailed, ur_cleanup_error := e\<rparr>) s)))"

text \<open>\<open>deleter\<close> is what the file system or the object store answers.\<close>

definition cleanup_artifact :: "(deletion_target \<Rightarrow> ustr option) \<Rightarrow> int \<Rightarrow> ustr \<Rightarrow> cleanup_result retention_op" where
  "cleanup_artifact deleter unit_release operator s =
    (case begin_cleanup unit_release operator s of
       (Inl e, s) \<Rightarrow> (Inl e, s)
     | (Inr target, s) \<Rightarrow>
         let (result, s) = end_cleanup unit_release operator (deleter target) s in (Inr result, s))"

fun cleanup_all :: "(deletion_target \<Rightarrow> ustr option) \<Rightarrow> ustr \<Rightarrow> int list \<Rightarrow> cleanup_result list retention_op" where
  "cleanup_all deleter operator [] s = (Inr [], s)"
| "cleanup_all deleter operator (i # is) s =
    (case cleanup_artifact deleter i operator s of
       (Inl e, s) \<Rightarrow> (Inl e, s)
     | (Inr r, s) \<Rightarrow> (case cleanup_all deleter operator is s of
         (Inl e, s) \<Rightarrow> (Inl e, s)
       | (Inr rs, s) \<Rightarrow> (Inr (r # rs), s)))"

definition recover_deleting_artifacts :: "(deletion_target \<Rightarrow> ustr option) \<Rightarrow> ustr \<Rightarrow> cleanup_result list retention_op" where
  "recover_deleting_artifacts deleter operator s =
     cleanup_all deleter operator
       (sort (map ur_id (filter (\<lambda>r. ur_artifact r = ArtifactDeleting) (unit_releases (core s))))) s"

text \<open>
  \<open>ArtifactStorageDeleter\<close>: what it asks of the data directory and of the object store. The
  error texts are kept as the message of the source they stand for.
\<close>

definition delete_object ::
  "(ustr list \<Rightarrow> ustr option) \<Rightarrow> (ustr \<Rightarrow> ustr option \<Rightarrow> ustr \<Rightarrow> ustr \<Rightarrow> ustr option) \<Rightarrow>
     ustr \<Rightarrow> ustr \<Rightarrow> deletion_target \<Rightarrow> ustr option"
where
  "delete_object local_paths oss no_version unsupported t =
    (if dt_provider t = lit ''local'' then local_paths [dt_package_path t, dt_extract_dir t]
     else if dt_provider t = lit ''aliyun_oss'' then
       if trim (dt_object_version t) = [] then Some no_version
       else oss (trim (dt_bucket t)) (if trim (dt_endpoint t) = [] then None else Some (trim (dt_endpoint t)))
              (dt_object_key t) (trim (dt_object_version t))
     else Some (unsupported @ dt_provider t))"

section \<open>Cleaning up a snapshot\<close>

definition delete_snapshot_tx :: "time \<Rightarrow> int \<Rightarrow> ustr \<Rightarrow> nat retention_op" where
  "delete_snapshot_tx now rid operator s =
    (case find (\<lambda>r. run_id r = rid \<and> run_snapshot r = SnapshotActive) (runs (core s)) of
       None \<Rightarrow> (Inl (RetentionNotFound NoSnapshot), s)
     | Some r \<Rightarrow>
       if active_run (run_status r) then (Inl (RetentionState RunInUse), s)
       else
         let d = update_results (\<lambda>x. res_run x = rid) (\<lambda>x. x\<lparr>res_release := None\<rparr>) (core s);
             d = update_runs (\<lambda>r. run_id r = rid) (\<lambda>r. r\<lparr> run_plan_json := [123, 125], run_plan_hash := [],
                   run_snapshot := SnapshotDeleted, run_snapshot_deleted := Some now \<rparr>) d
         in (Inr (length (utf8 (run_plan_json r))),
             insert_cleanup_event (lit ''environment_deployment_run'') rid (lit ''info'') SnapshotCleared operator
               ResultsKept (s\<lparr>core := d\<rparr>)))"

definition delete_deployment_snapshot :: "time \<Rightarrow> int \<Rightarrow> ustr \<Rightarrow> nat retention_op" where
  "delete_deployment_snapshot now rid operator = transaction (delete_snapshot_tx now rid operator)"

end
