(* ===== verification/Artifact_Uses.thy ===== *)
theory Artifact_Uses
  imports Retention Lifecycle
begin

text \<open>
What the orchestrator leaves alone of releases and runs, which artifacts are needed, and the
  steps of the store: operations of the release and retention services and of the orchestrator.
\<close>

section \<open>What the orchestrator leaves alone\<close>

text \<open>
  Every operation of the orchestrator but creating a run and storing the outcome of a unit
  leaves the tables of releases alone, and of runs and their results it changes neither which
  there are nor the snapshot and the releases they name.
\<close>

definition releases_same :: "db \<Rightarrow> db \<Rightarrow> bool" where
  "releases_same d d' \<longleftrightarrow> unit_releases d' = unit_releases d \<and> manifests d' = manifests d \<and>
     release_units d' = release_units d"

definition snapshots :: "db \<Rightarrow> (int \<times> snapshot_status) list" where
  "snapshots d = map (\<lambda>r. (run_id r, run_snapshot r)) (runs d)"

definition results_named :: "db \<Rightarrow> (int \<times> int option) list" where
  "results_named d = map (\<lambda>x. (res_run x, res_release x)) (results d)"

definition runs_same :: "db \<Rightarrow> db \<Rightarrow> bool" where
  "runs_same d d' \<longleftrightarrow> releases_same d d' \<and> run_seq d' = run_seq d \<and>
     snapshots d' = snapshots d \<and> results_named d' = results_named d"

definition same_apart :: "db \<Rightarrow> db \<Rightarrow> bool" where
  "same_apart d d' \<longleftrightarrow> runs_same d d' \<and> runtimes d' = runtimes d"

lemma release_tables_update [simp]:
  "unit_releases (update_runs p f d) = unit_releases d" "manifests (update_runs p f d) = manifests d"
  "release_units (update_runs p f d) = release_units d"
  "unit_releases (update_results p1 f1 d) = unit_releases d" "manifests (update_results p1 f1 d) = manifests d"
  "release_units (update_results p1 f1 d) = release_units d"
  "unit_releases (update_tasks p2 f2 d) = unit_releases d" "manifests (update_tasks p2 f2 d) = manifests d"
  "release_units (update_tasks p2 f2 d) = release_units d"
  "unit_releases (update_phases p3 f3 d) = unit_releases d" "manifests (update_phases p3 f3 d) = manifests d"
  "release_units (update_phases p3 f3 d) = release_units d"
  "unit_releases (update_steps p4 f4 d) = unit_releases d" "manifests (update_steps p4 f4 d) = manifests d"
  "release_units (update_steps p4 f4 d) = release_units d"
  "unit_releases (update_envs p5 f5 d) = unit_releases d" "manifests (update_envs p5 f5 d) = manifests d"
  "release_units (update_envs p5 f5 d) = release_units d"
  "unit_releases (append_log t s st c d) = unit_releases d" "manifests (append_log t s st c d) = manifests d"
  "release_units (append_log t s st c d) = release_units d"
  "unit_releases (upsert_runtime r d) = unit_releases d" "manifests (upsert_runtime r d) = manifests d"
  "release_units (upsert_runtime r d) = release_units d"
  "unit_releases (snd (insert_phase d ph)) = unit_releases d" "manifests (snd (insert_phase d ph)) = manifests d"
  "release_units (snd (insert_phase d ph)) = release_units d"
  "unit_releases (snd (insert_step d st')) = unit_releases d" "manifests (snd (insert_step d st')) = manifests d"
  "release_units (snd (insert_step d st')) = release_units d"
  by (simp_all add: update_runs_def update_results_def update_tasks_def update_phases_def update_steps_def
      update_envs_def append_log_def upsert_runtime_def insert_phase_def insert_step_def)

lemma same_apart_refl [simp, intro]: "same_apart d d"
  by (simp add: same_apart_def runs_same_def releases_same_def)

lemma same_apart_trans: "same_apart d1 d2 \<Longrightarrow> same_apart d2 d3 \<Longrightarrow> same_apart d1 d3"
  by (simp add: same_apart_def runs_same_def releases_same_def)

lemma same_apart_runs:
  assumes "same_apart d0 d" and "\<And>r. p r \<Longrightarrow> run_id (f r) = run_id r \<and> run_snapshot (f r) = run_snapshot r"
  shows "same_apart d0 (update_runs p f d)"
proof -
  have "map (\<lambda>r. (run_id r, run_snapshot r)) (modify p f (runs d)) = map (\<lambda>r. (run_id r, run_snapshot r)) (runs d)"
    by (rule map_modify) (simp add: assms(2))
  then show ?thesis using assms(1)
    by (simp add: same_apart_def runs_same_def releases_same_def snapshots_def results_named_def)
qed

lemma same_apart_results:
  assumes "same_apart d0 d" and "\<And>x. p x \<Longrightarrow> res_run (f x) = res_run x \<and> res_release (f x) = res_release x"
  shows "same_apart d0 (update_results p f d)"
proof -
  have "map (\<lambda>x. (res_run x, res_release x)) (modify p f (results d)) = map (\<lambda>x. (res_run x, res_release x)) (results d)"
    by (rule map_modify) (simp add: assms(2))
  then show ?thesis using assms(1)
    by (simp add: same_apart_def runs_same_def releases_same_def snapshots_def results_named_def)
qed

lemma same_apart_others:
  assumes "same_apart d0 d"
  shows "same_apart d0 (update_tasks p2 f2 d)" "same_apart d0 (update_phases p3 f3 d)"
    "same_apart d0 (update_steps p4 f4 d)" "same_apart d0 (update_envs p5 f5 d)"
    "same_apart d0 (append_log t s st c d)" "same_apart d0 (snd (insert_step d row))"
  using assms by (simp_all add: same_apart_def runs_same_def releases_same_def snapshots_def results_named_def insert_step_def)

lemmas apart_rules = same_apart_runs same_apart_results same_apart_others same_apart_refl

lemma same_apart_transaction: "same_apart d (snd (m d)) \<Longrightarrow> same_apart d (snd (transaction m d))"
  using transaction_snd [of m d] by auto

lemma same_apart_foldl: "(\<And>d i. same_apart d (f d i)) \<Longrightarrow> same_apart d (foldl f d is)"
  by (induction "is" arbitrary: d) (auto intro: same_apart_trans)

lemma apart_claim: "same_apart d (snd (claim_deployment_run now rid d))"
  unfolding claim_deployment_run_def
  by (rule same_apart_transaction)
    (auto simp: claim_tx_def Let_def split: list.split prod.split intro!: apart_rules)

lemma apart_cancel: "same_apart d (snd (request_cancellation now rid actor d))"
proof -
  have "same_apart d (snd (request_cancellation_tx now rid actor d))" for actor
    by (auto simp: request_cancellation_tx_def cancel_queued_run_def close_pending_def skip_open_phases_def
        Let_def split: option.split intro!: apart_rules)
  then show ?thesis by (simp add: request_cancellation_def Let_def same_apart_transaction)
qed

lemma apart_start_unit: "same_apart d (snd (start_unit_result now rid task item d))"
  unfolding start_unit_result_def
  by (rule same_apart_transaction)
    (auto simp: start_unit_tx_def Let_def case_prod_beta intro!: apart_rules)

lemma apart_close: "same_apart d (close_pending now rid kind summary d)"
  by (auto simp: close_pending_def intro!: apart_rules)

lemma apart_finalize: "same_apart d (snd (finalize_deployment_run now rid plan canceled d))"
  by (auto simp: finalize_deployment_run_def Let_def split: option.split prod.split intro!: apart_rules)

lemma apart_reconcile: "same_apart d (snd (reconcile_interrupted_runs now d))"
proof -
  have "same_apart e (cancel_run_after_restart now e i)" for e i
    by (auto simp: cancel_run_after_restart_def close_pending_def Let_def intro!: apart_rules)
  moreover have "same_apart e (interrupt_run_after_restart now e i)" for e i
    by (auto simp: interrupt_run_after_restart_def close_open_units_def fail_running_steps_def
        close_open_phases_def Let_def intro!: apart_rules)
  ultimately show ?thesis
    by (simp add: reconcile_interrupted_runs_def Let_def)
      (rule same_apart_trans; rule same_apart_foldl; assumption)
qed

lemma apart_confirm: "same_apart d (snd (confirm_interrupted_run_stopped now rid actor why d))"
proof -
  have "same_apart d (snd (confirm_tx now rid actor why d))" for actor why
    by (auto simp: confirm_tx_def Let_def split: option.split prod.split intro!: apart_rules)
  then show ?thesis by (simp add: confirm_interrupted_run_stopped_def Let_def same_apart_transaction)
qed

lemma apart_fail: "same_apart d (snd (fail_run_on_internal_error now rid message d))"
  unfolding fail_run_on_internal_error_def
  by (rule same_apart_transaction)
    (auto simp: fail_run_tx_def close_open_units_def fail_running_steps_def close_open_phases_def
      Let_def split: option.split prod.split intro!: apart_rules)

lemma upserts_same: "runs_same d (upsert_runtimes rows d)"
proof (induction rows arbitrary: d)
  case (Cons r rows)
  then show ?case using Cons.IH [of "upsert_runtime r d"]
    by (simp add: runs_same_def releases_same_def snapshots_def results_named_def)
qed (simp add: runs_same_def releases_same_def)

lemma upserts_in: "t \<in> set (runtimes (upsert_runtimes rows d)) \<Longrightarrow> t \<in> set (runtimes d) \<or> t \<in> set rows"
proof (induction rows arbitrary: d)
  case (Cons r rows)
  then have "t \<in> set (runtimes (upsert_runtime r d)) \<or> t \<in> set rows" by simp
  then show ?case by (auto simp: upsert_runtime_def set_modify split: if_splits)
qed simp

lemma persist_frame:
  assumes "d' = persist_unit_outcome now rid task sid environment nodes item oc d"
  shows "runs_same d d'"
    and "t \<in> set (runtimes d') \<Longrightarrow> t \<in> set (runtimes d) \<or> rt_release t = None \<or> rt_release t = item_release_id item"
proof -
  obtain status kind summary code sstatus where o: "outcome_row oc = (status, kind, summary, code, sstatus)"
    by (cases "outcome_row oc")
  define d3 where "d3 = append_log task (Some sid) (lit ''system'') (Told summary)
    (update_steps (\<lambda>s. step_id s = sid \<and> step_task s = task)
      (\<lambda>s. s\<lparr>step_status := sstatus, step_exit_code := code, step_finished := Some now\<rparr>)
      (update_results (\<lambda>r. res_run r = rid \<and> res_unit r = item_unit_id item \<and> res_status r = UnitRunning)
         (\<lambda>r. r\<lparr>res_status := status, res_failure_kind := kind, res_failure_summary := Told summary,
            res_exit_code := code, res_finished := Some now\<rparr>) d))"
  have d3: "same_apart d d3" unfolding d3_def by (intro apart_rules) simp_all
  have d': "d' = d3 \<or> d' = upsert_runtimes (map (runtime_after rid environment item summary) nodes) d3"
    unfolding assms persist_unit_outcome_def o d3_def by (simp add: Let_def split: unit_outcome.split)
  show "runs_same d d'" using d' d3 upserts_same [of d3] by (auto simp: same_apart_def runs_same_def releases_same_def)
  assume "t \<in> set (runtimes d')"
  from d' have "t \<in> set (runtimes d3) \<or> t \<in> runtime_after rid environment item summary ` set nodes"
  proof
    assume "d' = upsert_runtimes (map (runtime_after rid environment item summary) nodes) d3"
    then show ?thesis using upserts_in [of t "map (runtime_after rid environment item summary) nodes" d3]
      \<open>t \<in> set (runtimes d')\<close> by auto
  next
    assume "d' = d3"
    then show ?thesis using \<open>t \<in> set (runtimes d')\<close> by simp
  qed
  moreover have "runtimes d3 = runtimes d" using d3 by (simp add: same_apart_def)
  ultimately show "t \<in> set (runtimes d) \<or> rt_release t = None \<or> rt_release t = item_release_id item"
    by (auto simp: runtime_after_def Let_def)
qed

text \<open>A created run is the one row more, and its results name what the release names.\<close>

lemma stage_phases_same: "same_apart d (insert_stage_phases task no ss d)"
proof (induction task no ss d rule: insert_stage_phases.induct)
  case (2 task no stage rest d)
  then show ?case
    by (simp add: same_apart_def runs_same_def releases_same_def snapshots_def results_named_def insert_phase_def)
qed simp

lemma plan_items_named:
  assumes "load_deployment_plan env d environment release mode = Inr plan" and "i \<in> set (plan_items plan)"
  shows "\<exists>u \<in> set (release_units d). \<exists>m \<in> set (manifests d). ru_release u = release \<and> man_release m = release \<and>
     man_status m = lit ''ready'' \<and> item_release_id i = ru_unit_release u"
proof -
  obtain app config config_hash rest where pid: "plan_identities d environment release = (app, config, config_hash) # rest"
    using assms(1) by (auto simp: load_deployment_plan_def split: list.splits)
  have "(app, config, config_hash) \<in> set (plan_identities d environment release)" by (simp add: pid)
  then obtain m where m: "m \<in> set (manifests d)" "man_release m = release" "man_status m = lit ''ready''"
    unfolding plan_identities_def by (fastforce split: if_splits)
  obtain t where "t \<in> set (load_target_units env d release app config_hash)" "item_release_id i = tgt_release_id t"
    using assms pid by (auto simp: load_deployment_plan_def build_deployment_plan_Inr plan_of_def set_planned_items
        make_item_def Let_def split: sum.splits prod.splits)
  then have "\<exists>u \<in> set (release_units d). ru_release u = release \<and> item_release_id i = ru_unit_release u"
    by (auto simp: load_target_units_def)
  with m show ?thesis by blast
qed

lemma create_run_frame:
  assumes "d' = snd (create_run env inp d)"
  shows "d' = d \<or> (\<exists>plan rid. load_deployment_plan env d (ci_environment inp) (ci_release inp) (ci_mode inp) = Inr plan \<and>
      rid = run_seq d + 1 \<and> run_seq d' = rid \<and> releases_same d d' \<and> runtimes d' = runtimes d \<and>
      snapshots d' = snapshots d @ [(rid, SnapshotActive)] \<and>
      results_named d' = results_named d @ map (\<lambda>i. (rid, item_release_id i)) (plan_items plan))"
proof (cases "fst (transaction (create_run_tx env inp) d)")
  case (Inl e)
  then have "snd (transaction (create_run_tx env inp) d) = d"
    by (cases "create_run_tx env inp d") (auto simp: transaction_def split: sum.splits)
  then show ?thesis using assms by (simp add: create_run_def)
next
  case (Inr x)
  then obtain d1 where tx: "create_run_tx env inp d = (Inr x, d1)"
    by (cases "transaction (create_run_tx env inp) d") (auto simp: transaction_Inr)
  show ?thesis
  proof (cases "trim (ci_expected_hash inp) = []")
    case False
    then have d': "d' = d1" using assms tx by (simp add: create_run_def transaction_def)
    from tx obtain plan task dt json rid d2 where p: "load_deployment_plan env d (ci_environment inp) (ci_release inp) (ci_mode inp) = Inr plan"
      and t: "insert_task d (new_deploy_task inp plan) = Some (task, dt)"
      and r: "insert_run dt (new_run inp plan task json) = Some (rid, d2)"
      and d1: "d1 = (let d3 = insert_stage_phases task 1 (sort_dedup (map item_stage_no (plan_items plan))) d2
          in d3\<lparr>results := results d3 @ map (new_result rid) (plan_items plan)\<rparr>)"
      by (auto simp: create_run_tx_def Let_def split: option.splits sum.splits if_splits)
    define d3 where "d3 = insert_stage_phases task 1 (sort_dedup (map item_stage_no (plan_items plan))) d2"
    have d3: "same_apart d2 d3" unfolding d3_def by (rule stage_phases_same)
    have d2: "rid = run_seq d + 1" "run_seq d2 = rid" "releases_same d d2" "runtimes d2 = runtimes d"
      "snapshots d2 = snapshots d @ [(rid, SnapshotActive)]" "results_named d2 = results_named d"
      using t r by (simp_all add: insert_task_Some insert_run_Some releases_same_def snapshots_def results_named_def new_run_def)
    have "d' = d3\<lparr>results := results d3 @ map (new_result rid) (plan_items plan)\<rparr>" by (simp add: d' d1 d3_def Let_def)
    then have "run_seq d' = run_seq d3" "releases_same d3 d'" "runtimes d' = runtimes d3" "snapshots d' = snapshots d3"
      "results_named d' = results_named d3 @ map (\<lambda>i. (rid, item_release_id i)) (plan_items plan)"
      by (simp_all add: releases_same_def snapshots_def results_named_def new_result_def)
    with d2 d3 p show ?thesis by (simp add: same_apart_def runs_same_def releases_same_def)
  qed (use assms in \<open>simp add: create_run_def\<close>)
qed

section \<open>Which artifacts are needed\<close>

text \<open>
  A release of a unit is needed while a release of an application that is not deleted names it,
  while a run whose snapshot is kept names it, and while a node runs it.
\<close>

definition used_by_releases :: "db \<Rightarrow> int set" where
  "used_by_releases d = {i. \<exists>u \<in> set (release_units d). \<exists>m \<in> set (manifests d).
     ru_unit_release u = Some i \<and> man_release m = ru_release u \<and> man_status m \<noteq> lit ''deleted''}"

definition used_by_snapshots :: "db \<Rightarrow> int set" where
  "used_by_snapshots d = {i. \<exists>rid. (rid, Some i) \<in> set (results_named d) \<and> (rid, SnapshotActive) \<in> set (snapshots d)}"

definition used_by_runtimes :: "db \<Rightarrow> int set" where
  "used_by_runtimes d = {i. Some i \<in> rt_release ` set (runtimes d)}"

definition used :: "db \<Rightarrow> int set" where
  "used d = used_by_releases d \<union> used_by_snapshots d \<union> used_by_runtimes d"

definition available :: "db \<Rightarrow> int set" where
  "available d = ur_id ` {u \<in> set (unit_releases d). ur_artifact u = ArtifactActive}"

text \<open>The ids that are yet to be given out are free.\<close>

definition ids_in_range :: "store \<Rightarrow> bool" where
  "ids_in_range s \<longleftrightarrow>
     (\<forall>m \<in> set (manifests (core s)). man_release m \<le> release_seq s) \<and>
     (\<forall>u \<in> set (release_units (core s)). ru_release u \<le> release_seq s) \<and>
     (\<forall>u \<in> set (unit_releases (core s)). ur_id u \<le> unit_release_seq s) \<and>
     (\<forall>x \<in> set (snapshots (core s)). fst x \<le> run_seq (core s)) \<and>
     (\<forall>x \<in> set (results_named (core s)). fst x \<le> run_seq (core s))"

definition store_inv :: "store \<Rightarrow> bool" where
  "store_inv s \<longleftrightarrow> used (core s) \<subseteq> available (core s) \<and> distinct (map ur_id (unit_releases (core s))) \<and> ids_in_range s"

section \<open>The previews count the uses\<close>

lemma release_references_none: "release_references d i = 0 \<longleftrightarrow> i \<notin> used_by_releases d"
proof -
  have "set [(u, m). u \<leftarrow> release_units d, ru_unit_release u = Some i,
      m \<leftarrow> manifests d, man_release m = ru_release u \<and> man_status m \<noteq> lit ''deleted'']
    = {(u, m). u \<in> set (release_units d) \<and> m \<in> set (manifests d) \<and> ru_unit_release u = Some i \<and>
        man_release m = ru_release u \<and> man_status m \<noteq> lit ''deleted''}"
    by (auto split: if_splits)
  then have "release_references d i = 0 \<longleftrightarrow> {(u, m). u \<in> set (release_units d) \<and> m \<in> set (manifests d) \<and>
      ru_unit_release u = Some i \<and> man_release m = ru_release u \<and> man_status m \<noteq> lit ''deleted''} = {}"
    by (simp only: release_references_def length_0_conv set_empty [symmetric])
  then show ?thesis unfolding used_by_releases_def by blast
qed

lemma snapshot_references_none: "snapshot_references d i = 0 \<longleftrightarrow> i \<notin> used_by_snapshots d"
proof -
  have "set [(x, r). x \<leftarrow> results d, res_release x = Some i,
      r \<leftarrow> runs d, run_id r = res_run x \<and> run_snapshot r = SnapshotActive]
    = {(x, r). x \<in> set (results d) \<and> r \<in> set (runs d) \<and> res_release x = Some i \<and>
        run_id r = res_run x \<and> run_snapshot r = SnapshotActive}"
    by (auto split: if_splits)
  then have "snapshot_references d i = 0 \<longleftrightarrow> {(x, r). x \<in> set (results d) \<and> r \<in> set (runs d) \<and> res_release x = Some i \<and>
      run_id r = res_run x \<and> run_snapshot r = SnapshotActive} = {}"
    by (simp only: snapshot_references_def length_0_conv set_empty [symmetric])
  moreover have "i \<in> used_by_snapshots d \<longleftrightarrow> (\<exists>x \<in> set (results d). \<exists>r \<in> set (runs d). res_release x = Some i \<and>
      run_id r = res_run x \<and> run_snapshot r = SnapshotActive)"
    (is "_ = ?r")
  proof
    assume "i \<in> used_by_snapshots d"
    then obtain rid where "(rid, Some i) \<in> (\<lambda>x. (res_run x, res_release x)) ` set (results d)"
      "(rid, SnapshotActive) \<in> (\<lambda>r. (run_id r, run_snapshot r)) ` set (runs d)"
      by (auto simp: used_by_snapshots_def results_named_def snapshots_def)
    then obtain x r where "x \<in> set (results d)" "rid = res_run x" "Some i = res_release x"
      "r \<in> set (runs d)" "rid = run_id r" "SnapshotActive = run_snapshot r" by (elim imageE) simp
    then show ?r by metis
  next
    assume ?r
    then obtain x r where x: "x \<in> set (results d)" "res_release x = Some i" "r \<in> set (runs d)"
      "run_id r = res_run x" "run_snapshot r = SnapshotActive" by blast
    then have "(res_run x, Some i) \<in> set (results_named d)" "(res_run x, SnapshotActive) \<in> set (snapshots d)"
      by (auto simp: results_named_def snapshots_def intro!: image_eqI [of _ _ x] image_eqI [of _ _ r])
    then show "i \<in> used_by_snapshots d" unfolding used_by_snapshots_def by blast
  qed
  ultimately show ?thesis by blast
qed

lemma runtime_references_none: "affected (\<lambda>t. rt_release t = Some i) (runtimes d) = 0 \<longleftrightarrow> i \<notin> used_by_runtimes d"
  by (auto simp: affected_def used_by_runtimes_def filter_empty_conv image_iff)

lemma no_blockers_unused:
  assumes "artifact_cleanup_preview s i = Inr p" and "ap_blockers p = []"
  shows "i \<notin> used (core s)"
proof -
  have b: "block f n = [] \<longleftrightarrow> n = 0" for f n by (simp add: block_def)
  from assms have "release_references (core s) i = 0 \<and> affected (\<lambda>t. rt_release t = Some i) (runtimes (core s)) = 0 \<and>
      snapshot_references (core s) i = 0"
    by (auto simp: artifact_cleanup_preview_def Let_def b split: option.splits)
  then show ?thesis
    using release_references_none [of "core s" i] snapshot_references_none [of "core s" i]
      runtime_references_none [of i "core s"] by (simp add: used_def)
qed

section \<open>Steps\<close>

text \<open>What the executor stores belongs to a unit of a run it was given.\<close>

fun from_plan :: "db \<Rightarrow> orch_call \<Rightarrow> bool" where
  "from_plan d (CallPersist now rid task sid environment nodes item oc) \<longleftrightarrow>
     (rid, item_release_id item) \<in> set (results_named d) \<and> (rid, SnapshotActive) \<in> set (snapshots d)"
| "from_plan d c \<longleftrightarrow> True"

definition next_code :: "version_scope \<Rightarrow> int \<Rightarrow> store \<Rightarrow> int" where
  "next_code kind scope s =
    (case find (\<lambda>c. vc_kind c = kind \<and> vc_scope c = scope) (counters s) of Some c \<Rightarrow> vc_next c | None \<Rightarrow> 100)"

text \<open>Everything else leaves the tables of releases and the runs alone, and lowers no counter.\<close>

definition other_step :: "store \<Rightarrow> store \<Rightarrow> bool" where
  "other_step s s' \<longleftrightarrow> same_apart (core s) (core s') \<and> release_seq s \<le> release_seq s' \<and>
     unit_release_seq s' = unit_release_seq s \<and> (\<forall>kind scope. next_code kind scope s \<le> next_code kind scope s')"

inductive store_step :: "release_crates \<Rightarrow> plan_env \<Rightarrow> store \<Rightarrow> store \<Rightarrow> bool" for C env where
  registering: "store_step C env s (snd (register_unit_release inp s))"
| creating: "store_step C env s (snd (create_application_release C cin s))"
| archiving: "store_step C env s (snd (archive_application_release now app release operator s))"
| deleting: "store_step C env s (snd (delete_application_release app release operator s))"
| claiming: "store_step C env s (snd (begin_cleanup i operator s))"
| ending: "store_step C env s (snd (end_cleanup i operator answer s))"
| forgetting: "store_step C env s (snd (delete_deployment_history app rid operator s))"
| clearing: "store_step C env s (snd (delete_deployment_snapshot now rid operator s))"
| deploying: "from_plan (core s) c \<Longrightarrow> store_step C env s (s\<lparr>core := perform env c (core s)\<rparr>)"
| elsewhere: "other_step s s' \<Longrightarrow> store_step C env s s'"

section \<open>Fewer uses\<close>

definition uses_fewer :: "db \<Rightarrow> db \<Rightarrow> bool" where
  "uses_fewer d d' \<longleftrightarrow> set (release_units d') \<subseteq> set (release_units d) \<and>
     (\<forall>m' \<in> set (manifests d'). \<exists>m \<in> set (manifests d). man_release m = man_release m' \<and>
        (man_status m' \<noteq> lit ''deleted'' \<longrightarrow> man_status m \<noteq> lit ''deleted'')) \<and>
     (\<forall>x \<in> set (results_named d'). \<exists>y \<in> set (results_named d). fst y = fst x \<and> (snd x = None \<or> snd y = snd x)) \<and>
     (\<forall>x \<in> set (snapshots d'). \<exists>y \<in> set (snapshots d). fst y = fst x \<and> (snd x = SnapshotActive \<longrightarrow> snd y = SnapshotActive)) \<and>
     rt_release ` set (runtimes d') \<subseteq> rt_release ` set (runtimes d) \<and> run_seq d' = run_seq d"

lemma uses_fewer_used: "uses_fewer d d' \<Longrightarrow> used d' \<subseteq> used d"
proof -
  assume u: "uses_fewer d d'"
  have r: "used_by_releases d' \<subseteq> used_by_releases d"
  proof
    fix i assume "i \<in> used_by_releases d'"
    then obtain x m' where x: "x \<in> set (release_units d')" "ru_unit_release x = Some i"
      and m': "m' \<in> set (manifests d')" "man_release m' = ru_release x" "man_status m' \<noteq> lit ''deleted''"
      unfolding used_by_releases_def by blast
    obtain m where "m \<in> set (manifests d)" "man_release m = ru_release x" "man_status m \<noteq> lit ''deleted''"
      using u m' unfolding uses_fewer_def by metis
    moreover have "x \<in> set (release_units d)" using u x by (auto simp: uses_fewer_def)
    ultimately show "i \<in> used_by_releases d" using x(2) unfolding used_by_releases_def by blast
  qed
  have s: "used_by_snapshots d' \<subseteq> used_by_snapshots d"
  proof
    fix i assume "i \<in> used_by_snapshots d'"
    then obtain rid where rid: "(rid, Some i) \<in> set (results_named d')" "(rid, SnapshotActive) \<in> set (snapshots d')"
      unfolding used_by_snapshots_def by blast
    obtain y where "y \<in> set (results_named d)" "fst y = rid" "snd y = Some i"
      using u rid(1) unfolding uses_fewer_def by (metis fst_conv snd_conv option.distinct(1))
    moreover obtain z where "z \<in> set (snapshots d)" "fst z = rid" "snd z = SnapshotActive"
      using u rid(2) unfolding uses_fewer_def by (metis fst_conv snd_conv)
    ultimately show "i \<in> used_by_snapshots d" unfolding used_by_snapshots_def by (metis (mono_tags, lifting) mem_Collect_eq prod.collapse)
  qed
  have t: "used_by_runtimes d' \<subseteq> used_by_runtimes d" using u by (auto simp: uses_fewer_def used_by_runtimes_def)
  show ?thesis using r s t by (auto simp: used_def)
qed

lemma uses_fewer_range:
  assumes "uses_fewer (core s) (core s')" and "ids_in_range s"
    and "release_seq s \<le> release_seq s'" and "unit_release_seq s' = unit_release_seq s"
    and "map ur_id (unit_releases (core s')) = map ur_id (unit_releases (core s))"
  shows "ids_in_range s'"
proof -
  let ?d = "core s" and ?d' = "core s'"
  have "man_release m \<le> release_seq s'" if "m \<in> set (manifests ?d')" for m
    using that assms unfolding uses_fewer_def ids_in_range_def by (metis order_trans)
  moreover have "ru_release u \<le> release_seq s'" if "u \<in> set (release_units ?d')" for u
    using that assms unfolding uses_fewer_def ids_in_range_def by (metis order_trans subsetD)
  moreover have "ur_id u \<le> unit_release_seq s'" if "u \<in> set (unit_releases ?d')" for u
  proof -
    have "ur_id u \<in> set (map ur_id (unit_releases ?d'))" using that by simp
    then show ?thesis using assms(2,4) unfolding assms(5) ids_in_range_def by auto
  qed
  moreover have "fst x \<le> run_seq ?d'" if "x \<in> set (snapshots ?d')" for x
    using that assms(1,2) unfolding uses_fewer_def ids_in_range_def by metis
  moreover have "fst x \<le> run_seq ?d'" if "x \<in> set (results_named ?d')" for x
    using that assms(1,2) unfolding uses_fewer_def ids_in_range_def by metis
  ultimately show ?thesis unfolding ids_in_range_def by blast
qed

lemma inv_fewer:
  assumes "store_inv s" and "uses_fewer (core s) (core s')" and "unit_releases (core s') = unit_releases (core s)"
    and "release_seq s \<le> release_seq s'" and "unit_release_seq s' = unit_release_seq s"
  shows "store_inv s'"
  using assms uses_fewer_used [OF assms(2)] uses_fewer_range [OF assms(2) _ assms(4,5)]
  by (auto simp: store_inv_def available_def)

lemma uses_fewer_refl [simp]: "uses_fewer d d"
  by (auto simp: uses_fewer_def)

lemma same_apart_fewer: "same_apart d d' \<Longrightarrow> uses_fewer d d'"
  by (auto simp: uses_fewer_def same_apart_def runs_same_def releases_same_def)

end
