(* ===== verification/Release_Writes.thy ===== *)
theory Release_Writes
  imports Artifact_Uses
begin

text \<open>
What registering and creating write: how changes and selections are resolved, which version
  code is given out, and which rows are added.
\<close>

section \<open>What a release is made of\<close>

text \<open>The unit that a change puts into a release.\<close>

definition unit_changed :: "store \<Rightarrow> unit_change \<Rightarrow> manifest_unit \<Rightarrow> bool" where
  "unit_changed s c u \<longleftrightarrow> mu_unit u = ch_unit c \<and> mu_desired u = ch_desired c \<and>
     (ch_desired c = lit ''active'' \<and> (\<exists>i. ch_release c = Some i \<and> mu_release u = Some i \<and>
        (\<exists>r \<in> set (unit_releases (core s)). ur_id r = i \<and> ur_unit r = ch_unit c \<and> ur_artifact r = ArtifactActive)) \<or>
      ch_desired c = lit ''disabled'' \<and> mu_release u = None)"

lemma apply_change_Inr:
  assumes "apply_change C s configured c (changed, mus) = Inr (changed', mus')"
  shows "changed' = ch_unit c # changed \<and> ch_unit c \<notin> set changed \<and> ch_unit c \<in> cu_unit ` set configured \<and>
     (\<exists>u. unit_changed s c u \<and> mus' = btree_insert (ch_unit c) u mus)"
proof -
  have fresh: "ch_unit c \<notin> set changed" using assms by (auto simp: apply_change_def split: if_splits)
  then obtain cu where cu: "find (\<lambda>x. cu_unit x = ch_unit c) configured = Some cu"
    using assms by (auto simp: apply_change_def split: option.splits)
  then have mem: "ch_unit c \<in> cu_unit ` set configured" by (auto simp: find_Some_iff intro: rev_image_eqI [OF nth_mem])
  have desired: "ch_desired c = lit ''active'' \<or> ch_desired c = lit ''disabled''"
    using assms fresh cu by (auto simp: apply_change_def split: if_splits)
  define rel where "rel = (if ch_desired c = lit ''active''
          then case ch_release c of
              None \<Rightarrow> Inl (ReleaseInvalid ActiveNeedsRelease)
            | Some rid \<Rightarrow> map_sum id (\<lambda>_. Some rid) (ensure_unit_release s (ch_unit c) rid)
          else Inr None)"
  have nd: "\<not> (ch_desired c \<noteq> lit ''active'' \<and> ch_desired c \<noteq> lit ''disabled'')" using desired by blast
  define entry where "entry release fp = \<lparr> mu_unit = ch_unit c, mu_release = release, mu_desired = ch_desired c,
               mu_stage = (case cu_stage cu of Some n \<Rightarrow> n | None \<Rightarrow> 1),
               mu_order = (case cu_order cu of Some n \<Rightarrow> n | None \<Rightarrow> 1),
               mu_removal = (case cu_removal cu of Some n \<Rightarrow> n | None \<Rightarrow> 1), mu_fingerprint = fp \<rparr>" for release fp
  have ac: "apply_change C s configured c (changed, mus) = (case rel of Inl e \<Rightarrow> Inl e | Inr release \<Rightarrow>
      (case unit_target_fingerprint C s release (ch_desired c) of Inl e \<Rightarrow> Inl e | Inr fp \<Rightarrow>
         Inr (ch_unit c # changed, btree_insert (ch_unit c) (entry release fp) mus)))"
    by (simp only: apply_change_def prod.case cu option.case fresh nd if_False rel_def entry_def)
  from ac assms obtain release fp where rel: "rel = Inr release"
    and r: "changed' = ch_unit c # changed \<and> mus' = btree_insert (ch_unit c) (entry release fp) mus"
    by (auto split: sum.splits)
  define u where "u = entry release fp"
  note r = r [folded u_def]
  have "unit_changed s c u"
    using rel desired unfolding rel_def unit_changed_def u_def entry_def
    by (auto simp: ensure_unit_release_def lit_def split: option.splits if_splits)
  with r fresh mem show ?thesis by blast
qed

lemma apply_changes_Inr:
  assumes "apply_changes C s configured changes (changed, mus) = Inr (changed', mus')" and "btree_ok mus"
  shows "btree_ok mus' \<and> ch_unit ` set changes \<inter> set changed = {} \<and>
     (\<forall>k. k \<notin> ch_unit ` set changes \<longrightarrow> map_of mus' k = map_of mus k) \<and>
     (\<forall>c \<in> set changes. \<exists>u. map_of mus' (ch_unit c) = Some u \<and> unit_changed s c u)"
  using assms
proof (induction changes arbitrary: changed mus)
  case (Cons c changes)
  then obtain ch1 m1 where one: "apply_change C s configured c (changed, mus) = Inr (ch1, m1)"
    and rest: "apply_changes C s configured changes (ch1, m1) = Inr (changed', mus')"
    by (auto split: sum.splits)
  from apply_change_Inr [OF one] obtain u where u: "ch1 = ch_unit c # changed" "ch_unit c \<notin> set changed"
    "unit_changed s c u" "m1 = btree_insert (ch_unit c) u mus" by blast
  have ok: "btree_ok m1" using u(4) Cons.prems(2) by (simp add: btree_insert_ok)
  from Cons.IH [OF rest ok] have ih: "btree_ok mus'" "ch_unit ` set changes \<inter> set ch1 = {}"
    "\<And>k. k \<notin> ch_unit ` set changes \<Longrightarrow> map_of mus' k = map_of m1 k"
    "\<And>c. c \<in> set changes \<Longrightarrow> \<exists>u. map_of mus' (ch_unit c) = Some u \<and> unit_changed s c u" by blast+
  have m1: "map_of m1 k = (if k = ch_unit c then Some u else map_of mus k)" for k
    by (simp add: u(4) map_of_btree_insert [OF Cons.prems(2)])
  have "map_of mus' (ch_unit c) = Some u" using ih(2) ih(3) [of "ch_unit c"] u(1) m1 by auto
  then show ?case using ih u m1 by (auto simp: disjoint_iff)
qed simp

lemma map_of_entry: "btree_ok m \<Longrightarrow> map_of m k = Some v \<longleftrightarrow> (k, v) \<in> set m"
  by (simp add: btree_ok_def)

text \<open>What the base release hands down.\<close>

lemma load_manifest_units_in:
  "(k, u) \<in> set (load_manifest_units s base) \<Longrightarrow>
     \<exists>r \<in> set (release_units (core s)). ru_release r = base \<and> k = ru_unit r \<and> u = manifest_unit_of r"
  using btree_of_entries [of "map (\<lambda>r. (ru_unit r, manifest_unit_of r))
      (sort_key (\<lambda>r. (ru_stage r, ru_order r, ru_unit r)) (filter (\<lambda>r. ru_release r = base) (release_units (core s))))"]
  by (auto simp: load_manifest_units_def)

lemma load_environment_configs_in:
  "(k, v) \<in> set (load_environment_configs s base) \<Longrightarrow>
     \<exists>x \<in> set (selections (core s)). sel_release x = base \<and> sel_env x = k \<and> sel_config x = v"
  using btree_of_entries [of "map (\<lambda>r. (sel_env r, sel_config r))
      (sort_key sel_env (filter (\<lambda>r. sel_release r = base) (selections (core s))))"]
  by (auto simp: load_environment_configs_def)

lemma load_ok: "btree_ok (load_manifest_units s base)" "btree_ok (load_environment_configs s base)"
  by (simp_all add: load_manifest_units_def load_environment_configs_def btree_of_ok)

lemma apply_selections_Inr:
  assumes "apply_selections s app sel (changed, configs) = Inr (changed', configs')" and "btree_ok configs"
  shows "btree_ok configs' \<and> fst ` set sel \<inter> set changed = {} \<and>
     (\<forall>k. k \<notin> fst ` set sel \<longrightarrow> map_of configs' k = map_of configs k) \<and>
     (\<forall>(e, v) \<in> set sel. map_of configs' e = Some v \<and> ensure_environment_config s app e v = Inr ())"
  using assms
proof (induction sel arbitrary: changed configs)
  case (Cons x sel)
  obtain e v where x: "x = (e, v)" by (cases x)
  from Cons.prems(1) have e: "e \<notin> set changed" "ensure_environment_config s app e v = Inr ()"
    and rest: "apply_selections s app sel (e # changed, btree_insert e v configs) = Inr (changed', configs')"
    by (auto simp: x split: if_splits sum.splits)
  from Cons.IH [OF rest btree_insert_ok [OF Cons.prems(2)]]
  have ih: "btree_ok configs'" "fst ` set sel \<inter> set (e # changed) = {}"
    "\<And>k. k \<notin> fst ` set sel \<Longrightarrow> map_of configs' k = map_of (btree_insert e v configs) k"
    "\<And>e v. (e, v) \<in> set sel \<Longrightarrow> map_of configs' e = Some v \<and> ensure_environment_config s app e v = Inr ()" by blast+
  have "map_of configs' e = Some v" using ih(2) ih(3) [of e] by (auto simp: map_of_btree_insert [OF Cons.prems(2)])
  then show ?case using ih e by (auto simp: x disjoint_iff map_of_btree_insert [OF Cons.prems(2)])
qed simp

definition inherited_units :: "store \<Rightarrow> int option \<Rightarrow> (int \<times> manifest_unit) list" where
  "inherited_units s base = (case base of None \<Rightarrow> [] | Some b \<Rightarrow> load_manifest_units s b)"

definition inherited_configs :: "store \<Rightarrow> int option \<Rightarrow> (int \<times> int) list" where
  "inherited_configs s base = (case base of None \<Rightarrow> [] | Some b \<Rightarrow> load_environment_configs s b)"

lemma resolve_release_Inr:
  assumes "resolve_release C inp s = Inr (mus, configs)"
  obtains entries changed1 changed2 where "mus = map snd entries"
    and "apply_changes C s (configured_units s (cx_app inp)) (cx_units inp) ([], inherited_units s (cx_base inp)) = Inr (changed1, entries)"
    and "set (map fst entries) = set (map cu_unit (configured_units s (cx_app inp)))"
    and "apply_selections s (cx_app inp) (cx_environments inp) ([], inherited_configs s (cx_base inp)) = Inr (changed2, configs)"
    and "set (map fst configs) = enabled_environments s (cx_app inp)"
    and "\<And>b. cx_base inp = Some b \<Longrightarrow> ensure_base_release s (cx_app inp) b = Inr ()"
    and "ensure_app_and_version_available s (cx_app inp) (cx_version inp) = Inr ()"
proof -
  have base: "ensure_base_release s (cx_app inp) b = Inr ()" if "cx_base inp = Some b" for b
    using assms that
    by (cases "ensure_base_release s (cx_app inp) b")
       (auto simp: resolve_release_def Let_def split: sum.splits if_splits)
  have inh: "(case cx_base inp of None \<Rightarrow> Inr [] | Some base \<Rightarrow>
      map_sum id (\<lambda>_. load_manifest_units s base) (ensure_base_release s (cx_app inp) base)) = Inr (inherited_units s (cx_base inp))"
    using base by (auto simp: inherited_units_def split: option.split)
  show ?thesis
    using assms base
    unfolding resolve_release_def Let_def inh inherited_configs_def [symmetric]
    by (auto split: sum.splits if_splits prod.splits intro: that)
qed

section \<open>Version codes\<close>

lemma find_modify_first:
  assumes "\<And>x. p x \<Longrightarrow> p (f x)"
  shows "find p (modify p f xs) = map_option f (find p xs)"
  using assms by (induction xs) (auto simp: modify_def)

lemma find_app: "find p (xs @ ys) = (case find p xs of None \<Rightarrow> find p ys | Some x \<Rightarrow> Some x)"
  by (induction xs) auto

lemma allocate_frame:
  assumes "allocate_version_code kind scope s = (code, s')"
  shows "code = next_code kind scope s" and "s' = s\<lparr>counters := counters s'\<rparr>"
    and "next_code k sc s' = (if k = kind \<and> sc = scope then next_code k sc s + 1 else next_code k sc s)"
proof -
  let ?mine = "\<lambda>c. vc_kind c = kind \<and> vc_scope c = scope"
  define rows where "rows = (if \<exists>c \<in> set (counters s). ?mine c then counters s
                 else counters s @ [\<lparr> vc_kind = kind, vc_scope = scope, vc_next = 100 \<rparr>])"
  have fnd: "find (\<lambda>c. vc_kind c = k \<and> vc_scope c = sc) rows =
      (if k = kind \<and> sc = scope \<and> find ?mine (counters s) = None then Some \<lparr> vc_kind = kind, vc_scope = scope, vc_next = 100 \<rparr>
       else find (\<lambda>c. vc_kind c = k \<and> vc_scope c = sc) (counters s))" for k sc
  proof (cases "\<exists>c \<in> set (counters s). ?mine c")
    case True
    then have "find ?mine (counters s) \<noteq> None" by (auto simp: find_None_iff)
    then show ?thesis using True by (simp add: rows_def)
  next
    case False
    then have none: "find ?mine (counters s) = None" by (auto simp: find_None_iff)
    have rows: "rows = counters s @ [\<lparr> vc_kind = kind, vc_scope = scope, vc_next = 100 \<rparr>]"
      using False by (simp only: rows_def if_False)
    show ?thesis
    proof (cases "k = kind \<and> sc = scope")
      case True
      then show ?thesis using none by (simp add: rows find_app)
    next
      case neq: False
      then have "find (\<lambda>c. vc_kind c = k \<and> vc_scope c = sc) [\<lparr> vc_kind = kind, vc_scope = scope, vc_next = 100 \<rparr>] = None"
        by auto
      then show ?thesis unfolding rows find_app using neq by (simp split: option.split)
    qed
  qed
  have res: "code = (case find ?mine rows of Some c \<Rightarrow> vc_next c | None \<Rightarrow> 0)"
    "s' = s\<lparr>counters := modify ?mine (\<lambda>c. c\<lparr>vc_next := vc_next c + 1\<rparr>) rows\<rparr>"
    using assms by (auto simp: allocate_version_code_def rows_def Let_def)
  show "code = next_code kind scope s" unfolding res fnd by (auto simp: next_code_def split: option.split)
  show "s' = s\<lparr>counters := counters s'\<rparr>" unfolding res by simp
  show "next_code k sc s' = (if k = kind \<and> sc = scope then next_code k sc s + 1 else next_code k sc s)"
  proof (cases "k = kind \<and> sc = scope")
    case True
    then have "find (\<lambda>c. vc_kind c = k \<and> vc_scope c = sc) (counters s') =
        map_option (\<lambda>c. c\<lparr>vc_next := vc_next c + 1\<rparr>) (find ?mine rows)"
      unfolding res using find_modify_first [of ?mine "\<lambda>c. c\<lparr>vc_next := vc_next c + 1\<rparr>" rows] by simp
    then show ?thesis using True fnd [of kind scope] by (auto simp: next_code_def split: option.split)
  next
    case False
    have "find (\<lambda>c. vc_kind c = k \<and> vc_scope c = sc) (modify ?mine (\<lambda>c. c\<lparr>vc_next := vc_next c + 1\<rparr>) cs)
        = find (\<lambda>c. vc_kind c = k \<and> vc_scope c = sc) cs" for cs :: "counter_row list"
      by (induction cs) (use False in \<open>auto simp: modify_def\<close>)
    moreover have "find (\<lambda>c. vc_kind c = k \<and> vc_scope c = sc) rows = find (\<lambda>c. vc_kind c = k \<and> vc_scope c = sc) (counters s)"
      using False fnd [of k sc] by auto
    ultimately have "next_code k sc s' = next_code k sc s" by (simp add: next_code_def res(2))
    then show ?thesis using False by auto
  qed
qed

section \<open>What registering and creating write\<close>

lemma register_writes:
  assumes "register_unit_release inp s = (r, s')"
  shows "s' = s \<or> (\<exists>code cs. code = next_code UnitScope (ri_unit inp) s \<and>
     s' = s\<lparr> counters := cs, core := (core s)\<lparr>unit_releases := unit_releases (core s) @
             [new_unit_release inp (unit_release_seq s + 1) code]\<rparr>, unit_release_seq := unit_release_seq s + 1 \<rparr> \<and>
     r = Inr \<lparr> ux_release = unit_release_seq s + 1, ux_unit = ri_unit inp, ux_version = ri_version inp,
                  ux_code = code, ux_checksum = ri_checksum inp \<rparr> \<and>
     (\<forall>k sc. next_code k sc s' = (if k = UnitScope \<and> sc = ri_unit inp then code + 1 else next_code k sc s)))"
proof -
  have tx: "(r, s') = transaction (register_tx inp) s \<or> s' = s"
    using assms by (auto simp: register_unit_release_def split: sum.splits)
  show ?thesis
  proof (cases r)
    case (Inl e)
    with tx have "s' = s" by (metis transaction_Inl)
    then show ?thesis ..
  next
    case (Inr x)
    obtain code s1 where al: "allocate_version_code UnitScope (ri_unit inp) s = (code, s1)"
      by (cases "allocate_version_code UnitScope (ri_unit inp) s")
    have s1: "s1 = s\<lparr>counters := counters s1\<rparr>" by (rule allocate_frame(2) [OF al])
    then have k: "core s1 = core s" "unit_release_seq s1 = unit_release_seq s"
      by (metis store.select_convs(1) store.surjective store.update_convs(7), metis store.select_convs(13) store.surjective store.update_convs(7))
    have "s' = s \<or> register_tx inp s = (Inr x, s')" using tx Inr by (metis transaction_Inr)
    then show ?thesis
    proof
      assume t: "register_tx inp s = (Inr x, s')"
      then have "s' = s \<or> (r = Inr \<lparr> ux_release = unit_release_seq s + 1, ux_unit = ri_unit inp, ux_version = ri_version inp,
                  ux_code = code, ux_checksum = ri_checksum inp \<rparr> \<and>
          s' = s1\<lparr> core := (core s)\<lparr>unit_releases := unit_releases (core s) @
             [new_unit_release inp (unit_release_seq s + 1) code]\<rparr>, unit_release_seq := unit_release_seq s + 1 \<rparr>)"
        using Inr by (auto simp: register_tx_def al k Let_def split: if_splits option.splits)
      then show ?thesis
      proof
        assume w: "r = Inr \<lparr> ux_release = unit_release_seq s + 1, ux_unit = ri_unit inp, ux_version = ri_version inp,
                  ux_code = code, ux_checksum = ri_checksum inp \<rparr> \<and>
          s' = s1\<lparr> core := (core s)\<lparr>unit_releases := unit_releases (core s) @
             [new_unit_release inp (unit_release_seq s + 1) code]\<rparr>, unit_release_seq := unit_release_seq s + 1 \<rparr>"
        have n: "next_code k sc s' = next_code k sc s1" for k sc using w by (simp add: next_code_def)
        have "s' = s\<lparr> counters := counters s1, core := (core s)\<lparr>unit_releases := unit_releases (core s) @
             [new_unit_release inp (unit_release_seq s + 1) code]\<rparr>, unit_release_seq := unit_release_seq s + 1 \<rparr>"
          using w by (subst (asm) s1) simp
        moreover have "code = next_code UnitScope (ri_unit inp) s" by (rule allocate_frame(1) [OF al])
        moreover have "next_code k sc s' = (if k = UnitScope \<and> sc = ri_unit inp then code + 1 else next_code k sc s)" for k sc
          using allocate_frame(1,3) [OF al] n by simp
        moreover note conjunct1 [OF w]
        ultimately show ?thesis by (intro disjI2 exI [of _ code] exI [of _ "counters s1"] conjI allI)
      qed simp
    qed simp
  qed
qed

lemma create_writes:
  assumes "create_application_release C inp s = (r, s')"
  shows "s' = s \<and> (\<exists>e. r = Inl e) \<or> (\<exists>mus configs json x.
     resolve_release C inp s = Inr (mus, configs) \<and> manifest_document C mus configs = Some json \<and>
     release_sha256 C json \<notin> man_hash ` set (manifests (core s)) \<and> r = Inr x \<and>
     insert_release inp mus configs json (release_sha256 C json) s = (x, s'))"
proof (cases r)
  case (Inl e)
  then have "s' = s" using assms
    by (auto simp: create_application_release_def transaction_Inl split: sum.splits)
  with Inl show ?thesis by blast
next
  case (Inr x)
  then have "create_release_tx C inp s = (Inr x, s')" using assms
    by (auto simp: create_application_release_def transaction_Inr split: sum.splits)
  then show ?thesis using Inr
    by (auto simp: create_release_tx_def Let_def image_iff split: sum.splits prod.splits option.splits if_splits)
qed

lemma insert_release_writes:
  assumes "insert_release inp mus configs json hash s = (x, s')"
  shows "rx_code x = next_code AppScope (cx_app inp) s"
    and "rx_release x = release_seq s + 1" and "rx_units x = mus" and "rx_environments x = configs"
    and "rx_version x = cx_version inp"
    and "next_code k sc s' = (if k = AppScope \<and> sc = cx_app inp then rx_code x + 1 else next_code k sc s)"
    and "release_seq s' = release_seq s + 1" and "unit_release_seq s' = unit_release_seq s"
    and "core s' = (core s)\<lparr> releases := releases (core s) @ [\<lparr> rel_id = rx_release x, rel_app = cx_app inp, rel_version = cx_version inp,
           rel_code = rx_code x, rel_status = lit ''received'', rel_source = lit ''openapi'', rel_checksum = hash,
           rel_metadata = [123, 34] @ lit ''kind'' @ [34, 58, 34] @ lit ''application_manifest'' @ [34, 125] \<rparr>],
         manifests := manifests (core s) @ [\<lparr> man_release = rx_release x, man_status = lit ''ready'', man_base = cx_base inp,
           man_hash = hash, man_json = json, man_created_by = trim (cx_created_by inp), man_archived = None \<rparr>],
         release_units := release_units (core s) @ map (release_unit_of (rx_release x)) mus,
         selections := selections (core s) @ map (\<lambda>(environment, config).
            \<lparr> sel_release = rx_release x, sel_env = environment, sel_config = config \<rparr>) configs \<rparr>"
proof -
  obtain code s1 where al: "allocate_version_code AppScope (cx_app inp) s = (code, s1)"
    by (cases "allocate_version_code AppScope (cx_app inp) s")
  have "s1 = s\<lparr>counters := counters s1\<rparr>" by (rule allocate_frame(2) [OF al])
  then have k: "core s1 = core s" "release_seq s1 = release_seq s" "unit_release_seq s1 = unit_release_seq s"
    by (metis store.select_convs(1) store.surjective store.update_convs(7),
        metis store.select_convs(12) store.surjective store.update_convs(7),
        metis store.select_convs(13) store.surjective store.update_convs(7))
  have w: "(x, s') = insert_release inp mus configs json hash s" using assms by simp
  note w = w [unfolded insert_release_def al Let_def prod.case k]
  have x: "x = \<lparr> rx_release = release_seq s + 1, rx_version = cx_version inp, rx_code = code, rx_hash = hash,
      rx_units = mus, rx_environments = configs \<rparr>" using w by simp
  have n: "next_code k sc s' = next_code k sc s1" for k sc using w by (simp add: next_code_def)
  have sel: "rx_release x = release_seq s + 1 \<and> rx_units x = mus \<and> rx_environments x = configs \<and>
      rx_version x = cx_version inp" by (simp add: x)
  show "rx_release x = release_seq s + 1" "rx_units x = mus" "rx_environments x = configs" "rx_version x = cx_version inp"
    using sel by blast+
  show "release_seq s' = release_seq s + 1" "unit_release_seq s' = unit_release_seq s" using w k by simp_all
  show "core s' = (core s)\<lparr> releases := releases (core s) @ [\<lparr> rel_id = rx_release x, rel_app = cx_app inp, rel_version = cx_version inp,
           rel_code = rx_code x, rel_status = lit ''received'', rel_source = lit ''openapi'', rel_checksum = hash,
           rel_metadata = [123, 34] @ lit ''kind'' @ [34, 58, 34] @ lit ''application_manifest'' @ [34, 125] \<rparr>],
         manifests := manifests (core s) @ [\<lparr> man_release = rx_release x, man_status = lit ''ready'', man_base = cx_base inp,
           man_hash = hash, man_json = json, man_created_by = trim (cx_created_by inp), man_archived = None \<rparr>],
         release_units := release_units (core s) @ map (release_unit_of (rx_release x)) mus,
         selections := selections (core s) @ map (\<lambda>(environment, config).
            \<lparr> sel_release = rx_release x, sel_env = environment, sel_config = config \<rparr>) configs \<rparr>"
    using w by (simp add: x)
  show "rx_code x = next_code AppScope (cx_app inp) s" using allocate_frame(1) [OF al] by (simp add: x)
  show "next_code k sc s' = (if k = AppScope \<and> sc = cx_app inp then rx_code x + 1 else next_code k sc s)"
    using allocate_frame(1,3) [OF al] by (simp add: x n)
qed

end
