(* ===== verification/Artifact_Safety.thy ===== *)
theory Artifact_Safety
  imports Release_Writes
begin

text \<open>
Every step keeps the invariant that needed artifacts are there; what that says of all
  reachable states and of artifacts that have been claimed for deletion.
\<close>

section \<open>Every step keeps the needed artifacts\<close>

lemma cleanup_event_sel [simp]:
  "core (insert_cleanup_event target i level title operator detail s) = core s"
  "release_seq (insert_cleanup_event target i level title operator detail s) = release_seq s"
  "unit_release_seq (insert_cleanup_event target i level title operator detail s) = unit_release_seq s"
  "counters (insert_cleanup_event target i level title operator detail s) = counters s"
  "queue (insert_cleanup_event target i level title operator detail s) = queue s"
  by (simp_all add: insert_cleanup_event_def)

lemma update_unit_release_sel [simp]:
  "core (update_unit_release p f s) = (core s)\<lparr>unit_releases := modify p f (unit_releases (core s))\<rparr>"
  "release_seq (update_unit_release p f s) = release_seq s"
  "unit_release_seq (update_unit_release p f s) = unit_release_seq s"
  "counters (update_unit_release p f s) = counters s"
  by (simp_all add: update_unit_release_def)

lemma used_unit_releases [simp]: "used (d\<lparr>unit_releases := rs\<rparr>) = used d"
  by (simp add: used_def used_by_releases_def used_by_snapshots_def used_by_runtimes_def results_named_def snapshots_def)

lemma inv_artifacts:
  assumes "store_inv s" and "core s' = (core s)\<lparr>unit_releases := rs\<rparr>"
    and "map ur_id rs = map ur_id (unit_releases (core s))"
    and "used (core s) \<subseteq> ur_id ` {u \<in> set rs. ur_artifact u = ArtifactActive}"
    and "release_seq s' = release_seq s" and "unit_release_seq s' = unit_release_seq s"
  shows "store_inv s'"
proof -
  have "uses_fewer (core s) (core s')" unfolding assms(2)
    by (auto simp: uses_fewer_def results_named_def snapshots_def)
  then have "ids_in_range s'" using uses_fewer_range [of s s'] assms by (simp add: store_inv_def)
  then show ?thesis using assms by (simp add: store_inv_def available_def)
qed

lemma begin_cleanup_cases:
  obtains (refused) e where "begin_cleanup i operator s = (Inl e, s)"
  | (claimed) p t where "artifact_cleanup_preview s i = Inr p" "artifact_allowed p"
      "begin_cleanup i operator s = (Inr t, insert_cleanup_event (lit ''deployment_artifact'') i (lit ''info'')
          ArtifactCleanupStarted operator (CleanupText []) (update_unit_release (\<lambda>r. ur_id r = i)
            (\<lambda>r. r\<lparr>ur_artifact := ArtifactDeleting, ur_cleanup_error := []\<rparr>) s))"
proof (cases "artifact_cleanup_preview s i")
  case (Inl e)
  then show ?thesis by (intro refused [of e]) (simp only: begin_cleanup_def sum.case)
next
  case (Inr p)
  show ?thesis
  proof (cases "artifact_allowed p")
    case False
    then show ?thesis using Inr by (intro refused) (simp only: begin_cleanup_def sum.case not_False_eq_True if_True)
  next
    case True
    show ?thesis
    proof (cases "find (\<lambda>r. ur_id r = i) (unit_releases (core s))")
      case None
      then show ?thesis using Inr True
        by (intro refused) (simp only: begin_cleanup_def sum.case not_True_eq_False if_False option.case)
    next
      case (Some r)
      then show ?thesis using Inr True
        by (intro claimed [OF Inr True]) (simp only: begin_cleanup_def sum.case not_True_eq_False if_False option.case)
    qed
  qed
qed

lemma claiming_keeps: "store_inv s \<Longrightarrow> store_inv (snd (begin_cleanup i operator s))"
proof -
  assume inv: "store_inv s"
  show ?thesis
  proof (cases i operator s rule: begin_cleanup_cases)
    case (refused e)
    with inv show ?thesis by simp
  next
    case (claimed p t)
    let ?f = "\<lambda>r :: unit_release_row. r\<lparr>ur_artifact := ArtifactDeleting, ur_cleanup_error := []\<rparr>"
    have free: "i \<notin> used (core s)" using no_blockers_unused [OF claimed(1)] claimed(2) by (simp add: artifact_allowed_def)
    have "used (core s) \<subseteq> ur_id ` {u \<in> set (modify (\<lambda>r. ur_id r = i) ?f (unit_releases (core s))). ur_artifact u = ArtifactActive}"
    proof
      fix j assume j: "j \<in> used (core s)"
      with inv obtain u where u: "u \<in> set (unit_releases (core s))" "ur_id u = j" "ur_artifact u = ArtifactActive"
        by (auto simp: store_inv_def available_def)
      have "j \<noteq> i" using j free by blast
      then have "u \<in> set (modify (\<lambda>r. ur_id r = i) ?f (unit_releases (core s)))"
        using u by (auto simp: set_modify image_iff intro: bexI [of _ u])
      with u show "j \<in> ur_id ` {u \<in> set (modify (\<lambda>r. ur_id r = i) ?f (unit_releases (core s))). ur_artifact u = ArtifactActive}"
        by blast
    qed
    moreover have "map ur_id (modify (\<lambda>r. ur_id r = i) ?f (unit_releases (core s))) = map ur_id (unit_releases (core s))"
      by (rule map_modify) simp
    ultimately show ?thesis
      by (intro inv_artifacts [OF inv, of _ "modify (\<lambda>r. ur_id r = i) ?f (unit_releases (core s))"])
        (simp_all add: claimed(3))
  qed
qed

lemma ending_keeps: "store_inv s \<Longrightarrow> store_inv (snd (end_cleanup i operator answer s))"
proof -
  assume inv: "store_inv s"
  let ?claimed = "\<lambda>r. ur_id r = i \<and> ur_artifact r = ArtifactDeleting"
  have keep: "store_inv s'" if f: "\<And>r. ur_id (f r) = ur_id r"
    and s': "core s' = (core s)\<lparr>unit_releases := modify ?claimed f (unit_releases (core s))\<rparr>"
      "release_seq s' = release_seq s" "unit_release_seq s' = unit_release_seq s" for f s'
  proof (rule inv_artifacts [OF inv s'(1) _ _ s'(2,3)])
    show "map ur_id (modify ?claimed f (unit_releases (core s))) = map ur_id (unit_releases (core s))"
      by (rule map_modify) (simp add: f)
    show "used (core s) \<subseteq> ur_id ` {u \<in> set (modify ?claimed f (unit_releases (core s))). ur_artifact u = ArtifactActive}"
    proof
      fix j assume "j \<in> used (core s)"
      with inv obtain u where u: "u \<in> set (unit_releases (core s))" "ur_id u = j" "ur_artifact u = ArtifactActive"
        by (auto simp: store_inv_def available_def)
      then have "u \<in> set (modify ?claimed f (unit_releases (core s)))"
        by (auto simp: set_modify image_iff intro: bexI [of _ u])
      with u show "j \<in> ur_id ` {u \<in> set (modify ?claimed f (unit_releases (core s))). ur_artifact u = ArtifactActive}"
        by blast
    qed
  qed
  show ?thesis
  proof (cases answer)
    case None
    show ?thesis by (rule keep [of "\<lambda>r. r\<lparr> ur_artifact := ArtifactDeleted, ur_cleanup_error := [], ur_package_path := [],
                ur_extract_dir := [], ur_bucket := [], ur_object_key := [], ur_endpoint := [], ur_object_version := [] \<rparr>"])
      (simp_all add: None end_cleanup_def Let_def)
  next
    case (Some msg)
    show ?thesis by (rule keep [of "\<lambda>r. r\<lparr>ur_artifact := ArtifactDeleteFailed, ur_cleanup_error := truncate_cleanup_error msg\<rparr>"])
      (simp_all add: Some end_cleanup_def Let_def)
  qed
qed

lemma registering_keeps: "store_inv s \<Longrightarrow> store_inv (snd (register_unit_release inp s))"
proof -
  assume inv: "store_inv s"
  obtain r s' where r: "register_unit_release inp s = (r, s')" by (cases "register_unit_release inp s")
  from register_writes [OF r] consider "s' = s"
    | code cs where "s' = s\<lparr> counters := cs, core := (core s)\<lparr>unit_releases := unit_releases (core s) @
             [new_unit_release inp (unit_release_seq s + 1) code]\<rparr>, unit_release_seq := unit_release_seq s + 1 \<rparr>" by blast
  then show ?thesis
  proof cases
    case 2
    have "unit_release_seq s + 1 \<notin> ur_id ` set (unit_releases (core s))"
      using inv by (force simp: store_inv_def ids_in_range_def)
    then show ?thesis unfolding r snd_conv 2 using inv
      by (auto simp: store_inv_def ids_in_range_def available_def new_unit_release_def snapshots_def results_named_def)
  qed (use inv r in simp)
qed

lemma ready_not_deleted [simp]: "lit ''ready'' \<noteq> lit ''deleted''" "lit ''archived'' \<noteq> lit ''deleted''"
  by (simp_all add: lit_def)

lemma resolved_units_available:
  assumes "store_inv s" and "resolve_release C inp s = Inr (mus, configs)"
    and "u \<in> set mus" and "mu_release u = Some i"
  shows "i \<in> available (core s)"
  using assms(2)
proof (rule resolve_release_Inr)
  fix entries changed1 changed2
  assume m: "mus = map snd entries" and a: "apply_changes C s (configured_units s (cx_app inp)) (cx_units inp)
      ([], inherited_units s (cx_base inp)) = Inr (changed1, entries)"
    and base: "\<And>b. cx_base inp = Some b \<Longrightarrow> ensure_base_release s (cx_app inp) b = Inr ()"
  have inh: "btree_ok (inherited_units s (cx_base inp))"
    by (cases "cx_base inp") (simp_all add: inherited_units_def load_ok, simp add: btree_ok_def)
  note ac = apply_changes_Inr [OF a inh]
  obtain k where "(k, u) \<in> set entries" using assms(3) m by auto
  with ac have k: "map_of entries k = Some u" by (simp add: map_of_entry)
  show ?thesis
  proof (cases "k \<in> ch_unit ` set (cx_units inp)")
    case True
    then obtain c where "c \<in> set (cx_units inp)" "unit_changed s c u" using ac k by force
    then show ?thesis using assms(4) by (auto simp: unit_changed_def available_def)
  next
    case False
    then have "map_of (inherited_units s (cx_base inp)) k = Some u" using ac k by simp
    then obtain b where b: "cx_base inp = Some b" "(k, u) \<in> set (load_manifest_units s b)"
      using inh by (cases "cx_base inp") (auto simp: inherited_units_def map_of_entry)
    then obtain x where x: "x \<in> set (release_units (core s))" "ru_release x = b" "u = manifest_unit_of x"
      using load_manifest_units_in by blast
    obtain m where "m \<in> set (manifests (core s))" "man_release m = b" "man_status m = lit ''ready''"
      using base [OF b(1)] by (auto simp: ensure_base_release_def split: if_splits)
    with x assms(4) have "i \<in> used (core s)"
      unfolding used_def used_by_releases_def manifest_unit_of_def by force
    then show ?thesis using assms(1) by (auto simp: store_inv_def)
  qed
qed

lemma creating_keeps: "store_inv s \<Longrightarrow> store_inv (snd (create_application_release C inp s))"
proof -
  assume inv: "store_inv s"
  obtain r s' where r: "create_application_release C inp s = (r, s')" by (cases "create_application_release C inp s")
  from create_writes [OF r] consider "s' = s"
    | mus configs json x where "resolve_release C inp s = Inr (mus, configs)"
      "insert_release inp mus configs json (release_sha256 C json) s = (x, s')" by blast
  then show ?thesis
  proof cases
    case 2
    note w = insert_release_writes [OF 2(2)]
    have sq: "release_seq s' = rx_release x" "rx_release x = release_seq s + 1" using w(2,7) by simp_all
    have old: "man_release m \<noteq> rx_release x" if "m \<in> set (manifests (core s))" for m
      using inv that sq by (force simp: store_inv_def ids_in_range_def)
    have oldu: "ru_release u \<noteq> rx_release x" if "u \<in> set (release_units (core s))" for u
      using inv that sq by (force simp: store_inv_def ids_in_range_def)
    have "used_by_releases (core s') \<subseteq> used_by_releases (core s) \<union> {i. \<exists>u \<in> set mus. mu_release u = Some i}"
      unfolding w(9) used_by_releases_def using old oldu by (auto simp: release_unit_of_def) blast+
    moreover have "{i. \<exists>u \<in> set mus. mu_release u = Some i} \<subseteq> available (core s)"
      using resolved_units_available [OF inv 2(1)] by blast
    moreover have "used_by_snapshots (core s') = used_by_snapshots (core s)" "used_by_runtimes (core s') = used_by_runtimes (core s)"
      "available (core s') = available (core s)"
      unfolding w(9) by (simp_all add: used_by_snapshots_def used_by_runtimes_def results_named_def snapshots_def available_def)
    moreover have "used (core s) \<subseteq> available (core s)" using inv by (simp add: store_inv_def)
    ultimately have "used (core s') \<subseteq> available (core s')" unfolding used_def by blast
    moreover have "ids_in_range s'"
      using inv w(8) sq unfolding ids_in_range_def w(9) store_inv_def
      by (force simp: release_unit_of_def results_named_def snapshots_def)
    moreover have "distinct (map ur_id (unit_releases (core s')))" using inv unfolding w(9) by (simp add: store_inv_def)
    ultimately show ?thesis using r by (simp add: store_inv_def)
  qed (use inv r in simp)
qed

lemma uses_fewer_parts:
  assumes "set (release_units d') \<subseteq> set (release_units d)" and "set (manifests d') \<subseteq> set (manifests d)"
    and "set (results_named d') \<subseteq> set (results_named d)" and "set (snapshots d') \<subseteq> set (snapshots d)"
    and "rt_release ` set (runtimes d') \<subseteq> rt_release ` set (runtimes d)" and "run_seq d' = run_seq d"
  shows "uses_fewer d d'"
  unfolding uses_fewer_def using assms by blast

lemma transaction_cases:
  obtains (failed) e where "transaction m s = (Inl e, s)" | (committed) x s' where "m s = (Inr x, s')" "transaction m s = (Inr x, s')"
proof (cases "m s")
  case (Pair r s')
  then show ?thesis using failed committed by (cases r) (auto simp: transaction_def)
qed

lemma archiving_keeps: "store_inv s \<Longrightarrow> store_inv (snd (archive_application_release now app release operator s))"
proof -
  assume inv: "store_inv s"
  show ?thesis unfolding archive_application_release_def
  proof (cases "archive_tx now app release operator" s rule: transaction_cases)
    case (committed x s')
    let ?f = "\<lambda>m :: manifest_row. m\<lparr>man_status := lit ''archived'', man_archived := Some now\<rparr>"
    let ?p = "\<lambda>m. man_release m = release \<and> man_status m = lit ''ready''"
    have s': "core s' = (core s)\<lparr>manifests := modify ?p ?f (manifests (core s))\<rparr>"
      "release_seq s' = release_seq s" "unit_release_seq s' = unit_release_seq s"
      using committed(1) by (auto simp: archive_tx_def Let_def split: sum.splits if_splits)
    have "\<exists>m \<in> set (manifests (core s)). man_release m = man_release m' \<and>
        (man_status m' \<noteq> lit ''deleted'' \<longrightarrow> man_status m \<noteq> lit ''deleted'')"
      if "m' \<in> set (modify ?p ?f (manifests (core s)))" for m'
      using that by (rule in_set_modifyE) (auto intro: bexI split: if_splits)
    then have "uses_fewer (core s) (core s')"
      unfolding s' uses_fewer_def by (auto simp: results_named_def snapshots_def)
    then show "store_inv (snd (transaction (archive_tx now app release operator) s))"
      using inv_fewer [OF inv] s' committed(2) by simp
  qed (use inv in simp)
qed

lemma delete_release_writes:
  assumes "delete_application_release app release operator s = (r, s')"
  shows "s' = s \<and> (\<exists>e. r = Inl e) \<or> (\<exists>p. application_release_cleanup_preview s app release = Inr p \<and> can_delete p \<and>
     r = Inr (rp_bytes p) \<and> core s' = core (drop_release app release s) \<and>
     release_seq s' = release_seq s \<and> unit_release_seq s' = unit_release_seq s \<and> counters s' = counters s)"
proof (cases "delete_release_tx app release operator" s rule: transaction_cases)
  case (committed x s2)
  then show ?thesis using assms
    by (auto simp: delete_application_release_def delete_release_tx_def drop_release_def Let_def split: sum.splits if_splits)
qed (use assms in \<open>auto simp: delete_application_release_def\<close>)

lemma deleting_keeps: "store_inv s \<Longrightarrow> store_inv (snd (delete_application_release app release operator s))"
proof -
  assume inv: "store_inv s"
  obtain r s' where r: "delete_application_release app release operator s = (r, s')"
    by (cases "delete_application_release app release operator s")
  from delete_release_writes [OF r] show ?thesis
  proof (elim disjE exE conjE)
    assume w: "core s' = core (drop_release app release s)" "release_seq s' = release_seq s" "unit_release_seq s' = unit_release_seq s"
    have "uses_fewer (core s) (core s')" unfolding w
      by (rule uses_fewer_parts) (auto simp: drop_release_def results_named_def snapshots_def)
    then show ?thesis using inv_fewer [OF inv] w r by (simp add: drop_release_def)
  qed (use inv r in simp)
qed

lemma history_writes:
  assumes "delete_deployment_history app rid operator s = (r, s')"
  shows "s' = s \<and> (\<exists>e. r = Inl e) \<or> (\<exists>p q f. deployment_history_delete_preview s app rid = Inr p \<and> hp_blockers p = [] \<and>
     core s' = delete_run app rid (update_tasks q f (core s)) \<and> (\<exists>x. r = Inr x) \<and>
     release_seq s' = release_seq s \<and> unit_release_seq s' = unit_release_seq s \<and> counters s' = counters s)"
proof (cases "delete_history_tx app rid operator" s rule: transaction_cases)
  case (committed x s2)
  from committed(1) obtain p where p: "deployment_history_delete_preview s app rid = Inr p" "hp_blockers p = []"
    by (auto simp: delete_history_tx_def split: sum.splits if_splits)
  let ?q = "\<lambda>t. Some (task_id t) = hp_task p \<and> task_release t = Some (hp_release p)"
  have "core s2 = delete_run app rid (update_tasks ?q (\<lambda>t. t\<lparr>task_release := None\<rparr>) (core s)) \<and>
     release_seq s2 = release_seq s \<and> unit_release_seq s2 = unit_release_seq s \<and> counters s2 = counters s"
    using committed(1) p by (auto simp: delete_history_tx_def Let_def split: if_splits)
  then show ?thesis using assms committed p by (auto simp: delete_deployment_history_def)
qed (use assms in \<open>auto simp: delete_deployment_history_def\<close>)

lemma forgetting_keeps: "store_inv s \<Longrightarrow> store_inv (snd (delete_deployment_history app rid operator s))"
proof -
  assume inv: "store_inv s"
  obtain r s' where r: "delete_deployment_history app rid operator s = (r, s')"
    by (cases "delete_deployment_history app rid operator s")
  from history_writes [OF r] show ?thesis
  proof (elim disjE exE conjE)
    fix q f assume w: "core s' = delete_run app rid (update_tasks q f (core s))" "release_seq s' = release_seq s"
      "unit_release_seq s' = unit_release_seq s"
    have "rt_release ` set (modify (\<lambda>t. rt_last_run t = Some rid) (\<lambda>t. t\<lparr>rt_last_run := None\<rparr>) ts) \<subseteq> rt_release ` set ts"
      for ts :: "runtime_row list" by (auto simp: set_modify)
    then have "uses_fewer (core s) (core s')" unfolding w
      by (intro uses_fewer_parts) (auto simp: delete_run_def results_named_def snapshots_def)
    then show ?thesis using inv_fewer [OF inv] w r by (simp add: delete_run_def)
  qed (use inv r in simp)
qed

lemma snapshot_writes:
  assumes "delete_deployment_snapshot now rid operator s = (r, s')"
  shows "s' = s \<and> (\<exists>e. r = Inl e) \<or> (\<exists>row. row \<in> set (runs (core s)) \<and> run_id row = rid \<and> \<not> active_run (run_status row) \<and>
     core s' = update_runs (\<lambda>r. run_id r = rid) (\<lambda>r. r\<lparr> run_plan_json := [123, 125], run_plan_hash := [],
                   run_snapshot := SnapshotDeleted, run_snapshot_deleted := Some now \<rparr>)
          (update_results (\<lambda>x. res_run x = rid) (\<lambda>x. x\<lparr>res_release := None\<rparr>) (core s)) \<and>
     release_seq s' = release_seq s \<and> unit_release_seq s' = unit_release_seq s \<and> counters s' = counters s)"
proof (cases "delete_snapshot_tx now rid operator" s rule: transaction_cases)
  case (committed x s2)
  from committed(1) obtain row where row: "find (\<lambda>r. run_id r = rid \<and> run_snapshot r = SnapshotActive) (runs (core s)) = Some row"
    "\<not> active_run (run_status row)"
    by (auto simp: delete_snapshot_tx_def split: option.splits if_splits)
  then show ?thesis using assms committed find_SomeD [OF row(1)]
    by (auto simp: delete_deployment_snapshot_def delete_snapshot_tx_def Let_def)
qed (use assms in \<open>auto simp: delete_deployment_snapshot_def\<close>)

lemma clearing_keeps: "store_inv s \<Longrightarrow> store_inv (snd (delete_deployment_snapshot now rid operator s))"
proof -
  assume inv: "store_inv s"
  obtain r s' where r: "delete_deployment_snapshot now rid operator s = (r, s')"
    by (cases "delete_deployment_snapshot now rid operator s")
  from snapshot_writes [OF r] show ?thesis
  proof (elim disjE exE conjE)
    let ?g = "\<lambda>r :: run_row. r\<lparr> run_plan_json := [123, 125], run_plan_hash := [],
                   run_snapshot := SnapshotDeleted, run_snapshot_deleted := Some now \<rparr>"
    assume w: "core s' = update_runs (\<lambda>r. run_id r = rid) ?g
          (update_results (\<lambda>x. res_run x = rid) (\<lambda>x. x\<lparr>res_release := None\<rparr>) (core s))"
      "release_seq s' = release_seq s" "unit_release_seq s' = unit_release_seq s"
    have "\<exists>y \<in> set (results_named (core s)). fst y = fst x \<and> (snd x = None \<or> snd y = snd x)"
      if "x \<in> set (results_named (core s'))" for x
      using that by (auto simp: w results_named_def set_modify split: if_splits)
    moreover have "\<exists>y \<in> set (snapshots (core s)). fst y = fst x \<and> (snd x = SnapshotActive \<longrightarrow> snd y = SnapshotActive)"
      if "x \<in> set (snapshots (core s'))" for x
      using that by (auto simp: w snapshots_def set_modify split: if_splits)
    ultimately have "uses_fewer (core s) (core s')"
      unfolding uses_fewer_def by (auto simp: w)
    then show ?thesis using inv_fewer [OF inv] w r by simp
  qed (use inv r in simp)
qed

lemma used_same_runs:
  assumes "runs_same d d'"
  shows "used_by_releases d' = used_by_releases d" "used_by_snapshots d' = used_by_snapshots d" "available d' = available d"
  using assms by (simp_all add: runs_same_def releases_same_def used_by_releases_def used_by_snapshots_def available_def)

lemma ids_in_range_runs:
  assumes "runs_same (core s) d'" and "ids_in_range s"
  shows "ids_in_range (s\<lparr>core := d'\<rparr>)"
  using assms by (simp add: runs_same_def releases_same_def ids_in_range_def)

lemma persisting_keeps:
  assumes inv: "store_inv s" and "from_plan (core s) (CallPersist now rid task sid environment nodes item oc)"
  shows "store_inv (s\<lparr>core := persist_unit_outcome now rid task sid environment nodes item oc (core s)\<rparr>)"
proof -
  define d' where "d' = persist_unit_outcome now rid task sid environment nodes item oc (core s)"
  have same: "runs_same (core s) d'" using persist_frame(1) [OF d'_def] .
  have "i \<in> available (core s)" if i: "i \<in> used_by_runtimes d'" for i
  proof -
    from i obtain t where t: "t \<in> set (runtimes d')" "rt_release t = Some i" by (auto simp: used_by_runtimes_def)
    from persist_frame(2) [OF d'_def t(1)] t(2)
    have "t \<in> set (runtimes (core s)) \<or> item_release_id item = Some i" by auto
    then have "i \<in> used (core s)"
      using assms(2) t(2) by (force simp: used_def used_by_runtimes_def used_by_snapshots_def)
    then show ?thesis using inv by (auto simp: store_inv_def)
  qed
  then have "used d' \<subseteq> available d'" using inv used_same_runs [OF same] by (auto simp: store_inv_def used_def)
  then show ?thesis using inv same ids_in_range_runs [OF same]
    by (simp add: store_inv_def d'_def [symmetric] runs_same_def releases_same_def)
qed

lemma planning_keeps:
  assumes inv: "store_inv s"
  shows "store_inv (s\<lparr>core := snd (create_run env inp (core s))\<rparr>)"
proof -
  define d' where "d' = snd (create_run env inp (core s))"
  from create_run_frame [OF d'_def] show ?thesis
  proof (elim disjE exE conjE)
    assume "d' = core s"
    then show ?thesis using inv by (simp add: d'_def [symmetric])
  next
    fix plan rid assume p: "load_deployment_plan env (core s) (ci_environment inp) (ci_release inp) (ci_mode inp) = Inr plan"
      and w: "rid = run_seq (core s) + 1" "run_seq d' = rid" "releases_same (core s) d'" "runtimes d' = runtimes (core s)"
        "snapshots d' = snapshots (core s) @ [(rid, SnapshotActive)]"
        "results_named d' = results_named (core s) @ map (\<lambda>i. (rid, item_release_id i)) (plan_items plan)"
    have new: "rid \<notin> fst ` set (results_named (core s))"
      using inv w(1) by (force simp: store_inv_def ids_in_range_def)
    have item: "i \<in> used_by_releases (core s)" if "x \<in> set (plan_items plan)" "item_release_id x = Some i" for x i
      using plan_items_named [OF p that(1)] that(2) unfolding used_by_releases_def by force
    have snap: "used_by_snapshots d' \<subseteq> used_by_snapshots (core s) \<union> used_by_releases (core s)"
    proof
      fix i assume "i \<in> used_by_snapshots d'"
      then obtain r where r: "(r, Some i) \<in> set (results_named d')" "(r, SnapshotActive) \<in> set (snapshots d')"
        by (auto simp: used_by_snapshots_def)
      show "i \<in> used_by_snapshots (core s) \<union> used_by_releases (core s)"
      proof (cases "(r, Some i) \<in> set (results_named (core s))")
        case True
        then have "r \<noteq> rid" using new by force
        then show ?thesis using True r(2) w(5) by (auto simp: used_by_snapshots_def)
      next
        case False
        then show ?thesis using r(1) item unfolding w(6) by (auto simp: eq_commute)
      qed
    qed
    have rel: "used_by_releases d' = used_by_releases (core s)" "available d' = available (core s)"
      "used_by_runtimes d' = used_by_runtimes (core s)"
      using w(3,4) by (simp_all add: releases_same_def used_by_releases_def available_def used_by_runtimes_def)
    have sub: "used (core s) \<subseteq> available (core s)" using inv by (simp add: store_inv_def)
    have "used d' \<subseteq> available d'" using snap sub unfolding used_def rel by blast
    moreover have "ids_in_range (s\<lparr>core := d'\<rparr>)"
      using inv w by (auto simp: store_inv_def ids_in_range_def releases_same_def)
    ultimately show ?thesis using inv w(3) by (simp add: store_inv_def d'_def [symmetric] releases_same_def)
  qed
qed

lemma same_apart_keeps:
  assumes "store_inv s" and "same_apart (core s) (core s')" and "release_seq s \<le> release_seq s'"
    and "unit_release_seq s' = unit_release_seq s"
  shows "store_inv s'"
  using assms by (intro inv_fewer [OF assms(1) same_apart_fewer])
    (simp_all add: same_apart_def runs_same_def releases_same_def)

lemma deploying_keeps:
  assumes "store_inv s" and "from_plan (core s) c"
  shows "store_inv (s\<lparr>core := perform env c (core s)\<rparr>)"
proof (cases c)
  case (CallCreate inp)
  then show ?thesis using planning_keeps [OF assms(1)] by simp
next
  case (CallPersist now rid task sid environment nodes item oc)
  then show ?thesis using persisting_keeps [OF assms(1)] assms(2) by simp
qed (rule same_apart_keeps [OF assms(1)]; simp add: apart_claim apart_cancel apart_start_unit apart_close
      apart_finalize apart_reconcile apart_confirm apart_fail)+

lemma store_step_keeps: "store_step C env s s' \<Longrightarrow> store_inv s \<Longrightarrow> store_inv s'"
proof (induction rule: store_step.induct)
  case (elsewhere s s')
  then show ?case using same_apart_keeps by (simp add: other_step_def)
qed (simp_all add: registering_keeps creating_keeps archiving_keeps deleting_keeps claiming_keeps ending_keeps
    forgetting_keeps clearing_keeps deploying_keeps)

lemma store_steps_keep: "(store_step C env)\<^sup>*\<^sup>* s s' \<Longrightarrow> store_inv s \<Longrightarrow> store_inv s'"
  by (induction rule: rtranclp_induct) (auto intro: store_step_keeps)

section \<open>What needs an artifact always has it\<close>

lemma store_inv_start:
  assumes "unit_releases (core s) = []" "manifests (core s) = []" "release_units (core s) = []"
    "runs (core s) = []" "results (core s) = []" "runtimes (core s) = []"
  shows "store_inv s"
  using assms by (simp add: store_inv_def used_def used_by_releases_def used_by_snapshots_def used_by_runtimes_def
      ids_in_range_def snapshots_def results_named_def)

lemma used_by_snapshotsI:
  assumes "x \<in> set (results d)" and "r \<in> set (runs d)" and "run_id r = res_run x"
    and "run_snapshot r = SnapshotActive" and "res_release x = Some i"
  shows "i \<in> used_by_snapshots d"
proof -
  have "(res_run x, Some i) \<in> set (results_named d)" using assms(1,5) by (force simp: results_named_def)
  moreover have "(res_run x, SnapshotActive) \<in> set (snapshots d)" using assms(2-4) by (force simp: snapshots_def)
  ultimately show ?thesis by (auto simp: used_by_snapshots_def)
qed

lemma store_inv_used: "store_inv s \<Longrightarrow> i \<in> used (core s) \<Longrightarrow>
    \<exists>u \<in> set (unit_releases (core s)). ur_id u = i \<and> ur_artifact u = ArtifactActive"
  by (auto simp: store_inv_def available_def)

text \<open>
  C35. What needs an artifact has it: however releases are made, archived and deleted, artifacts
  cleaned up, histories and snapshots deleted and runs executed, every release of a unit that a
  live release names, that a run with a kept snapshot names, or that a node runs, has an
  artifact that is neither deleted nor being deleted.
\<close>

theorem needed_artifacts_are_available:
  assumes "(store_step C env)\<^sup>*\<^sup>* s0 s"
    and "unit_releases (core s0) = []" "manifests (core s0) = []" "release_units (core s0) = []"
    and "runs (core s0) = []" "results (core s0) = []" "runtimes (core s0) = []"
  shows "(\<forall>u \<in> set (release_units (core s)). \<forall>m \<in> set (manifests (core s)). \<forall>i.
       man_release m = ru_release u \<and> man_status m \<noteq> lit ''deleted'' \<and> ru_unit_release u = Some i \<longrightarrow> (\<exists>a \<in> set (unit_releases (core s)). ur_id a = i \<and> ur_artifact a = ArtifactActive)) \<and>
     (\<forall>x \<in> set (results (core s)). \<forall>r \<in> set (runs (core s)). \<forall>i.
       run_id r = res_run x \<and> run_snapshot r = SnapshotActive \<and> res_release x = Some i \<longrightarrow> (\<exists>a \<in> set (unit_releases (core s)). ur_id a = i \<and> ur_artifact a = ArtifactActive)) \<and>
     (\<forall>t \<in> set (runtimes (core s)). \<forall>i. rt_release t = Some i \<longrightarrow> (\<exists>a \<in> set (unit_releases (core s)). ur_id a = i \<and> ur_artifact a = ArtifactActive))"
proof -
  have inv: "store_inv s" by (rule store_steps_keep [OF assms(1) store_inv_start [OF assms(2-7)]])
  have "i \<in> used (core s)" if "u \<in> set (release_units (core s))" "m \<in> set (manifests (core s))" "man_release m = ru_release u"
      "man_status m \<noteq> lit ''deleted''" "ru_unit_release u = Some i" for u m i
    using that unfolding used_def used_by_releases_def by blast
  moreover have "i \<in> used (core s)" if "x \<in> set (results (core s))" "r \<in> set (runs (core s))" "run_id r = res_run x"
      "run_snapshot r = SnapshotActive" "res_release x = Some i" for x r i
    using used_by_snapshotsI [OF that] by (simp add: used_def)
  moreover have "i \<in> used (core s)" if "t \<in> set (runtimes (core s))" "rt_release t = Some i" for t i
    using that by (force simp: used_def used_by_runtimes_def)
  ultimately show ?thesis using store_inv_used [OF inv] by blast
qed

section \<open>What has been claimed is never needed again\<close>

definition given_up :: "int \<Rightarrow> store \<Rightarrow> bool" where
  "given_up i s \<longleftrightarrow> i \<in> ur_id ` set (unit_releases (core s)) \<and>
     (\<forall>u \<in> set (unit_releases (core s)). ur_id u = i \<longrightarrow> ur_artifact u \<noteq> ArtifactActive)"

lemma image_modify: "(\<And>u. p u \<Longrightarrow> g (f u) = g u) \<Longrightarrow> g ` set (modify p f xs) = g ` set xs"
  using map_modify [of p g f xs] by (metis set_map)

lemma claiming_gives_up:
  assumes "begin_cleanup i operator s = (Inr t, s')"
  shows "given_up i s'"
proof -
  obtain r where r: "find (\<lambda>r. ur_id r = i) (unit_releases (core s)) = Some r"
    using assms by (cases i operator s rule: begin_cleanup_cases)
      (auto simp: artifact_cleanup_preview_def Let_def split: option.splits)
  have "s' = snd (begin_cleanup i operator s)" using assms by simp
  then have "unit_releases (core s') = modify (\<lambda>r. ur_id r = i)
      (\<lambda>r. r\<lparr>ur_artifact := ArtifactDeleting, ur_cleanup_error := []\<rparr>) (unit_releases (core s))"
    by (cases i operator s rule: begin_cleanup_cases) (use assms in auto)
  moreover have "i \<in> ur_id ` set (unit_releases (core s))" using find_SomeD [OF r] by blast
  ultimately show ?thesis by (simp add: given_up_def image_modify) (auto simp: set_modify)
qed

text \<open>How a step changes the releases of units: not at all, one by one, or by one row more.\<close>

lemma same_apart_releases: "same_apart d d' \<Longrightarrow> releases_same d d'"
  by (simp add: same_apart_def runs_same_def)

lemma store_step_artifacts:
  assumes "store_step C env s s'"
  shows "unit_releases (core s') = unit_releases (core s) \<or>
     (\<exists>p f. unit_releases (core s') = modify p f (unit_releases (core s)) \<and>
       (\<forall>u. ur_id (f u) = ur_id u \<and> ur_unit (f u) = ur_unit u \<and> ur_version (f u) = ur_version u \<and>
          ur_code (f u) = ur_code u \<and> ur_checksum (f u) = ur_checksum u \<and> ur_artifact (f u) \<noteq> ArtifactActive)) \<or>
     (\<exists>inp code. unit_releases (core s') = unit_releases (core s) @ [new_unit_release inp (unit_release_seq s + 1) code])"
  using assms
proof cases
  case (registering inp)
  obtain r where "register_unit_release inp s = (r, s')" using registering by (cases "register_unit_release inp s") simp
  from register_writes [OF this] show ?thesis
  proof (elim disjE exE conjE)
    fix code cs assume "s' = s\<lparr> counters := cs, core := (core s)\<lparr>unit_releases := unit_releases (core s) @
             [new_unit_release inp (unit_release_seq s + 1) code]\<rparr>, unit_release_seq := unit_release_seq s + 1 \<rparr>"
    then show ?thesis by (intro disjI2 exI [of _ inp] exI [of _ code]) simp
  qed simp
next
  case (creating cin)
  obtain r where "create_application_release C cin s = (r, s')" using creating by (cases "create_application_release C cin s") simp
  from create_writes [OF this] show ?thesis by (auto dest!: insert_release_writes(9))
next
  case (archiving now app release operator)
  have "unit_releases (core (snd (archive_application_release now app release operator s))) = unit_releases (core s)"
    unfolding archive_application_release_def
    by (cases "archive_tx now app release operator" s rule: transaction_cases)
       (auto simp: archive_tx_def Let_def split: sum.splits if_splits)
  then show ?thesis using archiving by simp
next
  case (deleting app release operator)
  obtain r where "delete_application_release app release operator s = (r, s')"
    using deleting by (cases "delete_application_release app release operator s") simp
  from delete_release_writes [OF this] show ?thesis by (auto simp: drop_release_def)
next
  case (claiming i operator)
  then show ?thesis
  proof (cases i operator s rule: begin_cleanup_cases)
    case (claimed p t)
    then show ?thesis using claiming
      by (intro disjI2 disjI1 exI [of _ "\<lambda>r. ur_id r = i"]
          exI [of _ "\<lambda>r. r\<lparr>ur_artifact := ArtifactDeleting, ur_cleanup_error := []\<rparr>"]) simp
  qed simp
next
  case (ending i operator answer)
  show ?thesis
  proof (cases answer)
    case None
    show ?thesis unfolding ending None
      by (intro disjI2 disjI1 exI [of _ "\<lambda>r. ur_id r = i \<and> ur_artifact r = ArtifactDeleting"]
          exI [of _ "\<lambda>r. r\<lparr> ur_artifact := ArtifactDeleted, ur_cleanup_error := [], ur_package_path := [],
                ur_extract_dir := [], ur_bucket := [], ur_object_key := [], ur_endpoint := [], ur_object_version := [] \<rparr>"])
         (simp add: end_cleanup_def Let_def)
  next
    case (Some msg)
    show ?thesis unfolding ending Some
      by (intro disjI2 disjI1 exI [of _ "\<lambda>r. ur_id r = i \<and> ur_artifact r = ArtifactDeleting"]
          exI [of _ "\<lambda>r. r\<lparr>ur_artifact := ArtifactDeleteFailed, ur_cleanup_error := truncate_cleanup_error msg\<rparr>"])
         (simp add: end_cleanup_def Let_def)
  qed
next
  case (forgetting app rid operator)
  obtain r where "delete_deployment_history app rid operator s = (r, s')"
    using forgetting by (cases "delete_deployment_history app rid operator s") simp
  from history_writes [OF this] show ?thesis by (auto simp: delete_run_def)
next
  case (clearing now rid operator)
  obtain r where "delete_deployment_snapshot now rid operator s = (r, s')"
    using clearing by (cases "delete_deployment_snapshot now rid operator s") simp
  from snapshot_writes [OF this] show ?thesis by auto
next
  case (deploying c)
  have "releases_same (core s) (perform env c (core s))"
  proof (cases c)
    case (CallCreate inp)
    then show ?thesis using create_run_frame [where d = "core s", OF refl, of env inp] by (auto simp: releases_same_def)
  next
    case (CallPersist now rid task sid environment nodes item oc)
    then show ?thesis using persist_frame(1) [OF refl]
      by (simp add: runs_same_def)
  qed (rule same_apart_releases; simp add: apart_claim apart_cancel apart_start_unit apart_close apart_finalize
      apart_reconcile apart_confirm apart_fail)+
  then show ?thesis using deploying by (simp add: releases_same_def)
next
  case elsewhere
  then show ?thesis by (simp add: other_step_def same_apart_def runs_same_def releases_same_def)
qed

lemma given_up_step: "store_step C env s s' \<Longrightarrow> store_inv s \<Longrightarrow> given_up i s \<Longrightarrow> given_up i s'"
proof -
  assume st: "store_step C env s s'" and inv: "store_inv s" and g: "given_up i s"
  have "i \<le> unit_release_seq s" using inv g by (auto simp: store_inv_def ids_in_range_def given_up_def)
  with store_step_artifacts [OF st] show ?thesis
  proof (elim disjE exE conjE)
    fix p f assume u: "unit_releases (core s') = modify p f (unit_releases (core s))"
      and f: "\<forall>u. ur_id (f u) = ur_id u \<and> ur_unit (f u) = ur_unit u \<and> ur_version (f u) = ur_version u \<and>
          ur_code (f u) = ur_code u \<and> ur_checksum (f u) = ur_checksum u \<and> ur_artifact (f u) \<noteq> ArtifactActive"
    have "ur_id ` set (unit_releases (core s')) = ur_id ` set (unit_releases (core s))"
      unfolding u by (rule image_modify) (simp add: f)
    then show ?thesis using g f by (auto simp: given_up_def u set_modify)
  qed (use g in \<open>auto simp: given_up_def new_unit_release_def\<close>)
qed

lemma given_up_unused: "store_inv s \<Longrightarrow> given_up i s \<Longrightarrow> i \<notin> used (core s)"
  by (auto simp: store_inv_def available_def given_up_def)

lemma given_up_steps: "(store_step C env)\<^sup>*\<^sup>* s s' \<Longrightarrow> store_inv s \<Longrightarrow> given_up i s \<Longrightarrow> store_inv s' \<and> given_up i s'"
  by (induction rule: rtranclp_induct) (auto intro: store_step_keeps given_up_step)

text \<open>
  C36. An artifact is only claimed for deletion when nothing needs it, and nothing will ever need
  it again: in no later state does a live release name it, nor a run whose snapshot is kept, nor
  does a node run it. So the store may delete it whenever it comes to it.
\<close>

theorem claimed_artifact_is_never_needed_again:
  assumes "(store_step C env)\<^sup>*\<^sup>* s0 s"
    and "unit_releases (core s0) = []" "manifests (core s0) = []" "release_units (core s0) = []"
    and "runs (core s0) = []" "results (core s0) = []" "runtimes (core s0) = []"
    and "begin_cleanup i operator s = (Inr target, s1)" and "(store_step C env)\<^sup>*\<^sup>* s1 s2"
  shows "(\<forall>u \<in> set (release_units (core s2)). \<forall>m \<in> set (manifests (core s2)).
       man_release m = ru_release u \<and> ru_unit_release u = Some i \<longrightarrow> man_status m = lit ''deleted'') \<and>
     (\<forall>x \<in> set (results (core s2)). \<forall>r \<in> set (runs (core s2)).
       run_id r = res_run x \<and> res_release x = Some i \<longrightarrow> run_snapshot r \<noteq> SnapshotActive) \<and>
     (\<forall>t \<in> set (runtimes (core s2)). rt_release t \<noteq> Some i)"
proof -
  have inv: "store_inv s" by (rule store_steps_keep [OF assms(1) store_inv_start [OF assms(2-7)]])
  have "store_inv s1" using claiming_keeps [OF inv, of i operator] assms(8) by simp
  then have "i \<notin> used (core s2)"
    using given_up_steps [OF assms(9) _ claiming_gives_up [OF assms(8)]] given_up_unused by blast
  then show ?thesis unfolding used_def Un_iff de_Morgan_disj
    by (auto simp: used_by_releases_def used_by_runtimes_def image_iff dest: used_by_snapshotsI)
qed

end
