(* ===== verification/Release_Properties.thy ===== *)
theory Release_Properties
  imports Artifact_Safety
begin

text \<open>
Version codes, registered versions, what a created release consists of, and that it can be
  planned by the orchestrator.
\<close>

section \<open>Version codes are never given out twice\<close>





section \<open>A registered version is fixed\<close>

definition registration :: "unit_release_row \<Rightarrow> (int \<times> ustr) \<times> (int \<times> int \<times> ustr)" where
  "registration r = ((ur_unit r, ur_version r), (ur_id r, ur_code r, ur_checksum r))"

definition registrations :: "db \<Rightarrow> ((int \<times> ustr) \<times> (int \<times> int \<times> ustr)) list" where
  "registrations d = map registration (unit_releases d)"

lemma find_registered:
  "map_option (snd \<circ> registration) (find (\<lambda>r. ur_unit r = unit \<and> ur_version r = version) (unit_releases d))
     = map_of (registrations d) (unit, version)"

proof -
  have "map_option (snd \<circ> registration) (find (\<lambda>r. ur_unit r = unit \<and> ur_version r = version) rs)
     = map_of (map registration rs) (unit, version)" for rs
    by (induction rs) (auto simp: registration_def)
  then show ?thesis by (simp add: registrations_def)
qed

lemma store_step_registrations:
  assumes "store_step C env s s'"
  shows "\<exists>more. registrations (core s') = registrations (core s) @ more"
  using store_step_artifacts [OF assms]
proof (elim disjE exE conjE)
  fix p f assume u: "unit_releases (core s') = modify p f (unit_releases (core s))"
    and f: "\<forall>u. ur_id (f u) = ur_id u \<and> ur_unit (f u) = ur_unit u \<and> ur_version (f u) = ur_version u \<and>
          ur_code (f u) = ur_code u \<and> ur_checksum (f u) = ur_checksum u \<and> ur_artifact (f u) \<noteq> ArtifactActive"
  have "registrations (core s') = registrations (core s)"
    unfolding registrations_def u by (rule map_modify) (simp add: registration_def f)
  then show ?thesis by simp
qed (simp_all add: registrations_def)

lemma store_steps_registrations:
  "(store_step C env)\<^sup>*\<^sup>* s s' \<Longrightarrow> \<exists>more. registrations (core s') = registrations (core s) @ more"
  by (induction rule: rtranclp_induct) (auto dest!: store_step_registrations)

lemma register_registered:
  assumes "register_unit_release inp s = (Inr x, s')"
  shows "map_of (registrations (core s')) (ri_unit inp, ri_version inp) = Some (ux_release x, ux_code x, ri_checksum inp) \<and>
     ux_unit x = ri_unit inp \<and> ux_version x = ri_version inp \<and> ux_checksum x = ri_checksum inp"
proof -
  let ?find = "find (\<lambda>r. ur_unit r = ri_unit inp \<and> ur_version r = ri_version inp) (unit_releases (core s))"
  have tx: "register_tx inp s = (Inr x, s')"
    using assms by (auto simp: register_unit_release_def transaction_Inr split: sum.splits)
  show ?thesis
  proof (cases ?find)
    case (Some r)
    then have "ur_checksum r = ri_checksum inp" "s' = s" "x = \<lparr> ux_release = ur_id r, ux_unit = ri_unit inp,
        ux_version = ri_version inp, ux_code = ur_code r, ux_checksum = ur_checksum r \<rparr>"
      using tx by (auto simp: register_tx_def split: if_splits)
    then show ?thesis using find_registered [of "ri_unit inp" "ri_version inp" "core s"] Some
      by (simp add: registration_def)
  next
    case None
    then have none: "map_of (registrations (core s)) (ri_unit inp, ri_version inp) = None"
      using find_registered [of "ri_unit inp" "ri_version inp" "core s"] by simp
    obtain code s1 where al: "allocate_version_code UnitScope (ri_unit inp) s = (code, s1)"
      by (cases "allocate_version_code UnitScope (ri_unit inp) s")
    have "core s1 = core s" using arg_cong [OF allocate_frame(2) [OF al], of core] by simp
    with tx None al have "core s' = (core s)\<lparr>unit_releases := unit_releases (core s) @
          [new_unit_release inp (unit_release_seq s1 + 1) code]\<rparr>"
        "x = \<lparr> ux_release = unit_release_seq s1 + 1, ux_unit = ri_unit inp, ux_version = ri_version inp,
                  ux_code = code, ux_checksum = ri_checksum inp \<rparr>"
      by (auto simp: register_tx_def Let_def split: if_splits)
    then show ?thesis using none
      by (simp add: registrations_def map_add_def registration_def new_unit_release_def)
  qed
qed

text \<open>
  C40. A registered version of a unit is fixed: registering it again at any later time gives the
  same answer and changes nothing, and registering it with another checksum is refused as a
  conflict and changes nothing.
\<close>

theorem registered_version_is_fixed:
  assumes "register_unit_release inp s = (Inr x, s1)" and "(store_step C env)\<^sup>*\<^sup>* s1 s2"
    and "\<exists>u \<in> set (units (core s2)). unit_id u = ri_unit again"
    and "ri_unit again = ri_unit inp" and "ri_version again = ri_version inp"
    and "validate_checksum (ri_checksum again) = Inr ()" and "validate_unit_release_input again = Inr ()"
  shows "register_unit_release again s2 =
     (if ri_checksum again = ri_checksum inp then Inr x else Inl (ReleaseConflict ChecksumDiffers), s2)"
proof -
  note r = register_registered [OF assms(1)]
  obtain more where "registrations (core s2) = registrations (core s1) @ more"
    using store_steps_registrations [OF assms(2)] by blast
  then have "map_of (registrations (core s2)) (ri_unit inp, ri_version inp) = Some (ux_release x, ux_code x, ri_checksum inp)"
    using r by (simp add: map_add_def)
  then obtain row where row: "find (\<lambda>r. ur_unit r = ri_unit inp \<and> ur_version r = ri_version inp) (unit_releases (core s2)) = Some row"
      "ur_id row = ux_release x" "ur_code row = ux_code x" "ur_checksum row = ri_checksum inp"
    unfolding find_registered [symmetric] by (auto simp: registration_def)
  have "validate_version (ri_version inp) = Inr ()"
    using assms(1) by (auto simp: register_unit_release_def split: sum.splits)
  moreover have "register_tx again s2 =
      (if ri_checksum again = ri_checksum inp then Inr x else Inl (ReleaseConflict ChecksumDiffers), s2)"
    using assms(3) row r by (cases x) (simp add: register_tx_def assms(4,5))
  ultimately show ?thesis using assms(5-7)
    by (simp add: register_unit_release_def transaction_def)
qed

section \<open>A release resolves every unit\<close>

lemma unit_links_ne: "unit_links s unit \<noteq> []"
  by (simp add: unit_links_def split: list.split)

lemma configured_unit_ids:
  "set (map cu_unit (configured_units s app)) = unit_id ` {u \<in> set (units (core s)). unit_app u = app}"
proof
  show "set (map cu_unit (configured_units s app)) \<subseteq> unit_id ` {u \<in> set (units (core s)). unit_app u = app}"
    by (auto simp: configured_units_def split: if_splits)
  show "unit_id ` {u \<in> set (units (core s)). unit_app u = app} \<subseteq> set (map cu_unit (configured_units s app))"
  proof
    fix i assume "i \<in> unit_id ` {u \<in> set (units (core s)). unit_app u = app}"
    then obtain u where u: "u \<in> set (units (core s))" "unit_app u = app" "i = unit_id u" by blast
    obtain l where l: "l \<in> set (unit_links s (unit_id u))" using unit_links_ne [of s "unit_id u"] by (meson list.set_sel(1))
    define c where "c = \<lparr> cu_unit = unit_id u,
        cu_stage = Option.bind l (\<lambda>l. map_option sg_no (find (\<lambda>g. sg_id g = lk_stage l) (stages s))),
        cu_order = map_option lk_order l, cu_removal = map_option lk_removal l \<rparr>"
    have "c \<in> set (configured_units s app)"
      unfolding configured_units_def set_sort using u l c_def by auto
    moreover have "cu_unit c = i" by (simp add: c_def u(3))
    ultimately show "i \<in> set (map cu_unit (configured_units s app))" by force
  qed
qed

lemma resolved_entries:
  assumes "apply_changes C s configured changes ([], inherited_units s base) = Inr (changed', entries)"
  shows "btree_ok entries" and "(k, u) \<in> set entries \<Longrightarrow> mu_unit u = k"
    and "c \<in> set changes \<Longrightarrow> \<exists>u. (ch_unit c, u) \<in> set entries \<and> unit_changed s c u"
    and "(k, u) \<in> set entries \<Longrightarrow> k \<notin> ch_unit ` set changes \<Longrightarrow>
       \<exists>r \<in> set (release_units (core s)). base = Some (ru_release r) \<and> u = manifest_unit_of r"
proof -
  have inh: "btree_ok (inherited_units s base)"
    by (cases base) (simp_all add: inherited_units_def load_ok, simp add: btree_ok_def)
  note ac = apply_changes_Inr [OF assms inh]
  show ok: "btree_ok entries" using ac by blast
  show 3: "\<exists>u. (ch_unit c, u) \<in> set entries \<and> unit_changed s c u" if "c \<in> set changes" for c
    using ac that map_of_entry [OF ok] by blast
  show 4: "\<exists>r \<in> set (release_units (core s)). base = Some (ru_release r) \<and> u = manifest_unit_of r"
    if "(k, u) \<in> set entries" "k \<notin> ch_unit ` set changes" for k u
  proof -
    have "map_of (inherited_units s base) k = Some u" using ac that map_of_entry [OF ok] by metis
    then obtain b where "base = Some b" "(k, u) \<in> set (load_manifest_units s b)"
      using inh by (cases base) (auto simp: inherited_units_def map_of_entry)
    then show ?thesis using load_manifest_units_in by blast
  qed
  show "mu_unit u = k" if "(k, u) \<in> set entries"
  proof (cases "k \<in> ch_unit ` set changes")
    case True
    then obtain c where c: "c \<in> set changes" "k = ch_unit c" by blast
    from 3 [OF c(1)] obtain u' where "(k, u') \<in> set entries" "unit_changed s c u'" using c(2) by blast
    moreover have "u' = u" using calculation(1) that map_of_entry [OF ok] by (metis option.inject)
    ultimately show ?thesis using c(2) by (simp add: unit_changed_def)
  next
    case False
    have "map_of (inherited_units s base) k = Some u" using ac that False map_of_entry [OF ok] by metis
    then obtain b where "base = Some b" "(k, u) \<in> set (load_manifest_units s b)"
      using inh by (cases base) (auto simp: inherited_units_def map_of_entry)
    then show ?thesis using load_manifest_units_in by (fastforce simp: manifest_unit_of_def)
  qed
qed

lemma resolved_configs:
  assumes "apply_selections s app sel ([], inherited_configs s base) = Inr (changed', configs)"
  shows "btree_ok configs" and "(e, v) \<in> set sel \<Longrightarrow> (e, v) \<in> set configs \<and> ensure_environment_config s app e v = Inr ()"
    and "(e, v) \<in> set configs \<Longrightarrow> e \<notin> fst ` set sel \<Longrightarrow>
       \<exists>r \<in> set (selections (core s)). base = Some (sel_release r) \<and> e = sel_env r \<and> v = sel_config r"
proof -
  have inh: "btree_ok (inherited_configs s base)"
    by (cases base) (simp_all add: inherited_configs_def load_ok, simp add: btree_ok_def)
  note ac = apply_selections_Inr [OF assms inh]
  show ok: "btree_ok configs" using ac by blast
  show "(e, v) \<in> set configs \<and> ensure_environment_config s app e v = Inr ()" if "(e, v) \<in> set sel"
    using ac that map_of_entry [OF ok] by blast
  show "\<exists>r \<in> set (selections (core s)). base = Some (sel_release r) \<and> e = sel_env r \<and> v = sel_config r"
    if "(e, v) \<in> set configs" "e \<notin> fst ` set sel"
  proof -
    have "map_of (inherited_configs s base) e = Some v" using ac that map_of_entry [OF ok] by metis
    then obtain b where "base = Some b" "(e, v) \<in> set (load_environment_configs s b)"
      using inh by (cases base) (auto simp: inherited_configs_def map_of_entry)
    then show ?thesis using load_environment_configs_in by blast
  qed
qed

text \<open>
  C37. A created release holds exactly the units of its application, each once and in the order of
  the ids: a changed unit as the change says, with a release of that unit whose artifact is there,
  every other unit as the base release has it; and exactly the enabled environments, each with the
  configuration selected or the one of the base release.
\<close>

theorem created_release_resolves_every_unit:
  assumes "create_application_release C inp s = (Inr x, s')"
  shows "sorted (map mu_unit (rx_units x)) \<and> distinct (map mu_unit (rx_units x)) \<and>
     set (map mu_unit (rx_units x)) = unit_id ` {u \<in> set (units (core s)). unit_app u = cx_app inp} \<and>
     (\<forall>c \<in> set (cx_units inp). \<exists>u \<in> set (rx_units x). unit_changed s c u) \<and>
     (\<forall>u \<in> set (rx_units x). mu_unit u \<notin> ch_unit ` set (cx_units inp) \<longrightarrow>
        (\<exists>r \<in> set (release_units (core s)). cx_base inp = Some (ru_release r) \<and> u = manifest_unit_of r)) \<and>
     distinct (map fst (rx_environments x)) \<and> set (map fst (rx_environments x)) = enabled_environments s (cx_app inp) \<and>
     set (cx_environments inp) \<subseteq> set (rx_environments x) \<and>
     (\<forall>(e, v) \<in> set (rx_environments x). e \<notin> fst ` set (cx_environments inp) \<longrightarrow>
        (\<exists>r \<in> set (selections (core s)). cx_base inp = Some (sel_release r) \<and> e = sel_env r \<and> v = sel_config r)) \<and>
     release_units (core s') = release_units (core s) @ map (release_unit_of (rx_release x)) (rx_units x)"
proof -
  obtain mus configs json where r: "resolve_release C inp s = Inr (mus, configs)"
    and i: "insert_release inp mus configs json (release_sha256 C json) s = (x, s')"
    using create_writes [OF assms] by blast
  note w = insert_release_writes [OF i]
  from r show ?thesis
  proof (rule resolve_release_Inr)
    fix entries changed1 changed2
    assume m: "mus = map snd entries" and a: "apply_changes C s (configured_units s (cx_app inp)) (cx_units inp)
          ([], inherited_units s (cx_base inp)) = Inr (changed1, entries)"
      and keys: "set (map fst entries) = set (map cu_unit (configured_units s (cx_app inp)))"
      and b: "apply_selections s (cx_app inp) (cx_environments inp) ([], inherited_configs s (cx_base inp)) = Inr (changed2, configs)"
      and envs: "set (map fst configs) = enabled_environments s (cx_app inp)"
    note e = resolved_entries [OF a] and c = resolved_configs [OF b]
    have ids: "map mu_unit mus = map fst entries" unfolding m using e(2) by (auto simp: prod.case_eq_if)
    have "sorted (map mu_unit mus) \<and> distinct (map mu_unit mus)" unfolding ids using e(1) by (simp add: btree_ok_def)
    moreover have "set (map mu_unit mus) = unit_id ` {u \<in> set (units (core s)). unit_app u = cx_app inp}"
      unfolding ids keys by (rule configured_unit_ids)
    moreover have "\<forall>c \<in> set (cx_units inp). \<exists>u \<in> set mus. unit_changed s c u" unfolding m using e(3) by force
    moreover have "\<forall>u \<in> set mus. mu_unit u \<notin> ch_unit ` set (cx_units inp) \<longrightarrow>
        (\<exists>r \<in> set (release_units (core s)). cx_base inp = Some (ru_release r) \<and> u = manifest_unit_of r)"
    proof (intro ballI impI)
      fix u assume u: "u \<in> set mus" "mu_unit u \<notin> ch_unit ` set (cx_units inp)"
      then obtain k where "(k, u) \<in> set entries" unfolding m by auto
      then show "\<exists>r \<in> set (release_units (core s)). cx_base inp = Some (ru_release r) \<and> u = manifest_unit_of r"
        using e(4) u(2) e(2) by metis
    qed
    moreover have "distinct (map fst configs)" using c(1) by (simp add: btree_ok_def)
    moreover have "set (cx_environments inp) \<subseteq> set configs" using c(2) by auto
    moreover have "\<forall>(e, v) \<in> set configs. e \<notin> fst ` set (cx_environments inp) \<longrightarrow>
        (\<exists>r \<in> set (selections (core s)). cx_base inp = Some (sel_release r) \<and> e = sel_env r \<and> v = sel_config r)"
      using c(3) by blast
    moreover have "release_units (core s') = release_units (core s) @ map (release_unit_of (rx_release x)) mus"
      unfolding w(9) by simp
    ultimately show ?thesis unfolding w(3,4) using envs by blast
  qed
qed

section \<open>A created release can be deployed\<close>

text \<open>What the constraints of the tables promise of rows that are there before.\<close>

definition release_rows_ok :: "store \<Rightarrow> bool" where
  "release_rows_ok s \<longleftrightarrow>
     (\<forall>r \<in> set (releases (core s)). rel_id r \<le> release_seq s) \<and>
     (\<forall>m \<in> set (manifests (core s)). man_release m \<le> release_seq s) \<and>
     (\<forall>u \<in> set (release_units (core s)). ru_release u \<le> release_seq s \<and>
        ru_desired u \<in> {lit ''active'', lit ''disabled''} \<and> (ru_desired u = lit ''active'' \<longrightarrow> ru_unit_release u \<noteq> None)) \<and>
     (\<forall>x \<in> set (selections (core s)). sel_release x \<le> release_seq s \<and>
        (\<exists>v \<in> set (revisions (core s)). rev_id v = sel_config x \<and>
           (\<forall>e \<in> set (envs (core s)). env_id e = sel_env x \<longrightarrow> rev_app v = env_app e)))"

definition catalog_ok :: "db \<Rightarrow> bool" where
  "catalog_ok d \<longleftrightarrow> distinct (map env_id (envs d)) \<and> distinct (map unit_id (units d)) \<and>
     distinct (map (\<lambda>t. (rt_env t, rt_unit t, rt_node t)) (runtimes d))"

lemma filter_key: "distinct (map g xs) \<Longrightarrow> x \<in> set xs \<Longrightarrow> p x \<Longrightarrow> filter (\<lambda>y. g y = g x \<and> p y) xs = [x]"
proof (induction xs)
  case (Cons y ys)
  show ?case
  proof (cases "x = y")
    case True
    have "filter (\<lambda>z. g z = g x \<and> p z) ys = []" using Cons.prems(1) True by (auto simp: filter_empty_conv image_iff)
    then show ?thesis using True Cons.prems(3) by simp
  next
    case False
    then have "x \<in> set ys" using Cons.prems(2) by simp
    moreover have "g y \<noteq> g x" using Cons.prems(1) calculation by force
    ultimately show ?thesis using Cons by simp
  qed
qed simp

lemma concat_single: "(\<And>x. x \<in> set xs \<Longrightarrow> f x = [h x]) \<Longrightarrow> concat (map f xs) = map h xs"
  by (induction xs) auto

lemma sort_key_map_distinct: "distinct (map g (sort_key f xs)) \<longleftrightarrow> distinct (map g xs)"
  using mset_eq_imp_distinct_iff [of "map g (sort_key f xs)" "map g xs"] by simp

lemma list_comp_filter: "[h y. y \<leftarrow> xs, p y] = map h (filter p xs)"
  by (induction xs) auto

lemma target_ids:
  assumes "distinct (map unit_id (units d))"
    and "\<And>r. r \<in> set (release_units d) \<Longrightarrow> ru_release r = release \<Longrightarrow>
       ru_unit r \<in> unit_id ` {u \<in> set (units d). unit_app u = app}"
  shows "mset (map tgt_unit_id (load_target_units P d release app hash)) =
     mset (map ru_unit (filter (\<lambda>r. ru_release r = release) (release_units d)))"
proof -
  define row where "row r u = \<lparr> tgt_unit_id = unit_id u, tgt_unit_key = unit_key u,
        tgt_release_id = ru_unit_release r,
        tgt_version = map_option ur_version (joined_release d (ru_unit_release r)),
        tgt_version_code = map_option ur_code (joined_release d (ru_unit_release r)),
        tgt_desired_status = ru_desired r, tgt_stage_no = ru_stage r,
        tgt_unit_order = ru_order r, tgt_removal_order = ru_removal r,
        tgt_fingerprint = deployment_target_fingerprint P (ru_fingerprint r) hash \<rparr>" for r :: release_unit_row and u :: unit_row
  let ?rs = "filter (\<lambda>r. ru_release r = release) (release_units d)"
  define xs where "xs = concat (map (\<lambda>r. map (row r) (filter (\<lambda>u. unit_id u = ru_unit r \<and> unit_app u = app) (units d))) ?rs)"
  have "load_target_units P d release app hash = sort_key (\<lambda>t. (tgt_stage_no t, tgt_unit_order t, tgt_unit_id t)) xs"
  proof -
    have "concat (map (\<lambda>ru. if ru_release ru = release then concat (map (\<lambda>u. if unit_id u = ru_unit ru \<and> unit_app u = app
        then [row ru u] else []) (units d)) else []) rs) =
      concat (map (\<lambda>r. map (row r) (filter (\<lambda>u. unit_id u = ru_unit r \<and> unit_app u = app) (units d))) (filter (\<lambda>r. ru_release r = release) rs))"
      for rs by (induction rs) (simp_all add: list_comp_filter)
    then show ?thesis by (simp only: load_target_units_def xs_def row_def)
  qed
  moreover have "map tgt_unit_id xs = map ru_unit ?rs"
  proof -
    have one: "map tgt_unit_id (map (row r) (filter (\<lambda>u. unit_id u = ru_unit r \<and> unit_app u = app) (units d))) = [ru_unit r]"
      if "r \<in> set ?rs" for r
    proof -
      from assms(2) [of r] that obtain u where u: "u \<in> set (units d)" "unit_app u = app" "unit_id u = ru_unit r" by auto
      show ?thesis using filter_key [where p = "\<lambda>u. unit_app u = app", OF assms(1) u(1,2)] u(3) by (simp add: row_def)
    qed
    show ?thesis unfolding xs_def map_concat map_map o_def
      using concat_single [of ?rs "\<lambda>r. map tgt_unit_id (map (row r) (filter (\<lambda>u. unit_id u = ru_unit r \<and> unit_app u = app) (units d)))" ru_unit, OF one]
      by (simp add: o_def)
  qed
  ultimately show ?thesis by (metis mset_map mset_sort)
qed

lemma in_target_units:
  "t \<in> set (load_target_units P d release app hash) \<Longrightarrow> \<exists>r \<in> set (release_units d). ru_release r = release \<and>
     tgt_desired_status t = ru_desired r \<and> tgt_release_id t = ru_unit_release r"
  by (auto simp: load_target_units_def)

lemma unit_states_distinct:
  assumes "distinct (map (\<lambda>t. (rt_env t, rt_unit t, rt_node t)) (runtimes d))"
  shows "distinct (map state_key (load_unit_states d environment))"
proof -
  define row where "row r = \<lparr> cur_unit_id = rt_unit r, cur_node_id = rt_node r, cur_runtime_status = rt_status r,
         cur_release_id = rt_release r, cur_version_code = map_option ur_code (joined_release d (rt_release r)),
         cur_fingerprint = rt_fingerprint r, cur_version_label = rt_label r \<rparr>" for r :: runtime_row
  let ?p = "\<lambda>r. rt_env r = environment \<and> rt_node r \<in> set (environment_nodes d environment)"
  have "load_unit_states d environment = sort_key (\<lambda>s. (cur_unit_id s, cur_node_id s)) (map row (filter ?p (runtimes d)))"
    by (simp add: load_unit_states_def row_def [abs_def] list_comp_filter)
  moreover have "distinct (map (\<lambda>r. (rt_unit r, rt_node r)) (filter ?p rs))"
    if "distinct (map (\<lambda>t. (rt_env t, rt_unit t, rt_node t)) rs)" for rs
    using that by (induction rs) (auto simp: image_iff)
  ultimately show ?thesis using assms
    by (simp add: sort_key_map_distinct o_def row_def state_key_def)
qed

lemma resolved_unit_origin:
  assumes "resolve_release C inp s = Inr (mus, configs)" and "u \<in> set mus"
  shows "(\<exists>c. unit_changed s c u) \<or> (\<exists>r \<in> set (release_units (core s)). u = manifest_unit_of r)"
  using assms(1)
proof (rule resolve_release_Inr)
  fix entries changed1 changed2
  assume m: "mus = map snd entries" and a: "apply_changes C s (configured_units s (cx_app inp)) (cx_units inp)
        ([], inherited_units s (cx_base inp)) = Inr (changed1, entries)"
  obtain k where k: "(k, u) \<in> set entries" using assms(2) m by auto
  show ?thesis
  proof (cases "k \<in> ch_unit ` set (cx_units inp)")
    case True
    then obtain c where c: "c \<in> set (cx_units inp)" "k = ch_unit c" by blast
    from resolved_entries(3) [OF a c(1)] obtain u' where u': "(k, u') \<in> set entries" "unit_changed s c u'"
      using c(2) by blast
    have "u' = u" using u'(1) k map_of_entry [OF resolved_entries(1) [OF a]] by (metis option.inject)
    then show ?thesis using u'(2) by blast
  next
    case False
    then show ?thesis using resolved_entries(4) [OF a k] by blast
  qed
qed

lemma resolved_config_origin:
  assumes "resolve_release C inp s = Inr (mus, configs)" and "(e, v) \<in> set configs"
  shows "ensure_environment_config s (cx_app inp) e v = Inr () \<or>
     (\<exists>r \<in> set (selections (core s)). e = sel_env r \<and> v = sel_config r)"
  using assms(1)
proof (rule resolve_release_Inr)
  fix changed2
  assume b: "apply_selections s (cx_app inp) (cx_environments inp) ([], inherited_configs s (cx_base inp)) = Inr (changed2, configs)"
  show ?thesis
  proof (cases "e \<in> fst ` set (cx_environments inp)")
    case True
    then obtain v' where v': "(e, v') \<in> set (cx_environments inp)" by auto
    note c = resolved_configs(2) [OF b v']
    have "v' = v" using c assms(2) map_of_entry [OF resolved_configs(1) [OF b]] by (metis option.inject)
    then show ?thesis using c by blast
  next
    case False
    then show ?thesis using resolved_configs(3) [OF b assms(2)] by blast
  qed
qed

lemma resolved_unit_valid:
  assumes "resolve_release C inp s = Inr (mus, configs)" and "u \<in> set mus" and "release_rows_ok s"
  shows "mu_desired u \<in> {lit ''active'', lit ''disabled''} \<and> (mu_desired u = lit ''active'' \<longrightarrow> mu_release u \<noteq> None)"
  using resolved_unit_origin [OF assms(1,2)] assms(3)
  by (auto simp: unit_changed_def release_rows_ok_def manifest_unit_of_def lit_def)

lemma resolved_config_revision:
  assumes "resolve_release C inp s = Inr (mus, configs)" and "(env_id e, v) \<in> set configs" and "release_rows_ok s"
    and "catalog_ok (core s)" and "e \<in> set (envs (core s))"
  shows "\<exists>r \<in> set (revisions (core s)). rev_id r = v \<and> rev_app r = env_app e"
  using resolved_config_origin [OF assms(1,2)]
proof
  assume "ensure_environment_config s (cx_app inp) (env_id e) v = Inr ()"
  then obtain e' r where r: "e' \<in> set (envs (core s))" "r \<in> set (revisions (core s))" "rev_id r = v"
      "rev_app r = env_app e'" "env_id e' = env_id e"
    by (auto simp: ensure_environment_config_def split: if_splits)
  have "e' = e" using r(1,5) assms(4,5) by (auto simp: catalog_ok_def dest: distinct_map_inj)
  then show ?thesis using r by blast
next
  assume "\<exists>r \<in> set (selections (core s)). env_id e = sel_env r \<and> v = sel_config r"
  then show ?thesis using assms(3,5) by (fastforce simp: release_rows_ok_def)
qed

lemma concat_mapI: "y \<in> set xs \<Longrightarrow> x \<in> set (f y) \<Longrightarrow> x \<in> set (concat (map f xs))"
  by auto

lemma plan_identitiesI:
  assumes "e \<in> set (envs d)" "env_status e \<noteq> lit ''disabled''" "r \<in> set (releases d)" "rel_app r = env_app e"
    and "m \<in> set (manifests d)" "man_release m = rel_id r" "man_status m = lit ''ready''"
    and "x \<in> set (selections d)" "sel_release x = rel_id r" "sel_env x = env_id e"
    and "v \<in> set (revisions d)" "rev_id v = sel_config x" "rev_app v = env_app e"
  shows "(env_app e, sel_config x, rev_hash v) \<in> set (plan_identities d (env_id e) (rel_id r))"
  unfolding plan_identities_def
  by (rule concat_mapI [OF assms(1)], subst if_P, rule conjI [OF refl assms(2)],
      rule concat_mapI [OF assms(3)], subst if_P, rule conjI [OF refl assms(4)],
      rule concat_mapI [OF assms(5)], subst if_P, rule conjI [OF assms(6,7)],
      rule concat_mapI [OF assms(8)], subst if_P, rule conjI [OF assms(9,10)],
      rule concat_mapI [OF assms(11)], subst if_P, rule conjI [OF assms(12,13)], rule list.set_intros(1))

lemma plan_identities_app:
  assumes "(a, c, h) \<in> set (plan_identities d environment release)"
  shows "\<exists>e \<in> set (envs d). env_id e = environment \<and> env_app e = a"
  using assms unfolding plan_identities_def by (fastforce split: if_splits)

text \<open>
  C38. A release that was created can be deployed: for every enabled environment of its application
  with a target node the orchestrator finds a plan, and the plan has one item for every unit of
  the application.
\<close>

theorem new_release_can_be_planned:
  assumes "create_application_release C inp s = (Inr x, s')" and "release_rows_ok s" and "catalog_ok (core s)"
    and "e \<in> set (envs (core s))" and "env_app e = cx_app inp" and "env_status e \<noteq> lit ''disabled''"
    and "\<exists>t \<in> set (targets (core s)). target_env t = env_id e" and "\<And>doc. document_json P doc \<noteq> None"
  shows "\<exists>plan. load_deployment_plan P (core s') (env_id e) (rx_release x) mode = Inr plan \<and>
     set (map item_unit_id (plan_items plan)) = unit_id ` {u \<in> set (units (core s)). unit_app u = cx_app inp} \<and>
     distinct (map item_unit_id (plan_items plan))"
proof -
  obtain mus configs json where r: "resolve_release C inp s = Inr (mus, configs)"
    and i: "insert_release inp mus configs json (release_sha256 C json) s = (x, s')"
    using create_writes [OF assms(1)] by blast
  note w = insert_release_writes [OF i]
  let ?d = "core s'" and ?rid = "rx_release x" and ?app = "cx_app inp"
  let ?ids = "unit_id ` {u \<in> set (units (core s)). unit_app u = ?app}"
  have ids: "set (map mu_unit mus) = ?ids" "distinct (map mu_unit mus)"
    using created_release_resolves_every_unit [OF assms(1)] w(3) by simp_all
  have "set (map fst configs) = enabled_environments s ?app"
    using created_release_resolves_every_unit [OF assms(1)] w(4) by simp
  moreover have "env_id e \<in> enabled_environments s ?app" using assms(4-6) by (auto simp: enabled_environments_def)
  ultimately obtain v where v: "(env_id e, v) \<in> set configs" by force
  obtain rv where rv: "rv \<in> set (revisions (core s))" "rev_id rv = v" "rev_app rv = ?app"
    using resolved_config_revision [OF r v assms(2-4)] assms(5) by auto
  have same: "envs ?d = envs (core s)" "units ?d = units (core s)" "revisions ?d = revisions (core s)"
    "targets ?d = targets (core s)" "runtimes ?d = runtimes (core s)" by (simp_all add: w(9))
  define row where "row = \<lparr> rel_id = ?rid, rel_app = ?app, rel_version = cx_version inp, rel_code = rx_code x,
     rel_status = lit ''received'', rel_source = lit ''openapi'', rel_checksum = release_sha256 C json,
     rel_metadata = [123, 34] @ lit ''kind'' @ [34, 58, 34] @ lit ''application_manifest'' @ [34, 125] \<rparr>"
  have new: "row \<in> set (releases ?d)" "rel_id row = ?rid" "rel_app row = ?app"
    "\<exists>m \<in> set (manifests ?d). man_release m = ?rid \<and> man_status m = lit ''ready''"
    "\<exists>y \<in> set (selections ?d). sel_release y = ?rid \<and> sel_env y = env_id e \<and> sel_config y = v"
    using v by (auto simp: w(9) row_def intro: rev_bexI)
  then obtain m y where m: "m \<in> set (manifests ?d)" "man_release m = ?rid" "man_status m = lit ''ready''"
    and y: "y \<in> set (selections ?d)" "sel_release y = ?rid" "sel_env y = env_id e" "sel_config y = v" by blast
  have "(?app, v, rev_hash rv) \<in> set (plan_identities ?d (env_id e) ?rid)"
    using plan_identitiesI [of e ?d row m y rv] assms(4-6) rv new(1-3) m y same by simp
  then obtain app config hash rest where pid: "plan_identities ?d (env_id e) ?rid = (app, config, hash) # rest"
    by (cases "plan_identities ?d (env_id e) ?rid") auto
  then have "\<exists>e' \<in> set (envs ?d). env_id e' = env_id e \<and> env_app e' = app"
    using plan_identities_app [of app config hash ?d "env_id e" ?rid] by simp
  then have app: "app = ?app" using assms(3-5) same(1) by (auto simp: catalog_ok_def dest: distinct_map_inj)
  define inputs where "inputs = \<lparr> in_app_id = app, in_environment_id = env_id e, in_release_id = ?rid,
               in_config_id = config, in_mode = mode, in_nodes = environment_nodes ?d (env_id e),
               in_units = load_target_units P ?d ?rid app hash, in_states = load_unit_states ?d (env_id e) \<rparr>"
  have old: "ru_release u \<noteq> ?rid" if "u \<in> set (release_units (core s))" for u
    using assms(2) that w(2) by (force simp: release_rows_ok_def)
  have mine: "filter (\<lambda>r. ru_release r = ?rid) (release_units ?d) = map (release_unit_of ?rid) mus"
    using old by (auto simp: w(9) filter_empty_conv release_unit_of_def)
  have rows: "\<exists>u \<in> set mus. z = release_unit_of ?rid u" if "z \<in> set (release_units ?d)" "ru_release z = ?rid" for z
  proof -
    have "z \<in> set (filter (\<lambda>r. ru_release r = ?rid) (release_units ?d))" using that by simp
    then show ?thesis unfolding mine by auto
  qed
  have targets: "mset (map tgt_unit_id (in_units inputs)) = mset (map mu_unit mus)"
  proof -
    have "ru_unit z \<in> unit_id ` {u \<in> set (units ?d). unit_app u = ?app}"
      if "z \<in> set (release_units ?d)" "ru_release z = ?rid" for z
      using rows [OF that] ids(1) same(2) by (auto simp: release_unit_of_def)
    then have t1: "mset (map tgt_unit_id (load_target_units P ?d ?rid ?app hash)) = mset (map ru_unit (map (release_unit_of ?rid) mus))"
      unfolding mine [symmetric] using assms(3) same(2) by (intro target_ids) (simp_all add: catalog_ok_def)
    have t2: "map ru_unit (map (release_unit_of ?rid) mus) = map mu_unit mus" by (simp add: release_unit_of_def)
    show ?thesis using t1 unfolding t2 by (simp add: inputs_def app)
  qed
  have "set (in_nodes inputs) \<noteq> {}"
    using assms(7) same(4) by (auto simp: inputs_def environment_nodes_def)
  then have "in_nodes inputs \<noteq> []" by simp
  moreover have "mus \<noteq> []"
  proof -
    have "set (map cu_unit (configured_units s ?app)) \<noteq> {}"
      using r by (auto simp: resolve_release_def Let_def split: sum.splits if_splits)
    then show ?thesis using ids(1) unfolding configured_unit_ids by auto
  qed
  then have "in_units inputs \<noteq> []" using targets by auto
  moreover have "distinct (map tgt_unit_id (in_units inputs))"
    using mset_eq_imp_distinct_iff [OF targets] ids(2) by simp
  moreover have "distinct (map state_key (in_states inputs))"
    using unit_states_distinct [of ?d "env_id e"] assms(3) same(5) by (simp add: inputs_def catalog_ok_def)
  moreover have "valid_target t" if "t \<in> set (in_units inputs)" for t
  proof -
    from that have "t \<in> set (load_target_units P ?d ?rid app hash)" by (simp add: inputs_def)
    from in_target_units [OF this] obtain z where z: "z \<in> set (release_units ?d)" "ru_release z = ?rid"
      "tgt_desired_status t = ru_desired z" "tgt_release_id t = ru_unit_release z" by blast
    from rows [OF z(1,2)] obtain u where "u \<in> set mus" "z = release_unit_of ?rid u" by blast
    then show ?thesis using resolved_unit_valid [OF r _ assms(2), of u] z(3,4)
      by (simp add: valid_target_def release_unit_of_def)
  qed
  ultimately have valid: "valid_input inputs" by (simp add: valid_input_def)
  obtain bytes where "document_json P (plan_document_of inputs (planned_items inputs)) = Some bytes"
    using assms(8) by blast
  then have plan: "build_deployment_plan P inputs = Inr (plan_of P inputs (planned_items inputs) bytes)"
    using valid by (auto simp: build_deployment_plan_Inr)
  have "load_deployment_plan P ?d (env_id e) ?rid mode = Inr (plan_of P inputs (planned_items inputs) bytes)"
    using plan unfolding inputs_def by (simp add: load_deployment_plan_def pid)
  moreover have "mset (map item_unit_id (planned_items inputs)) = mset (map mu_unit mus)"
    using mset_planned_ids [of inputs] targets by simp
  then have "set (map item_unit_id (planned_items inputs)) = ?ids" "distinct (map item_unit_id (planned_items inputs))"
    using ids by (metis mset_eq_setD, metis mset_eq_imp_distinct_iff)
  ultimately show ?thesis by (auto simp: plan_of_def)
qed

end
