(* ===== verification/Release_Witnesses.thy ===== *)
theory Release_Witnesses
  imports Release_Properties Samples
begin

text \<open>
A small installation with one unit: it is registered, released, released once more without the
  unit, and its artifact is claimed; the properties of releases are applied to it.
\<close>

section \<open>Samples\<close>

definition sample_start :: store where
  "sample_start = (bare_store (sample_db\<lparr> releases := [], manifests := [], selections := [], release_units := [],
     unit_releases := [], runtimes := [], units := [\<lparr> unit_id = 1, unit_app = 1, unit_key = lit ''api'' \<rparr>] \<rparr>))
     \<lparr> app_ids := [1] \<rparr>"

definition sample_register :: register_input where
  "sample_register = \<lparr> ri_unit = 1, ri_version = lit ''1.2.3'', ri_package_name = lit ''api.tar'', ri_package_path = [],
     ri_extract_dir = [], ri_checksum = replicate 64 97, ri_size = 5, ri_published = [], ri_source = lit ''openapi'',
     ri_metadata = [123, 125], ri_storage = local_storage \<rparr>"

definition sample_release_crates :: release_crates where
  "sample_release_crates = \<lparr> release_sha256 = (\<lambda>b. b),
     manifest_document = (\<lambda>us es. Some (map (\<lambda>u. if mu_release u = None then 8 else 7) us)) \<rparr>"

definition sample_first :: create_release_input where
  "sample_first = \<lparr> cx_app = 1, cx_version = lit ''1.0.0'', cx_base = None, cx_units = [active_change 1 1],
     cx_environments = [(2, 4)], cx_created_by = lit ''op'' \<rparr>"


definition sample_registered :: store where
  "sample_registered = sample_start\<lparr> core := (core sample_start)\<lparr>unit_releases := [new_unit_release sample_register 1 100]\<rparr>,
     counters := [\<lparr> vc_kind = UnitScope, vc_scope = 1, vc_next = 101 \<rparr>], unit_release_seq := 1 \<rparr>"

definition sample_released :: store where
  "sample_released = snd (create_application_release sample_release_crates sample_first sample_registered)"

lemma sample_versions: "validate_version (lit ''1.2.3'') = Inr ()" "validate_version (lit ''1.0.0'') = Inr ()"
  "validate_version (lit ''1.1.0'') = Inr ()"
  by (simp_all add: validate_version_def lit_def trim_def trim_start_def is_white_def version_part_def is_digit_def digits_value_def)

lemma sample_checksum: "validate_checksum (replicate 64 97) = Inr ()"
proof -
  have "utf8 (replicate n 97) = replicate n 97" for n
    by (induction n) (simp_all add: utf8_def utf8_char_def)
  then show ?thesis by (simp add: validate_checksum_def is_hexdigit_def)
qed

lemma sample_input_ok: "validate_unit_release_input sample_register = Inr ()"
  by (simp add: validate_unit_release_input_def sample_register_def local_storage_def storage_ok_def lit_def trim_def
      trim_start_def is_white_def)

lemma sample_start_sel [simp]:
  "core sample_start = sample_db\<lparr> releases := [], manifests := [], selections := [], release_units := [],
     unit_releases := [], runtimes := [], units := [\<lparr> unit_id = 1, unit_app = 1, unit_key = lit ''api'' \<rparr>] \<rparr>"
  "counters sample_start = []" "unit_release_seq sample_start = 0" "release_seq sample_start = 0"
  "app_ids sample_start = [1]" "stage_links sample_start = []"
  by (simp_all add: sample_start_def bare_store_def)

lemma sample_register_sel [simp]:
  "ri_unit sample_register = 1" "ri_version sample_register = lit ''1.2.3''" "ri_checksum sample_register = replicate 64 97"
  by (simp_all add: sample_register_def)

lemma sample_register_value:
  "register_unit_release sample_register sample_start =
     (Inr \<lparr> ux_release = 1, ux_unit = 1, ux_version = lit ''1.2.3'', ux_code = 100, ux_checksum = replicate 64 97 \<rparr>,
      sample_registered)"
  unfolding register_unit_release_def
  by (simp add: sample_versions sample_checksum sample_input_ok)
     (simp add: transaction_def register_tx_def allocate_version_code_def sample_registered_def Let_def modify_def)

lemma sample_registered_sel [simp]:
  "core sample_registered = (core sample_start)\<lparr>unit_releases := [new_unit_release sample_register 1 100]\<rparr>"
  "counters sample_registered = [\<lparr> vc_kind = UnitScope, vc_scope = 1, vc_next = 101 \<rparr>]"
  "release_seq sample_registered = 0" "app_ids sample_registered = [1]" "stage_links sample_registered = []"
  by (simp_all add: sample_registered_def)

lemma sample_new_release [simp]: "ur_id (new_unit_release inp i c) = i" "ur_unit (new_unit_release inp i c) = ri_unit inp"
  "ur_artifact (new_unit_release inp i c) = ArtifactActive" "ur_checksum (new_unit_release inp i c) = ri_checksum inp"
  by (simp_all add: new_unit_release_def)

lemma sample_configured:
  "configured_units sample_registered 1 = [\<lparr> cu_unit = 1, cu_stage = None, cu_order = None, cu_removal = None \<rparr>]"
  by (simp add: configured_units_def unit_links_def)

definition sample_unit_1 :: manifest_unit where
  "sample_unit_1 = \<lparr> mu_unit = 1, mu_release = Some 1, mu_desired = lit ''active'', mu_stage = 1, mu_order = 1,
     mu_removal = 1, mu_fingerprint = utf8 (lit ''active'' @ [58] @ replicate 64 97) \<rparr>"

lemma sample_resolved: "resolve_release sample_release_crates sample_first sample_registered = Inr ([sample_unit_1], [(2, 4)])"
  by (simp add: resolve_release_def sample_first_def sample_configured ensure_app_and_version_available_def
      active_change_def apply_change_def ensure_unit_release_def unit_target_fingerprint_def
      sample_release_crates_def ensure_environment_config_def enabled_environments_def sample_db_def sample_unit_1_def)

definition sample_result :: release_result where
  "sample_result = fst (insert_release sample_first [sample_unit_1] [(2, 4)] [7] [7] sample_registered)"

lemma sample_first_value:
  "insert_release sample_first [sample_unit_1] [(2, 4)] [7] [7] sample_registered = (sample_result, sample_released)"
  "create_application_release sample_release_crates sample_first sample_registered = (Inr sample_result, sample_released)"
proof -
  obtain x s' where i: "insert_release sample_first [sample_unit_1] [(2, 4)] [7] [7] sample_registered = (x, s')"
    by (cases "insert_release sample_first [sample_unit_1] [(2, 4)] [7] [7] sample_registered")
  have "create_release_tx sample_release_crates sample_first sample_registered = (Inr x, s')"
    unfolding create_release_tx_def sample_resolved
    using i by (simp add: sample_release_crates_def sample_unit_1_def)
  then have c: "create_application_release sample_release_crates sample_first sample_registered = (Inr x, s')"
    by (simp add: create_application_release_def sample_first_def sample_versions transaction_def)
  then show "insert_release sample_first [sample_unit_1] [(2, 4)] [7] [7] sample_registered = (sample_result, sample_released)"
    "create_application_release sample_release_crates sample_first sample_registered = (Inr sample_result, sample_released)"
    using i by (simp_all add: sample_released_def sample_result_def)
qed

lemma sample_result_sel [simp]:
  "rx_release sample_result = 1" "rx_units sample_result = [sample_unit_1]" "rx_environments sample_result = [(2, 4)]"
  "rx_code sample_result = 100"
  using insert_release_writes(1-4) [OF sample_first_value(1)]
  by (simp_all add: next_code_def)

lemma sample_released_sel [simp]:
  "release_units (core sample_released) = [release_unit_of 1 sample_unit_1]"
  "manifests (core sample_released) = [\<lparr> man_release = 1, man_status = lit ''ready'', man_base = None,
     man_hash = [7], man_json = [7], man_created_by = trim (lit ''op''), man_archived = None \<rparr>]"
  "unit_releases (core sample_released) = [new_unit_release sample_register 1 100]"
  "units (core sample_released) = [\<lparr> unit_id = 1, unit_app = 1, unit_key = lit ''api'' \<rparr>]"
  "runtimes (core sample_released) = []" "results (core sample_released) = []" "runs (core sample_released) = []"
  "release_seq sample_released = 1" "envs (core sample_released) = envs sample_db"
  "selections (core sample_released) = [\<lparr> sel_release = 1, sel_env = 2, sel_config = 4 \<rparr>]"
  "releases (core sample_released) = [\<lparr> rel_id = 1, rel_app = 1, rel_version = lit ''1.0.0'', rel_code = 100,
     rel_status = lit ''received'', rel_source = lit ''openapi'', rel_checksum = [7],
     rel_metadata = [123, 34] @ lit ''kind'' @ [34, 58, 34] @ lit ''application_manifest'' @ [34, 125] \<rparr>]"
  using insert_release_writes(7,9) [OF sample_first_value(1)]
  by (simp_all add: sample_first_def sample_db_def)

lemma sample_steps:
  "store_step C env sample_start sample_registered"
  "store_step sample_release_crates env sample_registered sample_released"
  using store_step.registering [of C env sample_start sample_register]
    store_step.creating [of sample_release_crates env sample_registered sample_first]
  by (simp_all add: sample_register_value sample_first_value(2))

lemma sample_history:
  "(store_step sample_release_crates env)\<^sup>*\<^sup>* sample_start sample_registered"
  "(store_step sample_release_crates env)\<^sup>*\<^sup>* sample_start sample_released"
  "(store_step sample_release_crates env)\<^sup>*\<^sup>* sample_registered sample_released"
  using sample_steps(1) [of sample_release_crates env] sample_steps(2) [of env] by (meson rtranclp.rtrancl_into_rtrancl rtranclp.rtrancl_refl)+

lemma sample_start_empty:
  "unit_releases (core sample_start) = []" "manifests (core sample_start) = []" "release_units (core sample_start) = []"
  "runs (core sample_start) = []" "results (core sample_start) = []" "runtimes (core sample_start) = []"
  by (simp_all add: sample_db_def)

theorem needed_artifacts_are_available_witness:
  "\<exists>a \<in> set (unit_releases (core sample_released)). ur_id a = 1 \<and> ur_artifact a = ArtifactActive"
  using needed_artifacts_are_available [OF sample_history(2) [of sample_env] sample_start_empty]
  by (simp only: sample_released_sel) (simp add: release_unit_of_def sample_unit_1_def)

theorem registered_version_is_fixed_witness:
  "register_unit_release sample_register sample_released = (Inr \<lparr> ux_release = 1, ux_unit = 1,
     ux_version = lit ''1.2.3'', ux_code = 100, ux_checksum = replicate 64 97 \<rparr>, sample_released)"
  using registered_version_is_fixed [OF sample_register_value sample_history(3) [of sample_env], of sample_register]
    sample_checksum sample_input_ok by simp

theorem created_release_resolves_every_unit_witness:
  "unit_changed sample_registered (active_change 1 1) sample_unit_1 \<and> (2, 4) \<in> set (rx_environments sample_result)"
  using created_release_resolves_every_unit [OF sample_first_value(2)] by (simp add: sample_first_def)

definition sample_claimed_target :: "deletion_target \<times> store" where
  "sample_claimed_target = (target_of (new_unit_release sample_register 1 100),
     snd (begin_cleanup 1 (lit ''op'') sample_registered))"

lemma sample_claiming: "begin_cleanup 1 (lit ''op'') sample_registered =
    (Inr (fst sample_claimed_target), snd sample_claimed_target)"
proof (cases "1 :: int" "lit ''op''" sample_registered rule: begin_cleanup_cases)
  case (refused e)
  have "False" using refused
    by (simp add: begin_cleanup_def artifact_cleanup_preview_def Let_def release_references_def snapshot_references_def
        affected_def block_def artifact_allowed_def)
  then show ?thesis ..
next
  case (claimed p t)
  then show ?thesis
    by (simp add: sample_claimed_target_def begin_cleanup_def)
qed

theorem claimed_artifact_is_never_needed_again_witness:
  "{t \<in> set (runtimes (core (snd sample_claimed_target))). rt_release t = Some 1} = {}"
  using claimed_artifact_is_never_needed_again [OF sample_history(1) [of sample_env] sample_start_empty sample_claiming
      rtranclp.rtrancl_refl] by blast






theorem new_release_can_be_planned_witness:
  "\<exists>plan. load_deployment_plan sample_env (core sample_released) 2 1 Normal = Inr plan \<and>
     set (map item_unit_id (plan_items plan)) = {1}"
proof -
  define e where "e = hd (envs sample_db)"
  have e: "e \<in> set (envs (core sample_registered))" "env_app e = cx_app sample_first" "env_status e \<noteq> lit ''disabled''" "env_id e = 2"
    by (simp_all add: e_def sample_db_def sample_first_def)
  have "release_rows_ok sample_registered" "catalog_ok (core sample_registered)"
    "\<exists>t \<in> set (targets (core sample_registered)). target_env t = env_id e"
    "\<And>doc. document_json sample_env doc \<noteq> None"
    by (simp_all add: release_rows_ok_def catalog_ok_def e_def sample_db_def sample_env_def)
  from new_release_can_be_planned [OF sample_first_value(2) this(1,2) e(1-3) this(3,4), of Normal]
  have "\<exists>plan. load_deployment_plan sample_env (core sample_released) 2 1 Normal = Inr plan \<and>
     set (map item_unit_id (plan_items plan)) = unit_id ` {u \<in> set (units (core sample_registered)). unit_app u = cx_app sample_first}"
    by (auto simp: e(4))
  moreover have "unit_id ` {u \<in> set (units (core sample_registered)). unit_app u = cx_app sample_first} = {1}"
    by (auto simp: sample_first_def)
  ultimately show ?thesis by simp
qed

end
