(* ===== verification/Execution_Ends.thy ===== *)
theory Execution_Ends
  imports Execution_Properties
begin

text \<open>
  How the task ends that the deploy handler spawns for a run: with whatever it ends, the run and
  its units are closed and the environment can be deployed again. For that, what every
  operation of an execution leaves as it is: rows are changed in place, and none becomes active.
\<close>

section \<open>What an execution leaves as it is\<close>

definition run_kept :: "run_row \<Rightarrow> run_row \<Rightarrow> bool" where
  "run_kept r r' \<longleftrightarrow> run_id r' = run_id r \<and> run_env r' = run_env r \<and> run_task r' = run_task r \<and>
     (active_run (run_status r') \<longrightarrow> active_run (run_status r))"

definition result_kept :: "result_row \<Rightarrow> result_row \<Rightarrow> bool" where
  "result_kept x x' \<longleftrightarrow> res_run x' = res_run x \<and> res_unit x' = res_unit x"

definition task_kept :: "task_row \<Rightarrow> task_row \<Rightarrow> bool" where
  "task_kept t t' \<longleftrightarrow> task_id t' = task_id t \<and> task_kind t' = task_kind t \<and> task_env t' = task_env t \<and>
     (active_task (task_status t') \<longrightarrow> active_task (task_status t))"

text \<open>No run, result or task is added, removed or moved, and none becomes active again.\<close>

definition within :: "db \<Rightarrow> db \<Rightarrow> bool" where
  "within d d' \<longleftrightarrow> list_all2 run_kept (runs d) (runs d') \<and> list_all2 result_kept (results d) (results d') \<and>
     list_all2 task_kept (tasks d) (tasks d')"

lemma row_kept_refl [simp]: "run_kept r r" "result_kept x x" "task_kept t t"
  by (simp_all add: run_kept_def result_kept_def task_kept_def)

lemma within_refl [simp, intro]: "within d d"
  by (simp add: within_def list_all2_refl)

lemma within_trans: "within d1 d2 \<Longrightarrow> within d2 d3 \<Longrightarrow> within d1 d3"
  unfolding within_def
  using list_all2_trans [of run_kept run_kept run_kept "runs d1" "runs d2" "runs d3"]
    list_all2_trans [of result_kept result_kept result_kept "results d1" "results d2" "results d3"]
    list_all2_trans [of task_kept task_kept task_kept "tasks d1" "tasks d2" "tasks d3"]
  by (simp add: run_kept_def result_kept_def task_kept_def)

lemma within_same:
  "within d0 d \<Longrightarrow> runs d' = runs d \<Longrightarrow> results d' = results d \<Longrightarrow> tasks d' = tasks d \<Longrightarrow> within d0 d'"
  by (simp add: within_def)

lemma within_update:
  "within d0 d \<Longrightarrow> (\<And>r. p r \<Longrightarrow> run_kept r (f r)) \<Longrightarrow> within d0 (update_runs p f d)"
  "within d0 d \<Longrightarrow> (\<And>x. p' x \<Longrightarrow> result_kept x (f' x)) \<Longrightarrow> within d0 (update_results p' f' d)"
  "within d0 d \<Longrightarrow> (\<And>t. p'' t \<Longrightarrow> task_kept t (f'' t)) \<Longrightarrow> within d0 (update_tasks p'' f'' d)"
  by (erule within_trans, simp add: within_def list_all2_refl list_all2_modify)+

lemma within_other:
  "within d0 d \<Longrightarrow> within d0 (update_steps p f d)"
  "within d0 d \<Longrightarrow> within d0 (update_phases p' f' d)"
  "within d0 d \<Longrightarrow> within d0 (update_envs p'' f'' d)"
  "within d0 d \<Longrightarrow> within d0 (append_log t s st c d)"
  "within d0 d \<Longrightarrow> within d0 (upsert_runtimes rs d)"
  "within d0 d \<Longrightarrow> within d0 (snd (insert_step d row))"
  by (erule within_same; simp add: insert_step_def)+

lemmas within_rules = within_update within_other within_refl

lemma within_transaction: "within d (snd (m d)) \<Longrightarrow> within d (snd (transaction m d))"
  using transaction_snd [of m d] by auto

lemma within_claim: "within d (snd (claim_deployment_run now rid d))"
  unfolding claim_deployment_run_def
  by (rule within_transaction)
    (auto simp: claim_tx_def Let_def run_kept_def task_kept_def active_run_def active_task_def
      split: list.split prod.split intro!: within_rules)

lemma within_cancel: "within d (snd (request_cancellation now rid actor d))"
proof -
  have "within d (snd (request_cancellation_tx now rid actor d))" for actor
    by (auto simp: request_cancellation_tx_def cancel_queued_run_def close_pending_def skip_open_phases_def
        Let_def run_kept_def result_kept_def task_kept_def active_run_def active_task_def
        split: option.split intro!: within_rules)
  then show ?thesis by (simp add: request_cancellation_def Let_def within_transaction)
qed

lemma within_start: "within d (snd (start_unit_result now rid task item d))"
  unfolding start_unit_result_def
  by (rule within_transaction)
    (auto simp: start_unit_tx_def Let_def case_prod_beta result_kept_def intro!: within_rules)

lemma within_persist: "within d (persist_unit_outcome now rid task sid environment nodes item oc d)"
  by (auto simp: persist_unit_outcome_def Let_def result_kept_def split: unit_outcome.split prod.split
      intro!: within_rules)

lemma within_close: "within d (close_pending now rid kind summary d)"
  by (auto simp: close_pending_def result_kept_def intro!: within_rules)

lemma final_task_inactive: "\<not> active_task (final_task_status s c)"
  by (simp add: final_task_status_def active_task_def)

lemma final_run_ended: "\<not> active_run (final_run_status a b c x)"
  using final_run_inactive [of a b c x] by (auto simp: active_run_def)

lemma within_finalize: "within d (snd (finalize_deployment_run now rid plan canceled d))"
  by (auto simp: finalize_deployment_run_def Let_def run_kept_def task_kept_def final_task_inactive
      final_run_ended active_run_def [of RunRunning] active_task_def [of TaskSuccess]
      split: option.split prod.split intro!: within_rules)

lemma confirmed_ended: "\<not> active_run (confirmed_status a b)"
  by (simp add: confirmed_status_def active_run_def)

lemma within_fail: "within d (snd (fail_run_on_internal_error now rid message d))"
  unfolding fail_run_on_internal_error_def
  by (rule within_transaction)
    (auto simp: fail_run_tx_def close_open_units_def fail_running_steps_def close_open_phases_def
      Let_def run_kept_def result_kept_def task_kept_def confirmed_ended active_task_def active_run_def [of RunCanceled]
      split: option.split prod.split intro!: within_rules)

section \<open>What the loops keep\<close>

text \<open>What every operation of the ledger keeps, a wave keeps.\<close>

locale ledger_frame =
  fixes kept :: "'s \<Rightarrow> bool"
    and start :: "time \<Rightarrow> plan_item \<Rightarrow> ('s, orch_error, int) operation"
    and persist :: "time \<Rightarrow> int \<Rightarrow> plan_item \<Rightarrow> unit_outcome \<Rightarrow> 's \<Rightarrow> 's"
    and cancel :: "time \<Rightarrow> ustr \<Rightarrow> 's \<Rightarrow> bool \<times> 's"
  assumes start_keeps: "kept s \<Longrightarrow> kept (snd (start now item s))"
    and persist_keeps: "kept s \<Longrightarrow> kept (persist now sid item oc s)"
    and cancel_keeps: "kept s \<Longrightarrow> kept (snd (cancel now actor s))"
begin

lemma start_loop_keeps: "kept s \<Longrightarrow> kept (snd (start_loop (start now) k pending running s))"
proof (induction pending arbitrary: running s)
  case (Cons item pending)
  then show ?case using start_keeps [of s now item]
    by (auto split: prod.split sum.split)
qed simp

lemma turn_keeps: "kept s \<Longrightarrow> kept (snd (snd (wave_turn start k w s)))"
  using start_loop_keeps [of s "w_clock w" k "w_pending w" "w_running w"]
  by (auto simp: wave_turn_def Let_def split: prod.split sum.split)

lemma wait_keeps: "kept s \<Longrightarrow> kept (snd (snd (wave_wait start persist cancel k events w s)))"
proof (induction events arbitrary: w s)
  case (Cons event events)
  show ?case
  proof (cases event)
    case (CancelArrives now actor)
    then show ?thesis using Cons cancel_keeps [of s now actor] by (auto split: prod.split)
  next
    case (UnitEnds now pick unit_end)
    show ?thesis
    proof (cases unit_end)
      case (Finished oc)
      define i where "i = pick mod length (w_running w)"
      obtain item sid where it: "w_running w ! i = (item, sid)" by fastforce
      obtain x w1 s1 where t: "wave_turn start k (unit_joined now i oc w) (persist now sid item oc s) = (x, w1, s1)"
        by (metis surj_pair)
      then have "kept s1"
        using turn_keeps [OF persist_keeps [OF Cons.prems], of k "unit_joined now i oc w" now sid item oc] by simp
      with Cons.IH [of s1 w1] t show ?thesis
        by (simp add: UnitEnds Finished i_def [symmetric] it Let_def split: wave_status.split)
    qed (use UnitEnds Cons.prems in simp)
  qed
qed simp

lemma wave_keeps: "kept s \<Longrightarrow> kept (snd (snd (run_wave start persist cancel k events w s)))"
proof -
  assume "kept s"
  then have "kept (snd (snd (wave_turn start k w s)))" by (rule turn_keeps)
  then show ?thesis
    by (cases "wave_turn start k w s") (auto simp: run_wave_def wait_keeps split: wave_status.split)
qed

end

lemma within_operator: "within d (snd (operator_cancels rid now actor d))"
  using within_cancel [of d now rid actor] by (auto simp: operator_cancels_def split: prod.split sum.split)

interpretation frame: ledger_frame "within d0"
  "\<lambda>now. start_unit_result now rid task"
  "\<lambda>now sid. persist_unit_outcome now rid task sid environment nodes"
  "operator_cancels rid"
  for d0 rid task environment nodes
  by unfold_locales
    (erule within_trans, rule within_start within_persist within_operator)+

lemma within_gap: "within d0 d \<Longrightarrow> within d0 (snd (gap_cancels rid gap signal d))"
proof (induction gap arbitrary: signal d)
  case (Cons g gap)
  obtain now actor where g: "g = (now, actor)" by (cases g)
  obtain b d1 where c: "operator_cancels rid now actor d = (b, d1)" by fastforce
  with within_operator [of d rid now actor] have "within d0 d1" using within_trans [OF Cons.prems] by simp
  with Cons.IH show ?case by (simp add: g c)
qed simp

lemma within_waves:
  "within d0 d \<Longrightarrow> within d0 (snd (run_waves rid task environment nodes k scripts waves failed canceled signal d))"
proof (induction rid task environment nodes k scripts waves failed canceled signal d rule: run_waves.induct)
  case (3 rid task environment nodes k script scripts items waves failed canceled signal d)
  show ?case
  proof (cases "failed \<or> canceled")
    case True
    with 3 show ?thesis by auto
  next
    case go: False
    obtain s1 d1 where g: "gap_cancels rid (ws_gap script) signal d = (s1, d1)" by fastforce
    with within_gap [OF 3(2), of rid "ws_gap script" signal] have d1: "within d0 d1" by simp
    show ?thesis
    proof (cases "cancellation_requested d1 rid")
      case (Inl e)
      with go g d1 show ?thesis by simp
    next
      case c: (Inr requested)
      show ?thesis
      proof (cases requested)
        case True
        with go g c d1 show ?thesis by simp
      next
        case quiet: False
        obtain y w d2 where e: "execute_wave rid task environment nodes (ws_now script) items k s1
            (ws_events script) d1 = (y, w, d2)" by (metis surj_pair)
        have d2: "within d0 d2"
          using frame.wave_keeps [OF d1, of rid task environment nodes k "ws_events script" "wave_of (ws_now script) items s1"] e
          by (simp add: execute_wave_def)
        show ?thesis
        proof (cases y)
          case (WaveDone oc)
          from 3(1) [OF go g [symmetric] c quiet e [symmetric] WaveDone refl d2] show ?thesis
            using go quiet WaveDone by (simp add: g c e)
        qed (use go quiet d2 in \<open>simp_all add: g c e\<close>)
      qed
    qed
  qed
qed auto

lemma within_execution: "within d (snd (execute_run env script rid signal d))"
proof (cases "claim_deployment_run (es_claim script) rid d")
  case (Pair c d1)
  then have d1: "within d d1" using within_claim [of d "es_claim script" rid] by simp
  show ?thesis
  proof (cases c)
    case (Inl e)
    with Pair d1 show ?thesis by (simp add: execute_run_def)
  next
    case (Inr run)
    let ?sig = "signal \<or> ex_cancel_requested run \<noteq> None"
    show ?thesis
    proof (cases "plan_of_json env (ex_plan_json run)")
      case None
      with Pair Inr d1 show ?thesis by (simp add: execute_run_def)
    next
      case (Some plan)
      obtain x d2 where w: "run_waves rid (ex_task run) (ex_environment run) (plan_nodes plan)
          (nat (max 1 (ex_max_parallel run))) (es_waves script) (execution_waves (plan_items plan)) False
          ?sig ?sig d1 = (x, d2)" by fastforce
      with within_waves [OF d1, of rid "ex_task run"] have d2: "within d d2" by (metis snd_conv)
      have fin: "within d (snd (finalize_deployment_run (es_end script) rid plan c d3))" if "within d d3" for c d3
        using within_trans [OF that within_finalize] .
      have closed: "within d (close_pending (es_end script) rid kind m d2)" for kind m
        using within_trans [OF d2 within_close] .
      show ?thesis
        using Pair Inr Some w d1 d2 fin closed
        by (auto simp: execute_run_def Let_def split: waves_status.split prod.split) (metis snd_conv)+
    qed
  qed
qed

lemma within_spawned: "within d (snd (spawned_execution env script rid show_error d))"
proof (cases "execute_run env script rid False d")
  case (Pair res d1)
  then have d1: "within d d1" using within_execution [of d env script rid False] by simp
  then have "within d (snd (fail_run_on_internal_error now rid m d1))" for now m
    using within_trans [OF d1 within_fail] by simp
  with Pair d1 show ?thesis by (auto simp: spawned_execution_def split: option.split sum.split)
qed

section \<open>The end of a spawned execution\<close>

lemma list_all2_in: "list_all2 P xs ys \<Longrightarrow> y \<in> set ys \<Longrightarrow> \<exists>x \<in> set xs. P x y"
  "list_all2 P xs ys \<Longrightarrow> x \<in> set xs \<Longrightarrow> \<exists>y \<in> set ys. P x y"
  by (induction rule: list_all2_induct) auto

lemma within_run:
  assumes "within d d'" and "q \<in> set (runs d')"
  obtains r where "r \<in> set (runs d)" "run_kept r q"
  using assms list_all2_in [of run_kept "runs d" "runs d'" q] by (auto simp: within_def)

lemma within_task:
  assumes "within d d'" and "x \<in> set (tasks d')"
  obtains y where "y \<in> set (tasks d)" "task_kept y x"
  using assms list_all2_in [of task_kept "tasks d" "tasks d'" x] by (auto simp: within_def)

lemma within_units:
  assumes "within d d'"
  shows "map res_unit (run_results d' rid) = map res_unit (run_results d rid)"
proof -
  have "list_all2 result_kept (results d) (results d')" using assms by (simp add: within_def)
  then show ?thesis unfolding run_results_def
    by (induction rule: list_all2_induct) (simp_all add: result_kept_def)
qed

lemma finished_task_ends:
  assumes "ready_run env rid plan d" and "r \<in> set (runs d)" and "run_id r = rid" and "run_task r = Some t"
    and "execute_run env script rid signal d = (Some (Inr (i, s, m)), d')"
  shows "\<forall>x \<in> set (tasks d'). task_id x = t \<longrightarrow> \<not> active_task (task_status x)"
proof -
  obtain run :: execution_run and d1 d3 c where cl: "claim_deployment_run (es_claim script) rid d = (Inr run, d1)"
    and fin: "finalize_deployment_run (es_end script) rid plan c d3 = (Inr (i, s, m), d')"
    and ex: "executing rid (ex_task run) d3"
    by (rule execute_run_done [OF assms(1,5)]) (rule that)
  obtain q where q: "q \<in> set (runs d)" "run_id q = rid" "run_task q = Some (ex_task run)"
    by (rule claim_Inr [OF cl]) (rule that, simp_all)
  have "q = r"
    using assms(1-3) q(1,2) unfolding ready_run_def ids_ok_def by (blast dest: distinct_map_inj)
  then have t: "ex_task run = t" using q(3) assms(4) by simp
  obtain p where p: "p \<in> set (runs d3)" "run_id p = rid" "run_task p = Some (ex_task run)" "ids_ok d3"
    using ex by (auto simp: executing_def)
  then have "run_task_of d3 rid = Some t" by (simp add: run_task_of_def find_run_row t)
  moreover have "tasks d' = modify (\<lambda>t. run_task_of d3 rid = Some (task_id t))
       (\<lambda>t. t\<lparr>task_status := final_task_status s c,
          task_phase := task_phase_of (final_task_status s c), task_summary := m,
          task_exit_code := Some (if final_task_status s c = TaskSuccess then 0 else 1),
          task_finished := Some (es_end script)\<rparr>) (tasks d3)"
    by (rule finalize_effect [OF fin])
  ultimately show ?thesis using final_task_inactive [of s c]
    by (simp add: ball_modify active_task_def [of TaskSuccess])
qed

text \<open>What the end of a spawned execution leaves, whether a result or an error was returned.\<close>

lemma spawned_closes:
  assumes "ready_run env rid plan d" and "r \<in> set (runs d)" and "run_id r = rid" and "run_task r = Some t"
    and "spawned_execution env script rid show_error d = (Some result, d')"
  shows "\<forall>q \<in> set (runs d'). run_id q = rid \<longrightarrow> \<not> active_run (run_status q)"
    and "\<forall>x \<in> set (results d'). res_run x = rid \<longrightarrow> \<not> open_unit (res_status x)"
    and "\<forall>x \<in> set (tasks d'). task_id x = t \<longrightarrow> \<not> active_task (task_status x)"
    and "\<forall>i s m. result = Inr (i, s, m) \<longrightarrow> i = rid \<and> (\<forall>q \<in> set (runs d'). run_id q = rid \<longrightarrow> run_status q = s)"
proof -
  obtain res d1 where e: "execute_run env script rid False d = (res, d1)" by fastforce
  have "(\<forall>q \<in> set (runs d'). run_id q = rid \<longrightarrow> \<not> active_run (run_status q)) \<and>
    (\<forall>x \<in> set (results d'). res_run x = rid \<longrightarrow> \<not> open_unit (res_status x)) \<and>
    (\<forall>x \<in> set (tasks d'). task_id x = t \<longrightarrow> \<not> active_task (task_status x)) \<and>
    (\<forall>i s m. result = Inr (i, s, m) \<longrightarrow> i = rid \<and> (\<forall>q \<in> set (runs d'). run_id q = rid \<longrightarrow> run_status q = s))"
  proof (cases res)
    case None
    then show ?thesis using assms(5) e by (simp add: spawned_execution_def)
  next
    case (Some y)
    show ?thesis
    proof (cases y)
      case (Inl er)
      obtain r1 t1 where r1: "ids_ok d1" "r1 \<in> set (runs d1)" "run_id r1 = rid" "run_task r1 = Some t1"
        "run_status r1 \<in> {RunQueued, RunRunning}" "run_results d1 rid \<noteq> []"
        by (rule execution_error [OF assms(1) e [unfolded Some Inl]]) (rule that)
      obtain d2 where f: "fail_run_on_internal_error (es_end script) rid (show_error er) d1 = (Inr True, d2)"
        by (rule fail_succeeds [OF r1])
      then have d': "result = Inl er" "d' = d2"
        using assms(5) e Some Inl by (simp_all add: spawned_execution_def)
      have "within d d1" using within_execution [of d env script rid False] e by simp
      then obtain r0 where r0: "r0 \<in> set (runs d)" "run_kept r0 r1" by (rule within_run [OF _ r1(2)])
      have "r0 = r" using r0 r1(3) assms(1-3)
        unfolding ready_run_def ids_ok_def run_kept_def by (auto dest: distinct_map_inj)
      then have "t1 = t" using r0(2) r1(4) assms(4) by (simp add: run_kept_def)
      with failing_closes_everything [OF r1(1-4) f] show ?thesis
        by (auto simp: d' active_run_def)
    next
      case (Inr z)
      obtain i s m where z: "z = (i, s, m)" by (cases z)
      then have d': "result = Inr (i, s, m)" "d' = d1"
        and ex: "execute_run env script rid False d = (Some (Inr (i, s, m)), d1)"
        using assms(5) e Some Inr by (auto simp: spawned_execution_def)
      from finished_execution_closes [OF assms(1) ex] finished_task_ends [OF assms(1-4) ex]
      show ?thesis by (simp add: d')
    qed
  qed
  then show "\<forall>q \<in> set (runs d'). run_id q = rid \<longrightarrow> \<not> active_run (run_status q)"
    and "\<forall>x \<in> set (results d'). res_run x = rid \<longrightarrow> \<not> open_unit (res_status x)"
    and "\<forall>x \<in> set (tasks d'). task_id x = t \<longrightarrow> \<not> active_task (task_status x)"
    and "\<forall>i s m. result = Inr (i, s, m) \<longrightarrow> i = rid \<and> (\<forall>q \<in> set (runs d'). run_id q = rid \<longrightarrow> run_status q = s)"
    by blast+
qed

text \<open>
  C3. When the task that executes a run ends, nothing of the run is left open, whatever happened:
  the units succeeded, failed or were canceled, an executor panicked, or the run could not be
  claimed. The run is in the database with a final status, the one returned if a result was
  returned; it has the results of exactly the units of its plan, and none of them is pending
  or running.
\<close>

theorem execution_leaves_nothing_open:
  assumes "ready_run env rid plan d" and "spawned_execution env script rid show_error d = (Some result, d')"
  shows "(\<exists>q \<in> set (runs d'). run_id q = rid) \<and>
    (\<forall>q \<in> set (runs d'). run_id q = rid \<longrightarrow> \<not> active_run (run_status q)) \<and>
    map res_unit (run_results d' rid) = map item_unit_id (plan_items plan) \<and>
    (\<forall>x \<in> set (results d'). res_run x = rid \<longrightarrow> \<not> open_unit (res_status x)) \<and>
    (\<forall>i s m. result = Inr (i, s, m) \<longrightarrow> i = rid \<and> (\<forall>q \<in> set (runs d'). run_id q = rid \<longrightarrow> run_status q = s))"
proof -
  obtain r t where r: "r \<in> set (runs d)" "run_id r = rid" "run_task r = Some t"
    using assms(1) by (auto simp: ready_run_def)
  have w: "within d d'" using within_spawned [of d env script rid show_error] assms(2) by simp
  then obtain q where "q \<in> set (runs d')" "run_kept r q"
    using r(1) list_all2_in(2) [of run_kept "runs d" "runs d'" r] by (auto simp: within_def)
  then have "\<exists>q \<in> set (runs d'). run_id q = rid" using r(2) by (auto simp: run_kept_def)
  moreover have "map res_unit (run_results d' rid) = map item_unit_id (plan_items plan)"
    by (simp add: within_units [OF w] ready_units [OF assms(1)])
  ultimately show ?thesis using spawned_closes [OF assms(1) r assms(2)] by blast
qed

text \<open>When nothing holds the environment any more, a request with the hash of the current plan is accepted.\<close>

lemma free_environment_deploys:
  assumes "\<forall>q \<in> set (runs d). run_env q = ci_environment inp \<longrightarrow> \<not> active_run (run_status q)"
    and "\<forall>x \<in> set (tasks d). task_env x = Some (ci_environment inp) \<and> task_kind x \<in> set guarded_kinds \<longrightarrow>
      \<not> active_task (task_status x)"
    and "trim (ci_expected_hash inp) \<noteq> []"
    and load: "load_deployment_plan env d (ci_environment inp) (ci_release inp) (ci_mode inp) = Inr plan"
    and "plan_hash plan = ci_expected_hash inp" and "plan_to_json env plan = Some json"
  shows "fst (create_run env inp d) = Inr (run_seq d + 1, task_seq d + 1, plan)"
proof -
  have e: "plan_environment_id plan = ci_environment inp"
    using load by (auto simp: load_deployment_plan_def build_deployment_plan_def Let_def
        split: list.splits sum.splits if_splits option.splits)
  have "find (\<lambda>r. run_env r = ci_environment inp \<and> active_run (run_status r)) (rev (runs d)) = None"
    using assms(1) by (auto simp: find_None_iff)
  moreover have "\<not> task_insert_refused d (new_deploy_task inp plan)"
    using assms(2) by (auto simp: task_insert_refused_def new_deploy_task_def)
  ultimately have "fst (create_run_tx env inp d) = Inr (run_seq d + 1, task_seq d + 1, plan)"
    using assms(1,5,6) load e
    by (auto simp: create_run_tx_def insert_task_def insert_run_def new_run_def Let_def)
  then show ?thesis
    using assms(3) by (auto simp: create_run_def transaction_def split: prod.splits)
qed

text \<open>
  C9. The task that the deploy handler spawns frees the environment: if no other run and no other
  task of the environment is active, then when it ends, with a result or with an error, no run
  of the environment is active, and any deployment of that environment whose plan can be made and
  stored and whose confirmed hash is the one of that plan is accepted.
\<close>

theorem spawned_execution_frees_environment:
  assumes "ready_run env rid plan d" and "r \<in> set (runs d)" and "run_id r = rid" and "run_task r = Some t"
    and "\<forall>q \<in> set (runs d). run_env q = run_env r \<and> active_run (run_status q) \<longrightarrow> run_id q = rid"
    and "\<forall>x \<in> set (tasks d). task_env x = Some (run_env r) \<and> task_kind x \<in> set guarded_kinds \<and>
      active_task (task_status x) \<longrightarrow> task_id x = t"
    and "spawned_execution env script rid show_error d = (Some result, d')"
  shows "(\<forall>q \<in> set (runs d'). run_env q = run_env r \<longrightarrow> \<not> active_run (run_status q)) \<and>
    (\<forall>inp plan' json. ci_environment inp = run_env r \<and> trim (ci_expected_hash inp) \<noteq> [] \<and>
      load_deployment_plan env d' (ci_environment inp) (ci_release inp) (ci_mode inp) = Inr plan' \<and>
      plan_hash plan' = ci_expected_hash inp \<and> plan_to_json env plan' = Some json \<longrightarrow>
      (\<exists>new task. fst (create_run env inp d') = Inr (new, task, plan')))"
proof -
  have w: "within d d'" using within_spawned [of d env script rid show_error] assms(7) by simp
  note cl = spawned_closes [OF assms(1-4,7)]
  have runs: "\<not> active_run (run_status q)" if q: "q \<in> set (runs d')" "run_env q = run_env r" for q
  proof
    assume a: "active_run (run_status q)"
    obtain p where "p \<in> set (runs d)" "run_kept p q" by (rule within_run [OF w q(1)])
    then have "run_id q = rid" using assms(5) a q(2) by (auto simp: run_kept_def)
    then show False using cl(1) q(1) a by blast
  qed
  have tasks: "\<not> active_task (task_status x)"
    if x: "x \<in> set (tasks d')" "task_env x = Some (run_env r)" "task_kind x \<in> set guarded_kinds" for x
  proof
    assume a: "active_task (task_status x)"
    obtain y where "y \<in> set (tasks d)" "task_kept y x" by (rule within_task [OF w x(1)])
    then have "task_id x = t" using assms(6) a x(2,3) by (auto simp: task_kept_def)
    then show False using cl(3) x(1) a by blast
  qed
  have "\<exists>new task. fst (create_run env inp d') = Inr (new, task, plan')"
    if i: "ci_environment inp = run_env r" and h: "trim (ci_expected_hash inp) \<noteq> []"
      "load_deployment_plan env d' (ci_environment inp) (ci_release inp) (ci_mode inp) = Inr plan'"
      "plan_hash plan' = ci_expected_hash inp" "plan_to_json env plan' = Some json" for inp plan' json
  proof -
    have "fst (create_run env inp d') = Inr (run_seq d' + 1, task_seq d' + 1, plan')"
      by (rule free_environment_deploys [OF _ _ h]) (use runs tasks i in auto)
    then show ?thesis by blast
  qed
  with runs show ?thesis by blast
qed

section \<open>A panic in the installation of the samples\<close>

abbreviation sample_panicking :: "(orch_error + (int \<times> run_status \<times> memo)) option \<times> db" where
  "sample_panicking \<equiv> spawned_execution sample_exec_env (sample_script [sample_panic]) 8 (\<lambda>_. []) sample_queued"

lemma sample_panicking_ends: "sample_panicking = (Some (Inl (DatabaseError UnitAborted)), snd sample_panicking)"
proof -
  obtain d1 where "sample_execution [sample_panic] = (Some (Inl (DatabaseError UnitAborted)), d1)"
    using sample_panicked by (metis prod.collapse)
  then show ?thesis by (simp add: spawned_execution_def)
qed

theorem execution_leaves_nothing_open_witness:
  "map res_unit (run_results (snd sample_panicking) 8) = [3, 1, 2] \<and>
   filter (\<lambda>x. res_run x = 8 \<and> open_unit (res_status x)) (results (snd sample_panicking)) = []"
  using execution_leaves_nothing_open [OF sample_ready sample_panicking_ends]
  by (simp add: filter_empty_conv)

lemma sample_panicking_identities: "plan_identities (snd sample_panicking) 2 3 = [(1, 4, lit ''c'')]"
  by code_simp

lemma sample_panicking_nodes: "environment_nodes (snd sample_panicking) 2 = [5, 6]"
  by code_simp

lemma sample_panicking_units:
  "load_target_units sample_exec_env (snd sample_panicking) 3 1 (lit ''c'') =
     [sample_unit 1 1 (lit ''active''), sample_unit 3 1 (lit ''disabled''), sample_unit 2 2 (lit ''active'')]"
  by code_simp

lemma sample_panicking_states:
  "load_unit_states (snd sample_panicking) 2 = load_unit_states sample_db 2"
  by code_simp

lemma sample_panicking_plan:
  "load_deployment_plan sample_exec_env (snd sample_panicking) 2 3 Normal = Inr sample_run_plan"
proof -
  have "document_json sample_exec_env = document_json sample_env" "sha256_hex sample_exec_env = sha256_hex sample_env"
    by (simp_all add: sample_exec_env_def)
  then have "build_deployment_plan sample_exec_env = build_deployment_plan sample_env"
    unfolding build_deployment_plan_def [abs_def] by (simp only:)
  then show ?thesis
    by (simp add: load_deployment_plan_def sample_panicking_identities sample_panicking_nodes
        sample_panicking_units sample_panicking_states sample_states sample_build)
qed

theorem spawned_execution_frees_environment_witness:
  "\<exists>new task. fst (create_run sample_exec_env sample_create (snd sample_panicking)) = Inr (new, task, sample_run_plan)"
proof -
  have r: "sample_run RunQueued \<in> set (runs sample_queued)" by (simp add: sample_queued_def)
  have e: "ci_environment sample_create = 2" "ci_release sample_create = 3" "ci_mode sample_create = Normal"
    by (simp_all add: sample_create_def)
  have p: "plan_hash sample_run_plan = ci_expected_hash sample_create"
    "plan_to_json sample_exec_env sample_run_plan = plan_to_json sample_env sample_run_plan"
    by (simp_all add: sample_run_plan_def sample_create_def sample_exec_env_def)
  obtain json where j: "plan_to_json sample_env sample_run_plan = Some json"
    by (simp add: sample_env_def)
  show ?thesis
    using spawned_execution_frees_environment [OF sample_ready r sample_row(1,4) _ _ sample_panicking_ends]
      sample_panicking_plan sample_hash
    by (auto simp: sample_queued_def e p j)
qed

end
