(* ===== verification/Spec2Isabelle.thy ===== *)
theory Spec2Isabelle
  imports Task_Properties Role_Properties Log_Properties Release_Witnesses Execution_Ends
begin

text \<open>
  easy-deploy is a server (Rust, SQLite) from which operators release applications made of
  several units and deploy them to their environments. Its parts that carry the logic of a
  deployment, and that this development models, call each other as follows. An operator logs in
  (authentication service) and may do what the permissions of the roles allow. A package of a
  unit is registered, and packages and configurations are combined into a release of the
  application (release service). The orchestrator compares a release with what runs, makes a
  plan, records a run with a task, its phases and its steps, and executes it in waves; the task
  service shows and cancels tasks and runs the jobs of the older deployments. The output of a
  step is masked and stored within a budget (log service). The retention service deletes
  histories, releases and artifacts that nothing needs.

  \<^bold>\<open>The theories and the code.\<close> File names are under \<open>src/api/src\<close>, migrations under
  \<open>src/api/migrations\<close>. Every definition keeps the name of the function, type or table it
  models; columns have the prefix of their table.

  \<^item> \<open>Prelude\<close>: text, decimal numbers, \<open>LIKE\<close>, tables as lists of rows, operations that may
    fail and \<open>transaction\<close>, and the lemmas about them.
  \<^item> \<open>Planner\<close>: \<open>build_deployment_plan\<close>, \<open>classify_action\<close> and \<open>execution_waves\<close> of
    \<open>deployment_orchestrator.rs\<close>.
  \<^item> \<open>Database\<close>: the tables the orchestrator and the task service share (migrations 0006, 0037,
    0038, 0039, 0041, 0047, 0049, 0050, 0054), with the unique index on active runs and the
    trigger that refuses a second active task of an environment.
  \<^item> \<open>Orchestrator\<close>: the operations of \<open>DeploymentOrchestratorService\<close> on the database, from
    loading a plan to reconciling runs after a restart.
  \<^item> \<open>Lifecycle\<close>, \<open>Run_Operations\<close>, \<open>Run_Outcomes\<close>: the abstract lock board of environments,
    the refinement of every operation to it, what each operation does, fingerprints and
    final states. \<open>Samples\<close> holds the installation on which the properties are applied.
  \<^item> \<open>Waves\<close>, \<open>Execution\<close>, \<open>Execution_Properties\<close>, \<open>Execution_Ends\<close>:
    \<open>execute_run_with_cancellation\<close> and \<open>execute_wave\<close>, the cancellation registry (\<open>deploy.rs\<close>) and
    the spawned execution of \<open>web/mod.rs\<close>. The locale \<open>unit_ledger\<close> is what a wave relies on of
    the database, \<open>ledger_frame\<close> what a wave keeps if every operation of the ledger does; the
    operations of the orchestrator interpret both.
  \<^item> \<open>Tasks\<close>, \<open>Task_Board\<close>, \<open>Task_Properties\<close>: \<open>tasks.rs\<close> with the part of \<open>apps.rs\<close> that records a
    job; the locale \<open>task_queue\<close> is what the worker of the queue relies on, interpreted by the
    two services on one database.
  \<^item> \<open>Permissions\<close>, \<open>Session_Store\<close>, \<open>Accounts\<close>, \<open>Auth_Service\<close>: \<open>auth/permissions.rs\<close>,
    \<open>auth/session_store.rs\<close>, \<open>auth/password.rs\<close> and \<open>auth/service.rs\<close>; the locale
    \<open>session_contract\<close> is the trait \<open>SessionStore\<close>, interpreted by the memory store.
    \<open>Auth_Invariant\<close>, \<open>Auth_Properties\<close>, \<open>Api_Tokens\<close>, \<open>Role_Properties\<close>: the invariant of
    snapshots and tables, and what it gives of sessions, logins, quotas and roles.
  \<^item> \<open>Log_Redaction\<close>, \<open>Step_Logs\<close>, \<open>Store\<close>, \<open>Log_Service\<close>: the first half of
    \<open>deployment_retention.rs\<close> (\<open>StreamingRedactor\<close>, \<open>BoundedLogBuffer\<close>, \<open>TaskLogBudget\<close>,
    \<open>DeploymentLogService\<close>; migrations 0035, 0052); \<open>Redaction_Properties\<close>, \<open>Log_Invariant\<close>,
    \<open>Log_Properties\<close>: the redactor against a reference that reads the whole text, the budget as
    an invariant, checkpoints, and the log of a step against its output.
  \<^item> \<open>Releases\<close>: \<open>application_releases.rs\<close>. \<open>Retention\<close>: the second half of
    \<open>deployment_retention.rs\<close>, \<open>DeploymentRetentionService\<close>.
    \<open>Artifact_Uses\<close>, \<open>Release_Writes\<close>, \<open>Artifact_Safety\<close>, \<open>Release_Properties\<close>,
    \<open>Release_Witnesses\<close>: the steps of releases, retention and orchestrator together, the
    invariant that a needed artifact is there, version codes, and that the orchestrator can plan
    a release that was created.

  \<^bold>\<open>State and steps.\<close> The tables are lists of rows in the order of their ids; \<open>db\<close> holds those of
  the orchestrator, \<open>store\<close> adds the ones of logs, releases and retention, \<open>auth\<close> is a state of
  its own. An operation returns an error or a value together with the state it leaves; where the
  code opens a transaction an error leaves the state as it was. Reachable states are those of
  the step relations \<open>orch_step\<close>, \<open>board_step\<close>, \<open>auth_step\<close>, \<open>served\<close> and \<open>store_step\<close>.

  \<^bold>\<open>What the lemmas show.\<close> The properties are numbered C1, C2, ... before the theorems: the order and
  determinism of plans; the lock board as the specification of the orchestrator; execution
  (waves, limits, failures, cancellation, that every unit is closed and the environment freed,
  also when an executor panics);
  tasks and their numbering; sessions, logins, tokens, roles; redaction and logs; artifacts and
  releases.

  \<^bold>\<open>Bounds and termination.\<close> Every function is total. The loops of the code are structural
  recursions, but for the redactor (the unread input gets shorter) and the closure of permissions
  (the ids still to be seen), whose \<open>termination\<close> is proved. The order in which running units
  end is given by a script with one entry for each unit that was started, so execution needs no
  fuel, and that it comes to an end is a property. Rust's \<open>i64\<close> ids and counters are \<open>int\<close>; the byte
  counters of the logs wrap at \<open>2 ^ 64\<close> where the source adds and saturate where it saturates.

  \<^bold>\<open>Assumptions.\<close> One operation is one step: SQLite serializes writers, and an operation outside a
  transaction is not interrupted by another one. In particular the checkpoint of a log is written
  in the call that takes it, but for the property about late checkpoints. Time is a number of milliseconds. The database
  fails only on a violated constraint of the model. SHA-256, password hashes, JSON texts, random
  tokens, the object store and the file system are parameters (\<open>plan_env\<close>, \<open>crates\<close>,
  \<open>release_crates\<close> and arguments of operations); a property that relies on them
  states what it needs. An executor stores outcomes only for units of a run it was given
  (\<open>from_plan\<close>), and everything that is not modelled leaves the tables of releases and the runs
  alone (\<open>other_step\<close>).

  \<^bold>\<open>Not modelled.\<close> The handlers and templates of the web pages, except those named above; the older
  release queue and the deployments of \<open>apps.rs\<close>; processes, ssh sessions and files (\<open>deploy.rs\<close>,
  \<open>runtimefs.rs\<close>, \<open>deployment_runtime.rs\<close>); the client of the object store
  (\<open>artifact_storage.rs\<close>); nodes and their credentials, health probes, host metrics, platform
  settings, templates of the catalog, backups and migrations, and the queries of the console.
  They move bytes between the operating system, the network and the pages, and what they decide
  rests on answers from outside the repository.
\<close>

end
